(* ===== verification/Prelude.thy ===== *)
theory Prelude
  imports Main "HOL-Library.Word" "HOL-Library.Char_ord" "HOL-Library.List_Lexorder"
begin

text \<open>
  What every component of the development shares: the names of the fixed-width integers,
  the result type that makes each C++ exception, each undefined behaviour and each loop
  that does not return a value, the two loops with an early exit over it, and the
  little-endian packing loop that several source files repeat.

  The theorem collections \<open>res_simps\<close> (results), \<open>page_simps\<close> (page arithmetic) and
  \<open>le_simps\<close> (little-endian packing) carry the component proofs.
\<close>

unbundle bit_operations_syntax

named_theorems res_simps
named_theorems page_simps
named_theorems le_simps

type_synonym u8 = "8 word"
type_synonym u16 = "16 word"
type_synonym u32 = "32 word"
type_synonym u64 = "64 word"

section \<open>Results\<close>

text \<open>
  A computation of the program returns a value, throws one of the exceptions of the
  standard library, runs into undefined behaviour of C++ (a null pointer or an index out
  of range), or does not return. Only exceptions are caught by
  \<open>catch (const std::exception &)\<close>.
\<close>

datatype failure =
    InvalidArgument string
  | OutOfRange string
  | LengthError string
  | RuntimeError string
  | UndefinedBehaviour
  | Diverges

type_synonym 'a res = "failure + 'a"

fun is_exception :: "failure \<Rightarrow> bool" where
  "is_exception UndefinedBehaviour = False"
| "is_exception Diverges = False"
| "is_exception _ = True"

fun what :: "failure \<Rightarrow> string" where
  "what (InvalidArgument m) = m"
| "what (OutOfRange m) = m"
| "what (LengthError m) = m"
| "what (RuntimeError m) = m"
| "what UndefinedBehaviour = []"
| "what Diverges = []"

fun res_bind :: "'a res \<Rightarrow> ('a \<Rightarrow> 'b res) \<Rightarrow> 'b res" where
  "res_bind (Inl e) f = Inl e"
| "res_bind (Inr x) f = f x"

definition throw_runtime :: "string \<Rightarrow> 'a res" where
  "throw_runtime m = Inl (RuntimeError m)"

lemma res_bind_Inr [res_simps]:
  "res_bind m f = Inr y \<longleftrightarrow> (\<exists>x. m = Inr x \<and> f x = Inr y)"
  by (cases m) auto

lemma res_bind_Inl [res_simps]:
  "res_bind m f = Inl e \<longleftrightarrow> m = Inl e \<or> (\<exists>x. m = Inr x \<and> f x = Inl e)"
  by (cases m) auto

lemma throw_runtime_simps [res_simps]:
  "throw_runtime m \<noteq> Inr x" "(throw_runtime m = Inl e) = (e = RuntimeError m)"
  by (auto simp: throw_runtime_def)

lemma res_bind_throw [simp]: "res_bind (throw_runtime m) f = throw_runtime m"
  by (simp add: throw_runtime_def)

lemma res_bind_case [code_unfold]:
  "res_bind m f = (case m of Inl e \<Rightarrow> Inl e | Inr x \<Rightarrow> f x)"
  by (cases m) auto

lemma res_bind_cong [fundef_cong]:
  "m = m' \<Longrightarrow> (\<And>x. m' = Inr x \<Longrightarrow> f x = g x) \<Longrightarrow> res_bind m f = res_bind m' g"
  by (cases m') auto

text \<open>A loop over a list whose body may leave with an exception.\<close>

fun res_fold :: "('s \<Rightarrow> 'a \<Rightarrow> 's res) \<Rightarrow> 's \<Rightarrow> 'a list \<Rightarrow> 's res" where
  "res_fold f s [] = Inr s"
| "res_fold f s (x # xs) = res_bind (f s x) (\<lambda>s'. res_fold f s' xs)"

fun res_map :: "('a \<Rightarrow> 'b res) \<Rightarrow> 'a list \<Rightarrow> 'b list res" where
  "res_map f [] = Inr []"
| "res_map f (x # xs) =
     res_bind (f x) (\<lambda>y. res_bind (res_map f xs) (\<lambda>ys. Inr (y # ys)))"

lemma res_fold_append:
  "res_fold f s (xs @ ys) = res_bind (res_fold f s xs) (\<lambda>s'. res_fold f s' ys)"
proof (induction xs arbitrary: s)
  case (Cons x xs)
  then show ?case by (cases "f s x") auto
qed simp

lemma res_fold_invariant:
  assumes "res_fold f s xs = Inr t" and "P s"
    and "\<And>s x s'. x \<in> set xs \<Longrightarrow> P s \<Longrightarrow> f s x = Inr s' \<Longrightarrow> P s'"
  shows "P t"
  using assms
proof (induction xs arbitrary: s)
  case (Cons x xs)
  from Cons.prems(1) obtain s' where s': "f s x = Inr s'" "res_fold f s' xs = Inr t"
    by (auto simp: res_simps)
  from Cons.prems(2,3) s'(1) have "P s'" by auto
  with Cons.prems(3) show ?case by (intro Cons.IH [OF s'(2)]) auto
qed simp

text \<open>The error of a loop is the error of one of its steps, and a loop that appends collects.\<close>

lemma res_fold_Inl:
  "res_fold f s xs = Inl e \<Longrightarrow> \<exists>x \<in> set xs. \<exists>s. f s x = Inl e"
proof (induction xs arbitrary: s)
  case (Cons x xs)
  then show ?case by (cases "f s x") auto
qed simp

lemma res_fold_snoc:
  assumes "res_fold f s xs = Inr t" "\<And>s x s'. f s x = Inr s' \<Longrightarrow> \<exists>y. Q y \<and> s' = s @ [y]"
  shows "\<exists>ys. t = s @ ys \<and> length ys = length xs \<and> list_all Q ys"
  using assms(1)
proof (induction xs arbitrary: s)
  case (Cons x xs)
  from Cons.prems obtain s' where s': "f s x = Inr s'" "res_fold f s' xs = Inr t"
    by (auto simp: res_simps)
  from assms(2) [OF s'(1)] obtain y where "s' = s @ [y]" "Q y" by auto
  moreover from Cons.IH [OF s'(2)] obtain ys where
    "t = s' @ ys" "length ys = length xs" "list_all Q ys" by auto
  ultimately show ?case by (intro exI [of _ "y # ys"]) simp
qed simp

lemma res_fold_map: "res_fold f s (map g xs) = res_fold (\<lambda>s x. f s (g x)) s xs"
proof (induction xs arbitrary: s)
  case (Cons x xs)
  then show ?case by (cases "f s (g x)") auto
qed simp

lemma res_fold_cong:
  "(\<And>s x. x \<in> set xs \<Longrightarrow> f s x = g s x) \<Longrightarrow> res_fold f s xs = res_fold g s xs"
proof (induction xs arbitrary: s)
  case (Cons x xs)
  then show ?case by (cases "g s x") auto
qed simp

lemma throw_runtime_exception: "throw_runtime m = Inl e \<Longrightarrow> is_exception e"
  by (auto simp: throw_runtime_def)

lemma res_map_Inr:
  "res_map f xs = Inr ys \<longleftrightarrow> list_all2 (\<lambda>x y. f x = Inr y) xs ys"
proof (induction xs arbitrary: ys)
  case (Cons x xs)
  then show ?case by (cases ys) (auto simp: res_simps)
qed auto

lemma res_map_length: "res_map f xs = Inr ys \<Longrightarrow> length ys = length xs"
  by (auto simp: res_map_Inr dest: list_all2_lengthD)

lemma res_map_Inl:
  "res_map f xs = Inl e \<Longrightarrow> \<exists>x \<in> set xs. f x = Inl e"
  by (induction xs) (auto simp: res_simps)

lemma unat_of_nat_small:
  "n < 2 ^ LENGTH('a) \<Longrightarrow> unat (of_nat n :: 'a::len word) = n"
  by (simp add: unat_of_nat)

section \<open>Little-endian packing\<close>

text \<open>
  The loop \<open>for (i = 0; i < n; ++i) value |= static_cast<T>(bytes[i]) << (i * 8)\<close> that
  \<^verbatim>\<open>guest_memory.hpp\<close>, \<^verbatim>\<open>x86tester_parser.cpp\<close>, \<^verbatim>\<open>comparator.cpp\<close> and
  \<^verbatim>\<open>tester_main.cpp\<close> each contain, and its inverse, one shift and mask for each byte.
\<close>

fun le_loop :: "nat \<Rightarrow> u8 list \<Rightarrow> 'a::len word \<Rightarrow> 'a word" where
  "le_loop i [] v = v"
| "le_loop i (b # bs) v = le_loop (Suc i) bs (v OR push_bit (i * 8) (ucast b))"

definition le_word :: "u8 list \<Rightarrow> 'a::len word" where
  "le_word bs = le_loop 0 bs 0"

definition le_bytes :: "'a::len word \<Rightarrow> u8 list" where
  "le_bytes v = map (\<lambda>i. ucast (drop_bit (i * 8) v AND 0xFF)) [0..<LENGTH('a) div 8]"

lemma bit_le_loop:
  "bit (le_loop i bs v :: 'a::len word) n \<longleftrightarrow>
     bit v n \<or> (n < LENGTH('a) \<and> i \<le> n div 8 \<and> n div 8 < i + length bs \<and>
                bit (bs ! (n div 8 - i)) (n mod 8))"
proof (induction i bs v rule: le_loop.induct)
  case (1 i v)
  then show ?case by auto
next
  case (2 i b bs v)
  have shift: "bit (push_bit (i * 8) (ucast b :: 'a word)) n \<longleftrightarrow>
      n < LENGTH('a) \<and> n div 8 = i \<and> bit b (n mod 8)"
  proof (cases "i * 8 \<le> n \<and> n < i * 8 + 8")
    case True
    define k where "k = n - i * 8"
    with True have "n = i * 8 + k" "k < 8" by auto
    then have "n div 8 = i" "n - i * 8 = n mod 8" by simp_all
    with True show ?thesis
      by (auto simp: bit_push_bit_iff bit_ucast_iff possible_bit_def)
  next
    case False
    then have "n div 8 \<noteq> i" by auto
    moreover have "\<not> bit b (n - i * 8)" if "i * 8 \<le> n"
      using False that by (auto dest: bit_imp_le_length)
    ultimately show ?thesis
      by (auto simp: bit_push_bit_iff bit_ucast_iff possible_bit_def)
  qed
  show ?case
    using 2 shift by (cases "n div 8 = i") (auto simp: bit_or_iff nth_Cons')
qed

lemma bit_le_word [le_simps]:
  "bit (le_word bs :: 'a::len word) n \<longleftrightarrow>
     n < LENGTH('a) \<and> n div 8 < length bs \<and> bit (bs ! (n div 8)) (n mod 8)"
  by (simp add: le_word_def bit_le_loop)

lemma length_le_bytes [simp]: "length (le_bytes (v :: 'a::len word)) = LENGTH('a) div 8"
  by (simp add: le_bytes_def)

lemma bit_le_bytes [le_simps]:
  assumes "i < LENGTH('a) div 8"
  shows "bit (le_bytes (v :: 'a::len word) ! i) n \<longleftrightarrow> n < 8 \<and> bit v (i * 8 + n)"
proof -
  have mask: "(0xFF :: 'a word) = mask 8" by (simp add: mask_eq_exp_minus_1)
  show ?thesis
    using assms
    by (auto simp: le_bytes_def mask bit_ucast_iff bit_and_iff bit_mask_iff bit_drop_bit_eq
        ac_simps possible_bit_def dest: bit_imp_le_length)
qed

lemma le_word_le_bytes [le_simps]:
  assumes "8 dvd LENGTH('a)"
  shows "le_word (le_bytes v) = (v :: 'a::len word)"
proof (rule bit_word_eqI)
  fix n assume "n < LENGTH('a)"
  moreover from this assms have "n div 8 < LENGTH('a) div 8" by auto
  ultimately show "bit (le_word (le_bytes v) :: 'a word) n = bit v n"
    by (simp add: le_simps)
qed

lemma le_bytes_le_word [le_simps]:
  assumes "length bs = LENGTH('a) div 8"
  shows "le_bytes (le_word bs :: 'a::len word) = bs"
proof (rule nth_equalityI)
  fix i assume "i < length (le_bytes (le_word bs :: 'a word))"
  then have i: "i < LENGTH('a) div 8" by simp
  show "le_bytes (le_word bs :: 'a word) ! i = bs ! i"
  proof (rule bit_word_eqI)
    fix n assume "n < LENGTH(8)"
    moreover from this i have "i * 8 + n < LENGTH('a)" by auto
    ultimately show "bit (le_bytes (le_word bs :: 'a word) ! i) n = bit (bs ! i) n"
      using i assms by (simp add: le_simps)
  qed
qed (simp add: assms)

lemma le_word_inj:
  assumes "length bs = length cs" "length bs \<le> LENGTH('a) div 8"
    and "(le_word bs :: 'a::len word) = le_word cs"
  shows "bs = cs"
proof (rule nth_equalityI)
  fix i assume i: "i < length bs"
  show "bs ! i = cs ! i"
  proof (rule bit_word_eqI)
    fix n assume "n < LENGTH(8)"
    moreover from this i assms(2) have "i * 8 + n < LENGTH('a)" by auto
    moreover have "bit (le_word bs :: 'a word) (i * 8 + n) = bit (le_word cs :: 'a word) (i * 8 + n)"
      using assms(3) by simp
    ultimately show "bit (bs ! i) n = bit (cs ! i) n"
      using i assms(1) by (simp add: le_simps)
  qed
qed (rule assms(1))

end
