(* ===== verification/Cpp_Std.thy ===== *)
theory Cpp_Std
  imports Prelude "HOL-Library.Code_Target_Nat"
begin

text \<open>
  What the sources use of the C++ standard library: the \<open>ctype\<close> classification in the C
  locale, \<open>std::string\<close> searching, \<open>std::stoull\<close>, \<open>std::from_chars\<close>, number and
  quoted output and \<open>std::getline\<close>.
  The texts of the exceptions of \<open>std::stoull\<close> are those of libstdc++.
\<close>

section \<open>Characters\<close>

definition is_space :: "char \<Rightarrow> bool" where
  "is_space c \<longleftrightarrow> (let n = of_char c :: nat in (9 \<le> n \<and> n \<le> 13) \<or> n = 32)"

definition is_digit :: "char \<Rightarrow> bool" where
  "is_digit c \<longleftrightarrow> (let n = of_char c :: nat in 48 \<le> n \<and> n \<le> 57)"

definition to_lower :: "char \<Rightarrow> char" where
  "to_lower c = (let n = of_char c :: nat in if 65 \<le> n \<and> n \<le> 90 then char_of (n + 32) else c)"

definition to_upper :: "char \<Rightarrow> char" where
  "to_upper c = (let n = of_char c :: nat in if 97 \<le> n \<and> n \<le> 122 then char_of (n - 32) else c)"

lemma of_char_to_lower:
  "(of_char (to_lower c) :: nat) = (if 65 \<le> (of_char c :: nat) \<and> of_char c \<le> (90 :: nat)
     then of_char c + 32 else of_char c)"
  by (auto simp: to_lower_def Let_def of_char_of)

lemma to_lower_idem [simp]: "to_lower (to_lower c) = to_lower c"
proof -
  have "(of_char (to_lower (to_lower c)) :: nat) = of_char (to_lower c)"
    by (simp add: of_char_to_lower)
  then show ?thesis by (simp only: of_char_eq_iff)
qed

lemma is_space_to_lower [simp]: "is_space (to_lower c) = is_space c"
  by (auto simp: is_space_def of_char_to_lower Let_def)

section \<open>Strings\<close>

fun index_of :: "'a \<Rightarrow> 'a list \<Rightarrow> nat option" where
  "index_of x [] = None"
| "index_of x (y # ys) = (if x = y then Some 0 else map_option Suc (index_of x ys))"

text \<open>\<open>find(c, start)\<close>, \<open>rfind(c)\<close> with \<open>npos\<close> as \<open>None\<close>, and \<open>rfind(prefix, 0) == 0\<close>.\<close>

definition str_find :: "string \<Rightarrow> char \<Rightarrow> nat \<Rightarrow> nat option" where
  "str_find text c start = map_option (\<lambda>i. start + i) (index_of c (drop start text))"

definition str_rfind :: "string \<Rightarrow> char \<Rightarrow> nat option" where
  "str_rfind text c = map_option (\<lambda>i. length text - 1 - i) (index_of c (rev text))"

definition starts_with :: "string \<Rightarrow> string \<Rightarrow> bool" where
  "starts_with text prefix \<longleftrightarrow> take (length prefix) text = prefix"

definition substr :: "string \<Rightarrow> nat \<Rightarrow> nat \<Rightarrow> string" where
  "substr text pos n = take n (drop pos text)"

lemma index_of_Some:
  "index_of x ys = Some i \<Longrightarrow> i < length ys \<and> ys ! i = x \<and> x \<notin> set (take i ys)"
  by (induction ys arbitrary: i) (auto split: if_splits)

lemma index_of_None: "index_of x ys = None \<longleftrightarrow> x \<notin> set ys"
  by (induction ys) auto

lemma str_find_Some:
  assumes "str_find text c start = Some p"
  shows "start \<le> p" "p < length text" "text ! p = c" "c \<notin> set (substr text start (p - start))"
proof -
  from assms obtain i where i: "index_of c (drop start text) = Some i" "p = start + i"
    by (auto simp: str_find_def)
  from index_of_Some [OF i(1)] i(2)
  show "start \<le> p" "p < length text" "text ! p = c" "c \<notin> set (substr text start (p - start))"
    by (auto simp: substr_def)
qed

lemma str_find_None: "str_find text c start = None \<longleftrightarrow> c \<notin> set (drop start text)"
  by (simp add: str_find_def index_of_None)

lemma starts_with_append [simp]: "starts_with (p @ s) p"
  by (simp add: starts_with_def)

lemma starts_with_iff: "starts_with text p \<longleftrightarrow> (\<exists>s. text = p @ s)"
  unfolding starts_with_def by (metis append_eq_conv_conj append_take_drop_id)

section \<open>Numbers from text\<close>

definition digit_value :: "char \<Rightarrow> nat option" where
  "digit_value c = (let n = of_char c :: nat in
     if 48 \<le> n \<and> n \<le> 57 then Some (n - 48)
     else if 97 \<le> n \<and> n \<le> 122 then Some (n - 87)
     else if 65 \<le> n \<and> n \<le> 90 then Some (n - 55) else None)"

definition is_base_digit :: "nat \<Rightarrow> char \<Rightarrow> bool" where
  "is_base_digit b c = (case digit_value c of None \<Rightarrow> False | Some d \<Rightarrow> d < b)"

definition digits_value :: "nat \<Rightarrow> string \<Rightarrow> nat" where
  "digits_value b s = foldl (\<lambda>v c. v * b + the (digit_value c)) 0 s"

definition hex_prefix :: "string \<Rightarrow> bool" where
  "hex_prefix s = (case s of a # x # c # _ \<Rightarrow>
     a = CHR ''0'' \<and> (x = CHR ''x'' \<or> x = CHR ''X'') \<and> is_base_digit 16 c | _ \<Rightarrow> False)"

text \<open>
  \<open>std::stoull(text, &consumed, base)\<close>: leading white space, an optional sign, the
  prefix of base 16, the digits; the value is negated modulo \<open>2 ^ 64\<close> after a minus sign.
\<close>

definition stoull :: "string \<Rightarrow> nat \<Rightarrow> (u64 \<times> nat) res" where
  "stoull text base =
     (let s0 = dropWhile is_space text;
          neg = (s0 \<noteq> [] \<and> hd s0 = CHR ''-'');
          s1 = (if s0 \<noteq> [] \<and> (hd s0 = CHR ''-'' \<or> hd s0 = CHR ''+'') then tl s0 else s0);
          hex = ((base = 0 \<or> base = 16) \<and> hex_prefix s1);
          b = (if hex then 16
               else if base = 0 then (if s1 \<noteq> [] \<and> hd s1 = CHR ''0'' then 8 else 10)
               else base);
          s2 = (if hex then drop 2 s1 else s1);
          ds = takeWhile (is_base_digit b) s2;
          v = digits_value b ds
      in if ds = [] then Inl (InvalidArgument ''stoull'')
         else if 2 ^ 64 \<le> v then Inl (OutOfRange ''stoull'')
         else Inr (if neg then - of_nat v else of_nat v,
                   length text - length s2 + length ds))"

text \<open>
  \<open>std::from_chars\<close> for \<open>std::size_t\<close> in base 10: the value unless \<open>ec\<close> reports an
  error, and the offset of \<open>ptr\<close>. No white space, no sign.
\<close>

definition from_chars_dec :: "string \<Rightarrow> nat option \<times> nat" where
  "from_chars_dec s =
     (let ds = takeWhile is_digit s; v = digits_value 10 ds
      in if ds = [] then (None, 0)
         else if 2 ^ 64 \<le> v then (None, length ds) else (Some v, length ds))"

section \<open>Text from numbers\<close>

definition digit_char :: "bool \<Rightarrow> nat \<Rightarrow> char" where
  "digit_char upper d = char_of (if d < 10 then 48 + d else if upper then 55 + d else 87 + d)"

function show_nat :: "bool \<Rightarrow> nat \<Rightarrow> nat \<Rightarrow> string" where
  "show_nat upper b n =
     (if b < 2 \<or> n < b then [digit_char upper n]
      else show_nat upper b (n div b) @ [digit_char upper (n mod b)])"
  by pat_completeness auto
termination
  by (relation "measure (\<lambda>(upper, b, n). n)") auto

declare show_nat.simps [simp del]

definition to_string :: "u64 \<Rightarrow> string" where "to_string v = show_nat True 10 (unat v)"

definition hex_upper :: "u64 \<Rightarrow> string" where "hex_upper v = show_nat True 16 (unat v)"

definition hex_lower :: "u64 \<Rightarrow> string" where "hex_lower v = show_nat False 16 (unat v)"

text \<open>\<open>std::setw(2)\<close> with \<open>std::setfill('0')\<close>, upper-case hexadecimal.\<close>

definition hex_byte :: "u8 \<Rightarrow> string" where
  "hex_byte b = (let s = show_nat True 16 (unat b) in replicate (2 - length s) CHR ''0'' @ s)"

text \<open>\<open>operator<<\<close> of \<open>std::filesystem::path\<close> writes the path with \<open>std::quoted\<close>.\<close>

definition quoted :: "string \<Rightarrow> string" where
  "quoted s = CHR 0x22 # concat (map (\<lambda>c. if c = CHR 0x22 \<or> c = CHR 0x5C then [CHR 0x5C, c] else [c]) s)
                @ [CHR 0x22]"

text \<open>Successive \<open>std::getline\<close> calls until the stream fails.\<close>

function getlines :: "string \<Rightarrow> string list" where
  "getlines s = (if s = [] then []
     else takeWhile (\<lambda>c. c \<noteq> CHR 0x0A) s # getlines (drop 1 (dropWhile (\<lambda>c. c \<noteq> CHR 0x0A) s)))"
  by pat_completeness auto
termination
proof (relation "measure length")
  fix s :: string
  assume "s \<noteq> []"
  moreover have "length (dropWhile (\<lambda>c. c \<noteq> CHR 0x0A) s) \<le> length s" by (rule length_dropWhile_le)
  ultimately show "(drop 1 (dropWhile (\<lambda>c. c \<noteq> CHR 0x0A) s), s) \<in> measure length"
    by (cases s) (auto simp del: length_dropWhile_le, linarith?)
qed simp

declare getlines.simps [simp del]

text \<open>
  The loop \<open>for (i = 0; i < parts.size(); ++i) { if (i != 0) out << c; out << parts[i]; }\<close>
  and what makes its text unambiguous.
\<close>

fun join :: "string \<Rightarrow> string list \<Rightarrow> string" where
  "join sep [] = []"
| "join sep [x] = x"
| "join sep (x # y # ys) = x @ sep @ join sep (y # ys)"

lemma join_Cons: "xs \<noteq> [] \<Longrightarrow> join sep (x # xs) = x @ sep @ join sep xs"
  by (cases xs) auto

lemma append_sep_eq:
  "c \<notin> set x \<Longrightarrow> c \<notin> set y \<Longrightarrow> x @ c # s = y @ c # t \<longleftrightarrow> x = y \<and> s = t"
proof (induction x arbitrary: y)
  case Nil
  then show ?case by (cases y) auto
next
  case (Cons a x)
  then show ?case by (cases y) auto
qed

lemma join_inject:
  assumes "xs \<noteq> []" "ys \<noteq> []" "\<forall>x \<in> set xs. c \<notin> set x" "\<forall>y \<in> set ys. c \<notin> set y"
    and "join [c] xs = join [c] ys"
  shows "xs = ys"
  using assms
proof (induction "[c]" xs arbitrary: ys rule: join.induct)
  case (2 x)
  obtain u us where ys: "ys = u # us" using 2(2) by (cases ys) auto
  have "us = []"
  proof (rule ccontr)
    assume "us \<noteq> []"
    with 2 ys have "x = u @ c # join [c] us" by (simp add: join_Cons)
    with 2 show False by simp
  qed
  with 2 ys show ?case by simp
next
  case (3 x y zs)
  obtain u us where ys: "ys = u # us" using 3(3) by (cases ys) auto
  have "us \<noteq> []"
  proof
    assume "us = []"
    with 3(6) ys have "x @ c # join [c] (y # zs) = u" by simp
    moreover have "c \<notin> set u" using 3(5) ys by simp
    ultimately show False by (metis in_set_conv_decomp)
  qed
  with 3(4-6) ys have "x = u" "join [c] (y # zs) = join [c] us"
    by (auto simp: join_Cons append_sep_eq)
  with 3(1) 3(4,5) ys \<open>us \<noteq> []\<close> show ?case by auto
qed simp

section \<open>Numbers and their texts\<close>

lemma of_char_digit_char:
  "d < 36 \<Longrightarrow> (of_char (digit_char u d) :: nat) = (if d < 10 then 48 + d else if u then 55 + d else 87 + d)"
  by (auto simp: digit_char_def of_char_of)

lemma digit_value_digit_char: "d < 36 \<Longrightarrow> digit_value (digit_char u d) = Some d"
  by (auto simp: digit_value_def of_char_digit_char Let_def)

lemma is_base_digit_digit_char: "d < 36 \<Longrightarrow> is_base_digit b (digit_char u d) = (d < b)"
  by (simp add: is_base_digit_def digit_value_digit_char)

lemma is_base_digit_not:
  assumes "is_base_digit b c"
  shows "\<not> is_space c" "c \<noteq> CHR ''-''" "c \<noteq> CHR ''+''" "c \<noteq> CHR ''|''" "c \<noteq> CHR '',''" "c \<noteq> CHR '';''"
  using assms
  by (auto simp: is_base_digit_def digit_value_def is_space_def Let_def split: if_splits)

lemma show_nat_digits:
  assumes "2 \<le> b" "b \<le> 36"
  shows "show_nat u b n \<noteq> []" "\<forall>c \<in> set (show_nat u b n). \<exists>d < b. c = digit_char u d"
  using assms
proof (induction u b n rule: show_nat.induct)
  case (1 u b n)
  {
    case 1
    then show ?case by (subst show_nat.simps) simp
  next
    case 2
    then have "n mod b < b" by simp
    with 2 "1.IH" show ?case
      by (subst show_nat.simps) (auto intro!: exI [of _ "n mod b"])
  }
qed

lemma show_nat_base_digits:
  "2 \<le> b \<Longrightarrow> b \<le> 36 \<Longrightarrow> c \<in> set (show_nat u b n) \<Longrightarrow> is_base_digit b c"
  using show_nat_digits(2) [of b u n] is_base_digit_digit_char by fastforce

lemma digits_value_snoc: "digits_value b (s @ [c]) = digits_value b s * b + the (digit_value c)"
  by (simp add: digits_value_def)

lemma digits_value_show_nat:
  "2 \<le> b \<Longrightarrow> b \<le> 36 \<Longrightarrow> digits_value b (show_nat u b n) = n"
proof (induction u b n rule: show_nat.induct)
  case (1 u b n)
  show ?case
  proof (cases "n < b")
    case True
    with "1.prems" show ?thesis
      by (subst show_nat.simps) (simp add: digits_value_def digit_value_digit_char)
  next
    case False
    have "n mod b < b" using "1.prems"(1) by simp
    with "1.prems"(2) have "n mod b < 36" by simp
    with False 1 show ?thesis
      by (subst show_nat.simps) (simp add: digits_value_snoc digit_value_digit_char)
  qed
qed

lemma show_nat_hd:
  assumes "2 \<le> b" "b \<le> 36" "n \<noteq> 0"
  shows "hd (show_nat u b n) \<noteq> CHR ''0''"
  using assms
proof (induction u b n rule: show_nat.induct)
  case (1 u b n)
  show ?case
  proof (cases "n < b")
    case True
    have "digit_char u n \<noteq> CHR ''0''"
    proof
      assume "digit_char u n = CHR ''0''"
      then have "(of_char (digit_char u n) :: nat) = 48" by simp
      with True "1.prems" show False by (auto simp: of_char_digit_char split: if_splits)
    qed
    with True show ?thesis by (subst show_nat.simps) simp
  next
    case False
    with 1 have "hd (show_nat u b (n div b)) \<noteq> CHR ''0''" by (simp add: div_eq_0_iff)
    with False "1.prems" show_nat_digits(1) [of b u "n div b"] show ?thesis
      by (subst show_nat.simps) simp
  qed
qed

lemma dropWhile_id: "s = [] \<or> \<not> P (hd s) \<Longrightarrow> dropWhile P s = s"
  by (cases s) auto

lemma takeWhile_all: "\<forall>x \<in> set xs. P x \<Longrightarrow> takeWhile P xs = xs"
  by simp

lemma stoull_digits:
  assumes "ds \<noteq> []" "\<forall>c \<in> set ds. is_base_digit b c" "digits_value b ds < 2 ^ 64"
    and "base = b \<and> b \<noteq> 0 \<and> b \<noteq> 16 \<or>
         base = 0 \<and> b = (if hd ds = CHR ''0'' then 8 else 10) \<and> \<not> hex_prefix ds"
  shows "stoull ds base = Inr (of_nat (digits_value b ds), length ds)"
proof -
  have hd: "is_base_digit b (hd ds)" using assms(1,2) by simp
  have dw: "dropWhile is_space ds = ds" using is_base_digit_not(1) [OF hd] by (simp add: dropWhile_id)
  show ?thesis
    using assms(1,3,4) dw is_base_digit_not(2,3) [OF hd] takeWhile_all [OF assms(2)]
    by (elim disjE conjE) (simp_all add: stoull_def Let_def takeWhile_all [OF assms(2)] del: takeWhile_eq_all_conv)
qed

lemma stoull_dec:
  assumes "n < 2 ^ 64"
  shows "stoull (show_nat u 10 n) 10 = Inr (of_nat n, length (show_nat u 10 n))"
  using stoull_digits [of "show_nat u 10 n" 10 10] show_nat_digits(1) [of 10 u n]
    show_nat_base_digits [of 10 _ u n] digits_value_show_nat [of 10 u n] assms by simp

lemma stoull_dec_auto:
  assumes "n < 2 ^ 64"
  shows "stoull (show_nat u 10 n) 0 = Inr (of_nat n, length (show_nat u 10 n))"
proof (cases "n = 0")
  case True
  have "show_nat u 10 0 = ''0''"
    by (cases u) (simp_all only:, code_simp+)
  moreover have "stoull ''0'' 0 = Inr (0, 1)" by code_simp
  ultimately show ?thesis using True by simp
next
  case False
  let ?s = "show_nat u 10 n"
  have hd: "hd ?s \<noteq> CHR ''0''" using False by (intro show_nat_hd) auto
  then have "\<not> hex_prefix ?s" by (auto simp: hex_prefix_def split: list.splits)
  with hd show ?thesis
    using stoull_digits [of ?s 10 0] show_nat_digits(1) [of 10 u n]
      show_nat_base_digits [of 10 _ u n] digits_value_show_nat [of 10 u n] assms by simp
qed

lemma stoull_hex_auto:
  assumes "n < 2 ^ 64" "x = CHR ''x'' \<or> x = CHR ''X''"
  shows "stoull (CHR ''0'' # x # show_nat u 16 n) 0 = Inr (of_nat n, length (show_nat u 16 n) + 2)"
proof -
  let ?s = "show_nat u 16 n"
  obtain c cs where s: "?s = c # cs" using show_nat_digits(1) [of 16 u n] by (cases ?s) auto
  have dig: "\<forall>c \<in> set ?s. is_base_digit 16 c" using show_nat_base_digits [of 16 _ u n] by auto
  then have tw: "takeWhile (is_base_digit 16) ?s = ?s" by (simp add: takeWhile_eq_all_conv)
  have hp: "hex_prefix (CHR ''0'' # x # ?s)" using dig assms(2) by (auto simp: hex_prefix_def s)
  have sp: "\<not> is_space CHR ''0''" by (simp add: is_space_def)
  have ne: "?s \<noteq> []" by (simp add: s)
  show ?thesis
    using tw hp sp ne digits_value_show_nat [of 16 u n] assms(1)
    by (simp add: stoull_def Let_def del: takeWhile_eq_all_conv)
qed

end
