(* ===== verification/Flag_Masks.thy ===== *)
theory Flag_Masks
  imports Cpp_Std
begin

text \<open>
  \<^verbatim>\<open>src/src/flag_masks.hpp\<close> and \<^verbatim>\<open>src/src/flag_masks.cpp\<close>: the bits of RFLAGS a user program sees,
  their names, and the texts made of the names. The lemmas show that the names of a mask
  determine its user-visible bits.
\<close>

definition kFlagCF :: u32 where "kFlagCF = push_bit 0 1"
definition kFlagPF :: u32 where "kFlagPF = push_bit 2 1"
definition kFlagAF :: u32 where "kFlagAF = push_bit 4 1"
definition kFlagZF :: u32 where "kFlagZF = push_bit 6 1"
definition kFlagSF :: u32 where "kFlagSF = push_bit 7 1"
definition kFlagTF :: u32 where "kFlagTF = push_bit 8 1"
definition kFlagIF :: u32 where "kFlagIF = push_bit 9 1"
definition kFlagDF :: u32 where "kFlagDF = push_bit 10 1"
definition kFlagOF :: u32 where "kFlagOF = push_bit 11 1"
definition kFlagIOPL :: u32 where "kFlagIOPL = push_bit 12 1 OR push_bit 13 1"
definition kFlagNT :: u32 where "kFlagNT = push_bit 14 1"
definition kFlagRF :: u32 where "kFlagRF = push_bit 16 1"
definition kFlagAC :: u32 where "kFlagAC = push_bit 18 1"
definition kFlagID :: u32 where "kFlagID = push_bit 21 1"

definition kUserRFlagsMask :: u32 where
  "kUserRFlagsMask =
     kFlagCF OR kFlagPF OR kFlagAF OR kFlagZF OR kFlagSF OR kFlagTF OR kFlagIF OR
     kFlagDF OR kFlagOF OR kFlagIOPL OR kFlagNT OR kFlagRF OR kFlagAC OR kFlagID"

definition kStatusRFlagsMask :: u32 where
  "kStatusRFlagsMask = kFlagCF OR kFlagPF OR kFlagAF OR kFlagZF OR kFlagSF OR kFlagOF"

lemmas flag_defs = kFlagCF_def kFlagPF_def kFlagAF_def kFlagZF_def kFlagSF_def kFlagTF_def
  kFlagIF_def kFlagDF_def kFlagOF_def kFlagIOPL_def kFlagNT_def kFlagRF_def kFlagAC_def kFlagID_def

record FlagBitInfo =
  flag_mask :: u32
  flag_name :: string

definition flag_bit :: "u32 \<Rightarrow> string \<Rightarrow> FlagBitInfo" where
  "flag_bit m n = \<lparr>flag_mask = m, flag_name = n\<rparr>"

definition UserFlagBits :: "FlagBitInfo list" where
  "UserFlagBits =
     [flag_bit kFlagCF ''CF'', flag_bit kFlagPF ''PF'', flag_bit kFlagAF ''AF'',
      flag_bit kFlagZF ''ZF'', flag_bit kFlagSF ''SF'', flag_bit kFlagTF ''TF'',
      flag_bit kFlagIF ''IF'', flag_bit kFlagDF ''DF'', flag_bit kFlagOF ''OF'',
      flag_bit (push_bit 12 1) ''IOPL[0]'', flag_bit (push_bit 13 1) ''IOPL[1]'',
      flag_bit kFlagNT ''NT'', flag_bit kFlagRF ''RF'', flag_bit kFlagAC ''AC'',
      flag_bit kFlagID ''ID'']"

definition FlagNamesFromMask :: "u32 \<Rightarrow> string list" where
  "FlagNamesFromMask m = map flag_name (filter (\<lambda>b. m AND flag_mask b \<noteq> 0) UserFlagBits)"

definition FormatFlagNames :: "u32 \<Rightarrow> string" where
  "FormatFlagNames m =
     (let names = FlagNamesFromMask m in if names = [] then ''-'' else join '','' names)"

section \<open>The names determine the user-visible bits\<close>

definition user_bit_positions :: "nat list" where
  "user_bit_positions = [0, 2, 4, 6, 7, 8, 9, 10, 11, 12, 13, 14, 16, 18, 21]"

lemma masks_UserFlagBits: "map flag_mask UserFlagBits = map (\<lambda>k. push_bit k 1) user_bit_positions"
  by code_simp

lemma names_distinct: "distinct (map flag_name UserFlagBits)"
  by code_simp

lemma kUserRFlagsMask_fold: "kUserRFlagsMask = fold (\<lambda>b m. m OR flag_mask b) UserFlagBits 0"
  by code_simp

lemma and_push_bit_one:
  "(m AND push_bit k 1 \<noteq> (0 :: 'a::len word)) \<longleftrightarrow> bit m k"
proof -
  have "m AND push_bit k 1 = (if bit m k then push_bit k 1 else 0)"
    by (rule bit_word_eqI) (auto simp: bit_and_iff bit_exp_iff)
  moreover have "bit m k \<Longrightarrow> push_bit k (1 :: 'a word) \<noteq> 0"
    by (auto dest: bit_imp_le_length)
  ultimately show ?thesis by auto
qed

lemma bit_fold_or_masks:
  "bit (fold (\<lambda>b m. m OR flag_mask b) bs a) n \<longleftrightarrow> bit a n \<or> (\<exists>b \<in> set bs. bit (flag_mask b) n)"
  by (induction bs arbitrary: a) (auto simp: bit_or_iff)

lemma UserFlagBits_mask: "b \<in> set UserFlagBits \<Longrightarrow> \<exists>k. flag_mask b = push_bit k 1"
proof -
  assume "b \<in> set UserFlagBits"
  then have "flag_mask b \<in> set (map (\<lambda>k. push_bit k 1) user_bit_positions)"
    by (metis masks_UserFlagBits image_eqI list.set_map)
  then show ?thesis by auto
qed

lemma user_bits_eq_iff:
  "(\<forall>b \<in> set UserFlagBits. (m AND flag_mask b \<noteq> 0) = (n AND flag_mask b \<noteq> 0)) \<longleftrightarrow>
     m AND kUserRFlagsMask = n AND kUserRFlagsMask"
proof
  assume *: "\<forall>b \<in> set UserFlagBits. (m AND flag_mask b \<noteq> 0) = (n AND flag_mask b \<noteq> 0)"
  show "m AND kUserRFlagsMask = n AND kUserRFlagsMask"
  proof (rule bit_word_eqI)
    fix i assume "i < LENGTH(32)"
    show "bit (m AND kUserRFlagsMask) i = bit (n AND kUserRFlagsMask) i"
    proof (cases "bit kUserRFlagsMask i")
      case True
      then obtain b where b: "b \<in> set UserFlagBits" "bit (flag_mask b) i"
        by (auto simp: kUserRFlagsMask_fold bit_fold_or_masks)
      moreover from UserFlagBits_mask [OF b(1)] obtain k where k: "flag_mask b = push_bit k 1" by auto
      ultimately have "i = k" by (auto simp: bit_exp_iff)
      with * b(1) k have "bit m i = bit n i" by (metis and_push_bit_one)
      then show ?thesis by (simp add: bit_and_iff)
    qed (simp add: bit_and_iff)
  qed
next
  assume eq: "m AND kUserRFlagsMask = n AND kUserRFlagsMask"
  show "\<forall>b \<in> set UserFlagBits. (m AND flag_mask b \<noteq> 0) = (n AND flag_mask b \<noteq> 0)"
  proof
    fix b assume b: "b \<in> set UserFlagBits"
    then have "kUserRFlagsMask AND flag_mask b = flag_mask b"
      by (intro bit_word_eqI) (auto simp: kUserRFlagsMask_fold bit_fold_or_masks bit_and_iff)
    then show "(m AND flag_mask b \<noteq> 0) = (n AND flag_mask b \<noteq> 0)"
      using eq by (metis and.assoc)
  qed
qed

lemma filter_names_eq:
  assumes "distinct (map flag_name bs)"
  shows "map flag_name (filter P bs) = map flag_name (filter Q bs) \<longleftrightarrow> (\<forall>b \<in> set bs. P b = Q b)"
proof
  assume eq: "map flag_name (filter P bs) = map flag_name (filter Q bs)"
  have inj: "inj_on flag_name (set bs)" using assms by (simp add: distinct_map)
  show "\<forall>b \<in> set bs. P b = Q b"
  proof
    fix b assume b: "b \<in> set bs"
    have "flag_name b \<in> flag_name ` {x \<in> set bs. P x} \<longleftrightarrow> flag_name b \<in> flag_name ` {x \<in> set bs. Q x}"
      using arg_cong [OF eq, of set] by simp
    then show "P b = Q b" using b inj by (auto simp: inj_on_def)
  qed
qed (metis filter_cong)

lemma FlagNamesFromMask_eq_iff:
  "FlagNamesFromMask m = FlagNamesFromMask n \<longleftrightarrow>
     m AND kUserRFlagsMask = n AND kUserRFlagsMask"
  unfolding FlagNamesFromMask_def filter_names_eq [OF names_distinct] user_bits_eq_iff ..

lemma FlagNamesFromMask_names:
  "x \<in> set (FlagNamesFromMask m) \<Longrightarrow> CHR '','' \<notin> set x \<and> CHR ''-'' \<notin> set x \<and> x \<noteq> []"
proof -
  have "\<forall>x \<in> set (map flag_name UserFlagBits). CHR '','' \<notin> set x \<and> CHR ''-'' \<notin> set x \<and> x \<noteq> []"
    by code_simp
  then show "x \<in> set (FlagNamesFromMask m) \<Longrightarrow> CHR '','' \<notin> set x \<and> CHR ''-'' \<notin> set x \<and> x \<noteq> []"
    by (auto simp: FlagNamesFromMask_def)
qed

lemma join_names_not_dash: "FlagNamesFromMask m \<noteq> [] \<Longrightarrow> join '','' (FlagNamesFromMask m) \<noteq> ''-''"
proof -
  assume ne: "FlagNamesFromMask m \<noteq> []"
  then obtain x xs where xs: "FlagNamesFromMask m = x # xs" by (cases "FlagNamesFromMask m") auto
  then have "x \<noteq> []" "hd x \<noteq> CHR ''-''"
    using FlagNamesFromMask_names [of x m] by (cases x; auto)+
  moreover have "hd (join '','' (x # xs)) = hd x" using \<open>x \<noteq> []\<close> by (cases xs) auto
  ultimately show ?thesis unfolding xs by (metis list.sel(1))
qed

text \<open>
  C29. The text printed for a mask of flags (in the metadata line and in the notes of a
  comparison) loses no information: two masks have the same text exactly when they agree
  on the flags a user program can see.
\<close>

theorem format_flag_names_injective:
  "FormatFlagNames m = FormatFlagNames n \<longleftrightarrow> m AND kUserRFlagsMask = n AND kUserRFlagsMask"
proof -
  have "FormatFlagNames m = FormatFlagNames n \<longleftrightarrow> FlagNamesFromMask m = FlagNamesFromMask n"
    using join_names_not_dash [of m] join_names_not_dash [of n] FlagNamesFromMask_names
      join_inject [of "FlagNamesFromMask m" "FlagNamesFromMask n" "CHR '',''"]
    by (auto simp: FormatFlagNames_def Let_def)
  then show ?thesis by (simp add: FlagNamesFromMask_eq_iff)
qed

end
