(* ===== verification/Xed_Metadata.thy ===== *)
theory Xed_Metadata
  imports Flag_Masks
begin

text \<open>
  \<^verbatim>\<open>src/src/xed_metadata.hpp\<close> and \<^verbatim>\<open>src/src/xed_metadata.cpp\<close>: what the tester keeps of a
  decoded instruction. Intel's XED library is the parameter \<open>xed\<close>: its decoder and the
  accessors of a decoded instruction that the code calls. A null pointer is \<open>None\<close>.
\<close>

record XedMemoryOperand =
  mem_index :: u32
  mem_length :: u32
  mem_address_width :: u32
  mem_reads :: bool
  mem_writes :: bool
  mem_writes_only :: bool

record XedMetadata =
  xed_ok :: bool
  xed_error :: string
  insn_length :: u32
  operand_width :: u32
  iclass :: string
  iform :: string
  category :: string
  extension :: string
  read_flags :: u32
  written_flags :: u32
  undefined_flags :: u32
  comparable_written_flags :: u32
  memory_operands :: "XedMemoryOperand list"

definition default_metadata :: XedMetadata where
  "default_metadata = \<lparr>xed_ok = False, xed_error = [], insn_length = 0, operand_width = 0,
     iclass = [], iform = [], category = [], extension = [], read_flags = 0, written_flags = 0,
     undefined_flags = 0, comparable_written_flags = 0, memory_operands = []\<rparr>"

record XedFlagSets =
  flag_set_read :: "u32 option"
  flag_set_written :: "u32 option"
  flag_set_undefined :: "u32 option"

record 'd XedLibrary =
  lib_decode :: "u8 list \<Rightarrow> string option + 'd"
  lib_length :: "'d \<Rightarrow> u32"
  lib_operand_width :: "'d \<Rightarrow> u32"
  lib_iclass :: "'d \<Rightarrow> string option"
  lib_iform :: "'d \<Rightarrow> string option"
  lib_category :: "'d \<Rightarrow> string option"
  lib_extension :: "'d \<Rightarrow> string option"
  lib_rflags_info :: "'d \<Rightarrow> XedFlagSets option"
  lib_number_of_memory_operands :: "'d \<Rightarrow> u32"
  lib_memory_operand_length :: "'d \<Rightarrow> u32 \<Rightarrow> u32"
  lib_memop_address_width :: "'d \<Rightarrow> u32 \<Rightarrow> u32"
  lib_mem_read :: "'d \<Rightarrow> u32 \<Rightarrow> u32"
  lib_mem_written :: "'d \<Rightarrow> u32 \<Rightarrow> u32"
  lib_mem_written_only :: "'d \<Rightarrow> u32 \<Rightarrow> u32"

definition SafeString :: "string option \<Rightarrow> string" where
  "SafeString text = (case text of Some s \<Rightarrow> s | None \<Rightarrow> [])"

text \<open>The assignments under \<open>if (const auto *flags = ...)\<close>.\<close>

definition Decode_flags :: "XedFlagSets option \<Rightarrow> XedMetadata \<Rightarrow> XedMetadata" where
  "Decode_flags info m =
     (case info of
        None \<Rightarrow> m
      | Some flags \<Rightarrow>
          let m = (case flag_set_read flags of Some f \<Rightarrow> m\<lparr>read_flags := f AND kUserRFlagsMask\<rparr> | None \<Rightarrow> m);
              m = (case flag_set_written flags of Some f \<Rightarrow> m\<lparr>written_flags := f AND kUserRFlagsMask\<rparr> | None \<Rightarrow> m);
              m = (case flag_set_undefined flags of Some f \<Rightarrow> m\<lparr>undefined_flags := f AND kUserRFlagsMask\<rparr> | None \<Rightarrow> m)
          in m\<lparr>comparable_written_flags := written_flags m AND NOT (undefined_flags m) AND kUserRFlagsMask\<rparr>)"

definition Decode_operand :: "('d, 'x) XedLibrary_scheme \<Rightarrow> 'd \<Rightarrow> u32 \<Rightarrow> XedMemoryOperand" where
  "Decode_operand xed xedd i =
     \<lparr>mem_index = i, mem_length = lib_memory_operand_length xed xedd i,
      mem_address_width = lib_memop_address_width xed xedd i,
      mem_reads = (lib_mem_read xed xedd i \<noteq> 0), mem_writes = (lib_mem_written xed xedd i \<noteq> 0),
      mem_writes_only = (lib_mem_written_only xed xedd i \<noteq> 0)\<rparr>"

definition Decode :: "('d, 'x) XedLibrary_scheme \<Rightarrow> u64 \<Rightarrow> u8 list \<Rightarrow> XedMetadata" where
  "Decode xed address bytes =
     (if bytes = [] \<or> 15 < length bytes
      then default_metadata\<lparr>xed_error := ''opcode length must be between 1 and 15 bytes''\<rparr>
      else case lib_decode xed bytes of
        Inl error \<Rightarrow> default_metadata\<lparr>xed_error := SafeString error\<rparr>
      | Inr xedd \<Rightarrow>
          let m = default_metadata\<lparr>xed_ok := True, insn_length := lib_length xed xedd,
                    operand_width := lib_operand_width xed xedd,
                    iclass := SafeString (lib_iclass xed xedd), iform := SafeString (lib_iform xed xedd),
                    category := SafeString (lib_category xed xedd),
                    extension := SafeString (lib_extension xed xedd)\<rparr>;
              m = Decode_flags (lib_rflags_info xed xedd) m
          in m\<lparr>memory_operands :=
                map (\<lambda>i. Decode_operand xed xedd (of_nat i))
                    [0..<unat (lib_number_of_memory_operands xed xedd)]\<rparr>)"

lemma Decode_flags_masks:
  assumes "read_flags m = 0" "written_flags m = 0" "undefined_flags m = 0" "comparable_written_flags m = 0"
  shows "let m' = Decode_flags info m in
    comparable_written_flags m' = written_flags m' AND NOT (undefined_flags m') \<and>
    written_flags m' AND kUserRFlagsMask = written_flags m' \<and>
    read_flags m' AND kUserRFlagsMask = read_flags m' \<and>
    undefined_flags m' AND kUserRFlagsMask = undefined_flags m'"
proof (cases info)
  case None
  with assms show ?thesis by (simp add: Decode_flags_def)
next
  case (Some flags)
  have masked: "x AND kUserRFlagsMask AND y AND kUserRFlagsMask = x AND kUserRFlagsMask AND y" for x y :: u32
    by (rule bit_word_eqI) (auto simp: bit_and_iff)
  have "x AND kUserRFlagsMask AND kUserRFlagsMask = x AND kUserRFlagsMask" for x :: u32
    by (rule bit_word_eqI) (auto simp: bit_and_iff)
  with Some assms masked show ?thesis
    by (cases "flag_set_read flags"; cases "flag_set_written flags"; cases "flag_set_undefined flags")
       (simp_all add: Decode_flags_def Let_def and.assoc [symmetric])
qed

lemma Decode_flags_frame [simp]:
  "xed_ok (Decode_flags info m) = xed_ok m" "xed_error (Decode_flags info m) = xed_error m"
  "insn_length (Decode_flags info m) = insn_length m"
  by (auto simp: Decode_flags_def Let_def split: option.splits)

text \<open>
  C23. The metadata the comparison relies on is consistent for every answer of XED: the flags
  to compare are exactly the written ones that are not undefined, all within the user-visible
  flags; the memory operands are numbered from 0 in order; the metadata is valid exactly when
  the opcode has 1 to 15 bytes and XED decodes it, and invalid metadata compares no flag.
\<close>

theorem decode_metadata_consistent:
  "let m = Decode xed address bytes in
     comparable_written_flags m = written_flags m AND NOT (undefined_flags m) \<and>
     written_flags m AND kUserRFlagsMask = written_flags m \<and>
     map mem_index (memory_operands m) = map of_nat [0..<length (memory_operands m)] \<and>
     (xed_ok m \<longleftrightarrow> 1 \<le> length bytes \<and> length bytes \<le> 15 \<and> \<not> isl (lib_decode xed bytes)) \<and>
     (xed_ok m \<or> comparable_written_flags m = 0 \<and> memory_operands m = [])"
proof (cases "bytes = [] \<or> 15 < length bytes \<or> isl (lib_decode xed bytes)")
  case True
  then show ?thesis
    by (cases "lib_decode xed bytes") (auto simp: Decode_def default_metadata_def Let_def Suc_le_eq)
next
  case False
  then obtain xedd where xedd: "lib_decode xed bytes = Inr xedd" by (cases "lib_decode xed bytes") auto
  define m0 where "m0 = default_metadata\<lparr>xed_ok := True, insn_length := lib_length xed xedd,
                    operand_width := lib_operand_width xed xedd,
                    iclass := SafeString (lib_iclass xed xedd), iform := SafeString (lib_iform xed xedd),
                    category := SafeString (lib_category xed xedd),
                    extension := SafeString (lib_extension xed xedd)\<rparr>"
  have m: "Decode xed address bytes = (Decode_flags (lib_rflags_info xed xedd) m0)\<lparr>memory_operands :=
                map (\<lambda>i. Decode_operand xed xedd (of_nat i))
                    [0..<unat (lib_number_of_memory_operands xed xedd)]\<rparr>"
    using False xedd by (simp add: Decode_def m0_def Let_def)
  have "read_flags m0 = 0" "written_flags m0 = 0" "undefined_flags m0 = 0" "comparable_written_flags m0 = 0"
    by (simp_all add: m0_def default_metadata_def)
  from Decode_flags_masks [OF this, of "lib_rflags_info xed xedd"] False xedd
  show ?thesis
    unfolding m Let_def
    by (auto simp: Decode_operand_def m0_def comp_def Suc_le_eq)
qed

end
