(* ===== verification/Parser_Text.thy ===== *)
theory Parser_Text
  imports Cpp_Std
begin

text \<open>
  The text functions of \<^verbatim>\<open>src/src/x86tester_parser.cpp\<close>: splitting and trimming, integers,
  hexadecimal byte strings, little-endian scalars, register and memory keys. Each is given
  with its complete functional behaviour, and the parsers as inverses of the printers.
\<close>

section \<open>The functions\<close>

function Split_loop :: "string \<Rightarrow> char \<Rightarrow> nat \<Rightarrow> string list \<Rightarrow> string list" where
  "Split_loop text delimiter start parts =
     (if start \<le> length text then
        (case str_find text delimiter start of
           None \<Rightarrow> parts @ [drop start text]
         | Some pos \<Rightarrow> Split_loop text delimiter (pos + 1) (parts @ [substr text start (pos - start)]))
      else parts)"
  by pat_completeness auto
termination
  by (relation "measure (\<lambda>(text, delimiter, start, parts). length text + 1 - start)")
     (auto dest: str_find_Some(1,2))

declare Split_loop.simps [simp del]

definition Split :: "string \<Rightarrow> char \<Rightarrow> string list" where
  "Split text delimiter = Split_loop text delimiter 0 []"

definition Trim :: "string \<Rightarrow> string" where
  "Trim value =
     (let left = dropWhile is_space value in rev (dropWhile is_space (rev left)))"

definition ToLower :: "string \<Rightarrow> string" where "ToLower value = map to_lower value"

definition ToUpper :: "string \<Rightarrow> string" where "ToUpper value = map to_upper value"

definition ParseUnsigned :: "string \<Rightarrow> nat \<Rightarrow> u64 res" where
  "ParseUnsigned text base =
     res_bind (stoull text base) (\<lambda>(value, consumed).
       if consumed \<noteq> length text then throw_runtime (''invalid integer: '' @ text) else Inr value)"

definition HexDigitValue :: "char \<Rightarrow> int" where
  "HexDigitValue c =
     (let ch = of_char c :: nat in
      if 48 \<le> ch \<and> ch \<le> 57 then int ch - 48
      else if 97 \<le> ch \<and> ch \<le> 102 then int ch - 97 + 10
      else if 65 \<le> ch \<and> ch \<le> 70 then int ch - 65 + 10
      else - 1)"

fun ParseHexBytes_loop :: "string \<Rightarrow> string \<Rightarrow> int \<Rightarrow> u8 list \<Rightarrow> (int \<times> u8 list) res" where
  "ParseHexBytes_loop hex [] high_nibble bytes = Inr (high_nibble, bytes)"
| "ParseHexBytes_loop hex (ch # chs) high_nibble bytes =
     (if is_space ch \<or> ch = CHR ''_'' then ParseHexBytes_loop hex chs high_nibble bytes
      else let digit = HexDigitValue ch in
        if digit < 0 then throw_runtime (''invalid hex byte string: '' @ hex)
        else if high_nibble < 0 then ParseHexBytes_loop hex chs digit bytes
        else ParseHexBytes_loop hex chs (- 1)
               (bytes @ [word_of_int (push_bit 4 high_nibble OR digit)]))"

definition ParseHexBytes :: "string \<Rightarrow> u8 list res" where
  "ParseHexBytes hex =
     res_bind (ParseHexBytes_loop hex hex (- 1) []) (\<lambda>(high_nibble, bytes).
       if 0 \<le> high_nibble then throw_runtime (''hex byte string must have even length: '' @ hex)
       else Inr bytes)"

definition ReadLittleEndianScalar :: "u8 list \<Rightarrow> u64 res" where
  "ReadLittleEndianScalar bytes =
     (if 8 < length bytes then throw_runtime ''little-endian scalar is limited to 8 bytes''
      else Inr (le_loop 0 bytes 0))"

definition CanonicalStateKey :: "string \<Rightarrow> string" where
  "CanonicalStateKey key0 =
     (let key = ToLower (Trim key0) in
      if key = ''flags'' \<or> key = ''eflags'' \<or> key = ''rflags'' then ''flag'' else key)"

definition ParseMemoryAddressKey :: "string \<Rightarrow> u64 option res" where
  "ParseMemoryAddressKey raw_key =
     (let key = ToLower (Trim raw_key);
          address_text =
            (if starts_with key ''mem['' \<and> key \<noteq> [] \<and> last key = CHR '']''
             then Some (substr key 4 (length key - 5))
             else if starts_with key ''mem@'' then Some (drop 4 key)
             else None)
      in case address_text of
           None \<Rightarrow> Inr None
         | Some text \<Rightarrow>
             if text = [] then throw_runtime (''memory key has empty address: '' @ raw_key)
             else res_bind (ParseUnsigned text 0) (\<lambda>address. Inr (Some address)))"

definition IsByteStateKey :: "string \<Rightarrow> bool" where
  "IsByteStateKey key =
     (let has_numeric_suffix = (\<lambda>prefix. length prefix < length key \<and>
            take (length prefix) key = prefix \<and> is_digit (key ! length prefix))
      in has_numeric_suffix ''xmm'' \<or> has_numeric_suffix ''ymm'' \<or> has_numeric_suffix ''zmm'' \<or>
         has_numeric_suffix ''mm'' \<or> has_numeric_suffix ''st'')"

section \<open>Splitting\<close>

lemma Split_loop_parts:
  "start \<le> length s \<Longrightarrow>
   \<exists>rest. Split_loop s d start parts = parts @ rest \<and> rest \<noteq> [] \<and>
          list_all (\<lambda>p. d \<notin> set p) rest \<and> join [d] rest = drop start s"
proof (induction s d start parts rule: Split_loop.induct)
  case (1 s d start parts)
  show ?case
  proof (cases "str_find s d start")
    case None
    then have "d \<notin> set (drop start s)" by (simp add: str_find_None)
    with 1(2) None show ?thesis by (subst Split_loop.simps) simp
  next
    case (Some pos)
    note p = str_find_Some [OF Some]
    then obtain rest where rest:
      "Split_loop s d (pos + 1) (parts @ [substr s start (pos - start)]) =
         (parts @ [substr s start (pos - start)]) @ rest"
      "rest \<noteq> []" "list_all (\<lambda>p. d \<notin> set p) rest" "join [d] rest = drop (pos + 1) s"
      using "1.IH" [OF "1.prems" Some] by auto
    have "drop start s = substr s start (pos - start) @ d # drop (pos + 1) s"
      using p by (metis Cons_nth_drop_Suc Suc_eq_plus1 append_take_drop_id drop_drop
          le_add_diff_inverse2 substr_def)
    with rest p(4) 1(2) Some show ?thesis
      by (subst Split_loop.simps) (auto simp: join_Cons)
  qed
qed

lemma Split_join:
  "Split s d \<noteq> []" "list_all (\<lambda>p. d \<notin> set p) (Split s d)" "join [d] (Split s d) = s"
  using Split_loop_parts [where start = 0 and s = s and d = d and parts = "[]"] by (auto simp: Split_def)

lemma Split_unique:
  assumes "parts \<noteq> []" "list_all (\<lambda>p. d \<notin> set p) parts"
  shows "Split (join [d] parts) d = parts"
  using Split_join [where s = "join [d] parts" and d = d] assms by (intro join_inject [where c = d]) (auto simp: list_all_iff)

lemma length_Split_le: "length (Split s d) \<le> length s + 1"
proof -
  have "length parts \<le> length (join [d] parts) + 1" for parts
    by (induction "[d]" parts rule: join.induct) auto
  then show ?thesis using Split_join(3) [of d s] by metis
qed

text \<open>
  C30. \<open>Split\<close> is the inverse of joining with the delimiter: it returns the one non-empty
  list of delimiter-free parts whose join is the text, for every text, so no field is
  lost, invented or merged and an empty field stays a field.
\<close>

theorem split_is_inverse_of_join:
  "Split s d = parts \<longleftrightarrow>
     parts \<noteq> [] \<and> list_all (\<lambda>p. d \<notin> set p) parts \<and> join [d] parts = s"
  using Split_join [where s = s and d = d] Split_unique [of parts d] by auto

section \<open>Trimming and case\<close>

lemma Trim_decompose: "\<exists>l r. s = l @ Trim s @ r \<and> list_all is_space l \<and> list_all is_space r"
proof -
  let ?left = "dropWhile is_space s"
  have "s = takeWhile is_space s @ ?left" by simp
  moreover have "?left = Trim s @ rev (takeWhile is_space (rev ?left))"
    unfolding Trim_def Let_def by (metis rev_append rev_rev_ident takeWhile_dropWhile_id)
  ultimately have "s = takeWhile is_space s @ Trim s @ rev (takeWhile is_space (rev ?left))"
    by simp
  moreover have "list_all is_space (takeWhile is_space s)"
    "list_all is_space (rev (takeWhile is_space (rev ?left)))"
    by (auto simp: list_all_iff dest: set_takeWhileD)
  ultimately show ?thesis by (intro exI conjI)
qed

lemma Trim_ends: "Trim s \<noteq> [] \<Longrightarrow> \<not> is_space (hd (Trim s)) \<and> \<not> is_space (last (Trim s))"
proof -
  assume ne: "Trim s \<noteq> []"
  let ?left = "dropWhile is_space s"
  have last: "\<not> is_space (last (Trim s))"
    using ne hd_dropWhile [of is_space "rev ?left"] by (auto simp: Trim_def Let_def last_rev)
  obtain r where r: "?left = Trim s @ r"
    unfolding Trim_def Let_def by (metis rev_append rev_rev_ident takeWhile_dropWhile_id)
  then have "?left \<noteq> []" "hd ?left = hd (Trim s)" using ne by auto
  then have "\<not> is_space (hd (Trim s))" using hd_dropWhile [of is_space s] by metis
  with last show ?thesis by simp
qed

lemma Trim_id: "s = [] \<or> \<not> is_space (hd s) \<and> \<not> is_space (last s) \<Longrightarrow> Trim s = s"
  by (cases "s = []") (auto simp: Trim_def dropWhile_id hd_rev)

lemma Trim_Trim [simp]: "Trim (Trim s) = Trim s"
  using Trim_ends [of s] by (intro Trim_id) auto

lemma Trim_no_space: "list_all (\<lambda>c. \<not> is_space c) s \<Longrightarrow> Trim s = s"
  by (intro Trim_id) (cases "s = []"; auto simp: list_all_iff)

lemma Trim_pad:
  assumes "list_all is_space l" "list_all is_space r"
  shows "Trim (l @ s @ r) = Trim s"
proof -
  have l: "dropWhile is_space (l @ x) = dropWhile is_space x" for x
    using assms(1) by (simp add: list_all_iff dropWhile_append2)
  have r: "dropWhile is_space (rev r @ x) = dropWhile is_space x" for x
    using assms(2) by (intro dropWhile_append2) (auto simp: list_all_iff)
  show ?thesis
  proof (cases "dropWhile is_space s = []")
    case True
    then have sp: "\<forall>c \<in> set s. is_space c" by simp
    with assms have "dropWhile is_space (l @ s @ r) = []" by (auto simp: list_all_iff)
    then have "Trim (l @ s @ r) = []" unfolding Trim_def Let_def by (simp only: rev.simps dropWhile.simps)
    moreover have "Trim s = []" using True unfolding Trim_def Let_def by (simp only: rev.simps dropWhile.simps)
    ultimately show ?thesis by simp
  next
    case False
    then have "dropWhile is_space (s @ r) = dropWhile is_space s @ r"
      by (metis dropWhile_append1 dropWhile_eq_Nil_conv)
    then show ?thesis by (simp add: Trim_def l r)
  qed
qed

lemma Trim_map_to_lower: "Trim (map to_lower s) = map to_lower (Trim s)"
  by (simp add: Trim_def dropWhile_map rev_map comp_def)

lemma ToLower_idem [simp]: "ToLower (ToLower s) = ToLower s"
  by (simp add: ToLower_def comp_def)

lemma Trim_ToLower: "Trim (ToLower s) = ToLower (Trim s)"
  by (simp add: ToLower_def Trim_map_to_lower)

lemma CanonicalStateKey_idem: "CanonicalStateKey (CanonicalStateKey k) = CanonicalStateKey k"
proof -
  have "CanonicalStateKey ''flag'' = ''flag''" by code_simp
  then show ?thesis by (auto simp: CanonicalStateKey_def Let_def Trim_ToLower)
qed

section \<open>Integers\<close>

lemma stoull_Inl: "stoull s base = Inl e \<Longrightarrow> is_exception e"
  by (auto simp: stoull_def Let_def split: if_splits)

lemma ParseUnsigned_Inl: "ParseUnsigned s base = Inl e \<Longrightarrow> is_exception e"
  by (auto simp: ParseUnsigned_def res_simps throw_runtime_def stoull_Inl split: if_splits)

lemma ParseUnsigned_to_string [simp]:
  "ParseUnsigned (to_string v) 10 = Inr v" "ParseUnsigned (to_string v) 0 = Inr v"
  using stoull_dec [of "unat v" True] stoull_dec_auto [of "unat v" True]
    unsigned_less [of v, where ?'a = nat]
  by (simp_all add: ParseUnsigned_def to_string_def)

lemma ParseUnsigned_hex_lower [simp]: "ParseUnsigned (CHR ''0'' # CHR ''x'' # hex_lower v) 0 = Inr v"
  using stoull_hex_auto [of "unat v" "CHR ''x''" False] unsigned_less [of v, where ?'a = nat]
  by (simp add: ParseUnsigned_def hex_lower_def)


section \<open>Hexadecimal byte strings\<close>

definition hex_separator :: "char \<Rightarrow> bool" where
  "hex_separator c \<longleftrightarrow> is_space c \<or> c = CHR ''_''"

lemma HexDigitValue_range: "- 1 \<le> HexDigitValue c \<and> HexDigitValue c < 16"
  by (auto simp: HexDigitValue_def Let_def)

lemma of_char_to_upper:
  "(of_char (to_upper c) :: nat) = (if 97 \<le> (of_char c :: nat) \<and> of_char c \<le> (122 :: nat)
     then of_char c - 32 else of_char c)"
  by (auto simp: to_upper_def Let_def of_char_of)

lemma HexDigitValue_eq_iff:
  assumes "d < 16"
  shows "HexDigitValue c = int d \<longleftrightarrow> to_upper c = digit_char True d"
proof -
  have "to_upper c = digit_char True d \<longleftrightarrow>
      (of_char (to_upper c) :: nat) = of_char (digit_char True d)"
    by simp
  also have "\<dots> \<longleftrightarrow> HexDigitValue c = int d"
    unfolding of_char_to_upper using assms
    by (auto simp: HexDigitValue_def Let_def of_char_digit_char)
  finally show ?thesis ..
qed

lemma HexDigitValue_cases:
  obtains "HexDigitValue c < 0" | d where "d < 16" "HexDigitValue c = int d"
proof (cases "HexDigitValue c < 0")
  case False
  then have "HexDigitValue c = int (nat (HexDigitValue c))" "nat (HexDigitValue c) < 16"
    using HexDigitValue_range [of c] by auto
  then show ?thesis using that(2) by blast
qed (use that(1) in blast)

lemma show_nat_hex:
  "n < 256 \<Longrightarrow> show_nat True 16 n =
     (if n < 16 then [digit_char True n] else [digit_char True (n div 16), digit_char True (n mod 16)])"
  by (subst show_nat.simps) (subst show_nat.simps, auto)

lemma hex_byte_digits: "hex_byte b = [digit_char True (unat b div 16), digit_char True (unat b mod 16)]"
proof -
  have "unat b < 256" using unsigned_less [of b, where ?'a = nat] by simp
  moreover have "digit_char True 0 = CHR ''0''" by code_simp
  ultimately show ?thesis by (simp add: hex_byte_def Let_def show_nat_hex)
qed

lemma nibbles_byte:
  assumes "h < 16" "d < 16"
  shows "unat (word_of_int (push_bit 4 (int h) OR int d) :: u8) = 16 * h + d"
proof -
  have "push_bit 4 (int h) OR int d = int h * 16 + int d"
  proof -
    have "push_bit 4 (int h) AND int d = 0"
    proof (rule bit_eqI)
      fix n
      have "\<not> bit (int d) n" if "4 \<le> n"
      proof -
        have "(2 :: nat) ^ 4 \<le> 2 ^ n" using that by (intro power_increasing) auto
        with assms(2) have "d div 2 ^ n = 0" by simp
        then have "\<not> bit d n" by (simp add: bit_iff_odd)
        then show ?thesis by (simp add: bit_of_nat_iff_bit)
      qed
      then show "bit (push_bit 4 (int h) AND int d) n = bit (0 :: int) n"
        by (auto simp: bit_and_iff bit_push_bit_iff)
    qed
    then have "push_bit 4 (int h) OR int d = push_bit 4 (int h) + int d"
      using plus_and_or [of "push_bit 4 (int h)" "int d"] by simp
    then show ?thesis by (simp add: push_bit_eq_mult)
  qed
  then have "word_of_int (push_bit 4 (int h) OR int d) = (of_nat (16 * h + d) :: u8)" by simp
  moreover have "16 * h + d < 256" using assms by simp
  ultimately show ?thesis by (simp only: unat_of_nat) simp
qed

lemma div_mod_iff: "(d :: nat) < 16 \<Longrightarrow> n div 16 = h \<and> n mod 16 = d \<longleftrightarrow> n = 16 * h + d"
  using div_mult_mod_eq [of n 16] by (auto simp: mult.commute)

lemma hex_byte_eq_iff:
  assumes "h < 16" "d < 16"
  shows "hex_byte b = [digit_char True h, digit_char True d] \<longleftrightarrow>
    b = word_of_int (push_bit 4 (int h) OR int d)"
proof -
  have inj: "digit_char True x = digit_char True y \<longleftrightarrow> x = y" if "x < 16" "y < 16" for x y
  proof -
    have "digit_value (digit_char True x) = Some x" "digit_value (digit_char True y) = Some y"
      using that by (intro digit_value_digit_char; simp)+
    then show ?thesis by (metis option.inject)
  qed
  have "unat b < 256" using unsigned_less [of b, where ?'a = nat] by simp
  then have "unat b div 16 < 16" by linarith
  moreover have "unat b mod 16 < 16" by simp
  ultimately have "hex_byte b = [digit_char True h, digit_char True d] \<longleftrightarrow> unat b div 16 = h \<and> unat b mod 16 = d"
    unfolding hex_byte_digits list.inject
    by (simp only: inj [OF _ assms(1)] inj [OF _ assms(2)] simp_thms)
  also have "\<dots> \<longleftrightarrow> unat b = 16 * h + d" using div_mod_iff [OF assms(2)] .
  also have "\<dots> \<longleftrightarrow> b = word_of_int (push_bit 4 (int h) OR int d)"
    using nibbles_byte [OF assms] by (metis word_unat_eq_iff)
  finally show ?thesis .
qed

lemma loop_filter:
  "ParseHexBytes_loop hex chs h bytes = ParseHexBytes_loop hex (filter (\<lambda>c. \<not> hex_separator c) chs) h bytes"
  by (induction hex chs h bytes rule: ParseHexBytes_loop.induct) (auto simp: hex_separator_def Let_def)

lemma loop_pairs:
  assumes "list_all (\<lambda>c. \<not> hex_separator c) chs"
  shows "(\<exists>h < 0. ParseHexBytes_loop hex chs (- 1) bytes = Inr (h, out)) \<longleftrightarrow>
    (\<exists>bs. out = bytes @ bs \<and> map to_upper chs = concat (map hex_byte bs))"
  using assms
proof (induction chs arbitrary: bytes rule: induct_list012)
  case 1
  then show ?case by (auto simp: hex_byte_digits)
next
  case (2 c)
  have "\<not> (\<exists>bs. map to_upper [c] = concat (map hex_byte bs))"
  proof
    assume "\<exists>bs. map to_upper [c] = concat (map hex_byte bs)"
    then obtain bs where "map to_upper [c] = concat (map hex_byte bs)" ..
    then show False by (cases bs) (auto simp: hex_byte_digits)
  qed
  with 2 show ?case by (auto simp: hex_separator_def Let_def throw_runtime_def)
next
  case (3 c c' cs)
  have digits: "\<exists>x < 16. \<exists>y < 16. to_upper c = digit_char True x \<and> to_upper c' = digit_char True y"
    if "map to_upper (c # c' # cs) = concat (map hex_byte bs)" for bs
  proof -
    from that obtain b bs' where "bs = b # bs'" by (cases bs) auto
    with that have "to_upper c = digit_char True (unat b div 16)" "to_upper c' = digit_char True (unat b mod 16)"
      by (auto simp: hex_byte_digits)
    moreover have "unat b div 16 < 16" using unsigned_less [of b, where ?'a = nat] by simp
    moreover have "unat b mod 16 < 16" by simp
    ultimately show ?thesis by blast
  qed
  show ?case
  proof (cases "\<exists>x < 16. \<exists>y < 16. to_upper c = digit_char True x \<and> to_upper c' = digit_char True y")
    case False
    then have "HexDigitValue c < 0 \<or> HexDigitValue c' < 0"
      by (metis HexDigitValue_cases HexDigitValue_eq_iff)
    with 3(3) have "\<nexists>r. ParseHexBytes_loop hex (c # c' # cs) (- 1) bytes = Inr r"
      using HexDigitValue_range [of c] by (auto simp: hex_separator_def Let_def throw_runtime_def)
    with False digits show ?thesis by blast
  next
    case True
    then obtain x y where xy: "x < 16" "y < 16" "to_upper c = digit_char True x" "to_upper c' = digit_char True y"
      by blast
    then have hd: "HexDigitValue c = int x" "HexDigitValue c' = int y" by (simp_all add: HexDigitValue_eq_iff)
    let ?b = "word_of_int (push_bit 4 (int x) OR int y) :: u8"
    have "ParseHexBytes_loop hex (c # c' # cs) (- 1) bytes = ParseHexBytes_loop hex cs (- 1) (bytes @ [?b])"
      using 3(3) hd by (auto simp: hex_separator_def Let_def)
    moreover have "list_all (\<lambda>c. \<not> hex_separator c) cs" using 3(3) by simp
    ultimately have "(\<exists>h < 0. ParseHexBytes_loop hex (c # c' # cs) (- 1) bytes = Inr (h, out)) \<longleftrightarrow>
        (\<exists>bs. out = (bytes @ [?b]) @ bs \<and> map to_upper cs = concat (map hex_byte bs))"
      using 3(1) by metis
    also have "\<dots> \<longleftrightarrow> (\<exists>bs. out = bytes @ bs \<and> map to_upper (c # c' # cs) = concat (map hex_byte bs))"
    proof
      assume "\<exists>bs. out = (bytes @ [?b]) @ bs \<and> map to_upper cs = concat (map hex_byte bs)"
      then obtain bs where "out = (bytes @ [?b]) @ bs" "map to_upper cs = concat (map hex_byte bs)" by blast
      moreover have "hex_byte ?b = [digit_char True x, digit_char True y]"
        using hex_byte_eq_iff [OF xy(1,2)] by blast
      ultimately show "\<exists>bs. out = bytes @ bs \<and> map to_upper (c # c' # cs) = concat (map hex_byte bs)"
        using xy by (intro exI [of _ "?b # bs"]) simp
    next
      assume "\<exists>bs. out = bytes @ bs \<and> map to_upper (c # c' # cs) = concat (map hex_byte bs)"
      then obtain bs where bs: "out = bytes @ bs" "map to_upper (c # c' # cs) = concat (map hex_byte bs)" by blast
      then obtain b bs' where b: "bs = b # bs'" by (cases bs) auto
      with bs xy have "hex_byte b = [digit_char True x, digit_char True y]"
        by (auto simp: hex_byte_digits)
      then have "b = ?b" using hex_byte_eq_iff [OF xy(1,2)] by blast
      with bs b show "\<exists>bs. out = (bytes @ [?b]) @ bs \<and> map to_upper cs = concat (map hex_byte bs)"
        by (intro exI [of _ bs']) (auto simp: hex_byte_digits)
    qed
    finally show ?thesis .
  qed
qed

lemma ParseHexBytes_Inr:
  "ParseHexBytes hex = Inr bs \<longleftrightarrow>
     map to_upper (filter (\<lambda>c. \<not> hex_separator c) hex) = concat (map hex_byte bs)"
proof -
  have "ParseHexBytes hex = Inr bs \<longleftrightarrow> (\<exists>h < 0. ParseHexBytes_loop hex hex (- 1) [] = Inr (h, bs))"
    by (cases "ParseHexBytes_loop hex hex (- 1) []") (auto simp: ParseHexBytes_def throw_runtime_def not_le split: if_splits)
  also have "\<dots> \<longleftrightarrow> (\<exists>h < 0. ParseHexBytes_loop hex (filter (\<lambda>c. \<not> hex_separator c) hex) (- 1) [] = Inr (h, bs))"
    by (metis loop_filter)
  also have "\<dots> \<longleftrightarrow> map to_upper (filter (\<lambda>c. \<not> hex_separator c) hex) = concat (map hex_byte bs)"
    by (subst loop_pairs) (auto simp: list_all_iff)
  finally show ?thesis .
qed

lemma ParseHexBytes_loop_Inl: "ParseHexBytes_loop hex chs h bytes = Inl e \<Longrightarrow> is_exception e"
  by (induction hex chs h bytes rule: ParseHexBytes_loop.induct)
     (auto simp: Let_def throw_runtime_def split: if_splits)

lemma ParseHexBytes_Inl: "ParseHexBytes hex = Inl e \<Longrightarrow> is_exception e"
  by (auto simp: ParseHexBytes_def res_simps throw_runtime_def split: if_splits dest: ParseHexBytes_loop_Inl)

text \<open>
  C32. The complete behaviour of the hexadecimal reader: it accepts a text as the bytes
  \<open>bs\<close> exactly when, with white space and underscores removed and letters in upper case,
  the text is the two-digit texts of \<open>bs\<close> one after another; every other text (a foreign
  character, a dangling nibble) is reported by an exception.
\<close>

theorem parse_hex_bytes_spec:
  "(ParseHexBytes hex = Inr bs \<longleftrightarrow>
     map to_upper (filter (\<lambda>c. \<not> hex_separator c) hex) = concat (map hex_byte bs)) \<and>
   (case ParseHexBytes hex of Inl e \<Rightarrow> is_exception e | Inr _ \<Rightarrow> True)"
  by (auto simp: ParseHexBytes_Inr split: sum.splits dest: ParseHexBytes_Inl)

section \<open>Scalars and keys\<close>

lemma ReadLittleEndianScalar_Inr:
  "ReadLittleEndianScalar bytes = Inr v \<longleftrightarrow> length bytes \<le> 8 \<and> v = le_word bytes"
  by (auto simp: ReadLittleEndianScalar_def le_word_def res_simps)

lemma ReadLittleEndianScalar_total: "length bytes \<le> 8 \<Longrightarrow> ReadLittleEndianScalar bytes = Inr (le_word bytes)"
  by (simp add: ReadLittleEndianScalar_Inr)

lemma ReadLittleEndianScalar_le_bytes: "ReadLittleEndianScalar (le_bytes v) = Inr v"
  by (simp add: ReadLittleEndianScalar_Inr le_simps)

lemma to_lower_digit_char: "d < 16 \<Longrightarrow> to_lower (digit_char False d) = digit_char False d"
proof -
  assume "d < 16"
  then have "(of_char (to_lower (digit_char False d)) :: nat) = of_char (digit_char False d)"
    by (simp add: of_char_to_lower of_char_digit_char)
  then show ?thesis by (simp only: of_char_eq_iff)
qed

lemma hex_lower_chars:
  assumes "c \<in> set (hex_lower v)"
  shows "to_lower c = c" "\<not> is_space c"
proof -
  obtain d where "d < 16" "c = digit_char False d"
    using assms show_nat_digits(2) [of 16 False "unat v"] by (auto simp: hex_lower_def)
  then show "to_lower c = c" by (simp add: to_lower_digit_char)
  have "is_base_digit 16 c"
    using assms by (auto simp: hex_lower_def intro: show_nat_base_digits)
  then show "\<not> is_space c" by (rule is_base_digit_not)
qed

lemma ToLower_hex_lower: "map to_lower (hex_lower v) = hex_lower v"
  using hex_lower_chars(1) [of _ v] by (simp add: map_idI)

lemma hex_lower_nonempty [simp]: "hex_lower v \<noteq> []"
  using show_nat_digits(1) [of 16 False "unat v"] by (simp add: hex_lower_def)

lemma ParseMemoryAddressKey_Inl: "ParseMemoryAddressKey k = Inl e \<Longrightarrow> is_exception e"
  by (auto simp: ParseMemoryAddressKey_def Let_def res_simps throw_runtime_def
      split: option.splits if_splits dest: ParseUnsigned_Inl)

lemma ParseMemoryAddressKey_normal:
  "ParseMemoryAddressKey k = Inr a \<longleftrightarrow> ParseMemoryAddressKey (ToLower (Trim k)) = Inr a"
  unfolding ParseMemoryAddressKey_def Let_def
  by (simp add: Trim_ToLower res_simps split: option.splits)

lemma memory_key_bracket:
  "ParseMemoryAddressKey (''mem[0x'' @ hex_lower a @ '']'') = Inr (Some a)"
proof -
  let ?k = "''mem[0x'' @ hex_lower a @ '']''"
  have "Trim ?k = ?k" by (intro Trim_id) (simp add: is_space_def)
  moreover have "ToLower ?k = ?k"
  proof -
    have "map to_lower ''mem[0x'' = ''mem[0x''" "to_lower CHR '']'' = CHR '']''" by code_simp+
    then show ?thesis unfolding ToLower_def map_append ToLower_hex_lower by simp
  qed
  ultimately have k: "ToLower (Trim ?k) = ?k" by simp
  show ?thesis
    unfolding ParseMemoryAddressKey_def k Let_def
    by (simp add: starts_with_def substr_def)
qed

lemma memory_key_at:
  "ParseMemoryAddressKey (''mem@0x'' @ hex_lower a) = Inr (Some a)"
proof -
  let ?k = "''mem@0x'' @ hex_lower a"
  have "last ?k \<in> set (hex_lower a)" by (simp add: last_append)
  then have "\<not> is_space (last ?k)" using hex_lower_chars by blast
  then have "Trim ?k = ?k" by (intro Trim_id) (simp add: is_space_def)
  moreover have "ToLower ?k = ?k"
  proof -
    have "map to_lower ''mem@0x'' = ''mem@0x''" by code_simp
    then show ?thesis unfolding ToLower_def map_append ToLower_hex_lower by simp
  qed
  ultimately have k: "ToLower (Trim ?k) = ?k" by simp
  show ?thesis
    unfolding ParseMemoryAddressKey_def k Let_def
    by (simp add: starts_with_def substr_def)
qed

text \<open>
  C33. Both spellings of a memory key name their address, for every 64-bit address; a key
  is read the same in any case and with any surrounding white space; and a memory key whose
  address cannot be read raises an exception.
\<close>

theorem memory_key_roundtrip:
  "ParseMemoryAddressKey (''mem[0x'' @ hex_lower a @ '']'') = Inr (Some a) \<and>
   ParseMemoryAddressKey (''mem@0x'' @ hex_lower a) = Inr (Some a) \<and>
   (ParseMemoryAddressKey k = Inr b \<longleftrightarrow> ParseMemoryAddressKey (ToLower (Trim k)) = Inr b) \<and>
   (case ParseMemoryAddressKey k of Inl e \<Rightarrow> is_exception e | Inr _ \<Rightarrow> True)"
  using memory_key_bracket [of a] memory_key_at [of a] ParseMemoryAddressKey_normal [of k b]
  by (auto split: sum.splits dest: ParseMemoryAddressKey_Inl)

end
