(* ===== verification/Ordered_Map.thy ===== *)
theory Ordered_Map
  imports Prelude
begin

text \<open>
  \<open>std::map\<close>, the container of register values, caches and summary counters: the
  interface locale \<open>ordered_map\<close> (insertion, lookup, and iteration in key order), what its
  users derive from it, and the ordered association list that stands for it in the model.
  Iterating a \<open>std::map\<close> is a list function on the entries.
\<close>

locale ordered_map =
  fixes put :: "'k::linorder \<Rightarrow> 'v \<Rightarrow> 'm \<Rightarrow> 'm"
    and find :: "'m \<Rightarrow> 'k \<Rightarrow> 'v option"
    and entries :: "'m \<Rightarrow> ('k \<times> 'v) list"
    and inv :: "'m \<Rightarrow> bool"
  assumes inv_put: "inv m \<Longrightarrow> inv (put k v m)"
    and find_put: "inv m \<Longrightarrow> find (put k v m) = (find m)(k \<mapsto> v)"
    and entries_sorted: "inv m \<Longrightarrow> sorted_wrt (<) (map fst (entries m))"
    and entries_find: "inv m \<Longrightarrow> (k, v) \<in> set (entries m) \<longleftrightarrow> find m k = Some v"
begin

lemma inv_fold: "inv m \<Longrightarrow> inv (fold (\<lambda>(k, v). put k v) kvs m)"
  by (induction kvs arbitrary: m) (auto simp: inv_put)

text \<open>A loop of \<open>m[k] = v\<close>: the last value stored under a key is the one found.\<close>

lemma find_fold:
  "inv m \<Longrightarrow> find (fold (\<lambda>(k, v). put k v) kvs m) = find m ++ map_of (rev kvs)"
proof (induction kvs arbitrary: m)
  case (Cons kv kvs)
  obtain k v where kv: "kv = (k, v)" by (cases kv)
  have "find (fold (\<lambda>(k, v). put k v) (kv # kvs) m) = find (put k v m) ++ map_of (rev kvs)"
    using Cons.IH [OF inv_put [OF Cons.prems]] by (simp add: kv)
  also have "\<dots> = find m ++ map_of (rev (kv # kvs))"
    using Cons.prems by (simp add: kv find_put map_add_def fun_eq_iff split: option.splits)
  finally show ?case .
qed simp

lemma entries_distinct: "inv m \<Longrightarrow> distinct (map fst (entries m))"
  using entries_sorted [of m] by (simp add: strict_sorted_iff)

text \<open>Two maps with the same lookups iterate the same entries.\<close>

lemma entries_unique:
  assumes "inv m" "inv n" "find m = find n"
  shows "entries m = entries n"
proof -
  have set: "set (entries m) = set (entries n)"
    using entries_find [OF assms(1)] entries_find [OF assms(2)] assms(3) by auto
  have keys: "map fst (entries m) = map fst (entries n)"
    using entries_sorted [OF assms(1)] entries_sorted [OF assms(2)] set
    by (intro sorted_distinct_set_unique) (auto simp: strict_sorted_iff)
  have "inj_on fst (set (entries m) \<union> set (entries n))"
    using entries_distinct [OF assms(1)] by (simp add: set distinct_map)
  then show ?thesis using keys by (simp add: inj_on_map_eq_map)
qed

end

section \<open>The ordered association list\<close>

type_synonym ('k, 'v) omap = "('k \<times> 'v) list"

fun omap_put :: "'k::linorder \<Rightarrow> 'v \<Rightarrow> ('k, 'v) omap \<Rightarrow> ('k, 'v) omap" where
  "omap_put k v [] = [(k, v)]"
| "omap_put k v (e # es) =
     (if k < fst e then (k, v) # e # es
      else if fst e < k then e # omap_put k v es
      else (k, v) # es)"

definition omap_inv :: "('k::linorder, 'v) omap \<Rightarrow> bool" where
  "omap_inv m \<longleftrightarrow> sorted_wrt (<) (map fst m)"

text \<open>\<open>++m[k]\<close>: an absent key starts at zero.\<close>

definition omap_incr :: "'k::linorder \<Rightarrow> ('k, u64) omap \<Rightarrow> ('k, u64) omap" where
  "omap_incr k m = omap_put k ((case map_of m k of None \<Rightarrow> 0 | Some n \<Rightarrow> n) + 1) m"

lemma set_fst_omap_put: "fst ` set (omap_put k v m) = insert k (fst ` set m)"
  by (induction k v m rule: omap_put.induct) auto

lemma omap_inv_Nil [simp]: "omap_inv []"
  by (simp add: omap_inv_def)

lemma omap_inv_put: "omap_inv m \<Longrightarrow> omap_inv (omap_put k v m)"
proof (induction k v m rule: omap_put.induct)
  case (2 k v e es)
  have keys: "(\<forall>x \<in> set (omap_put k v es). P (fst x)) \<longleftrightarrow> P k \<and> (\<forall>x \<in> set es. P (fst x))" for P
    using set_fst_omap_put [of k v es] by (metis (no_types, lifting) image_iff insert_iff)
  from 2 keys [of "\<lambda>x. fst e < x"] show ?case
    by (auto simp: omap_inv_def not_less dest: less_trans)
qed (simp add: omap_inv_def)

lemma map_of_omap_put: "omap_inv m \<Longrightarrow> map_of (omap_put k v m) = (map_of m)(k \<mapsto> v)"
proof (induction k v m rule: omap_put.induct)
  case (2 k v e es)
  obtain a b where e: "e = (a, b)" by (cases e)
  from 2 show ?case
    by (auto simp: e omap_inv_def fun_eq_iff not_less dest: antisym)
qed simp

interpretation omap: ordered_map omap_put map_of "\<lambda>m. m" omap_inv
proof
  fix m :: "('a \<times> 'b) list" and k :: 'a and v :: 'b
  assume inv: "omap_inv m"
  show "omap_inv (omap_put k v m)" by (rule omap_inv_put [OF inv])
  show "map_of (omap_put k v m) = (map_of m)(k \<mapsto> v)" by (rule map_of_omap_put [OF inv])
  show "sorted_wrt (<) (map fst m)" using inv by (simp add: omap_inv_def)
  then have "distinct (map fst m)" by (simp add: strict_sorted_iff)
  then show "(k, v) \<in> set m \<longleftrightarrow> map_of m k = Some v" by simp
qed

end
