(* ===== verification/Expectation.thy ===== *)
theory Expectation
  imports Ordered_Map
begin

text \<open>
  \<^verbatim>\<open>src/src/expectation.hpp\<close>: the rows of a corpus and the result of executing one, with the
  default values the C++ member initializers give.
\<close>

record MemoryCell =
  cell_address :: u64
  cell_bytes :: "u8 list"
  permissions :: u8

record MemoryExpectation =
  exp_address :: u64
  exp_bytes :: "u8 list"
  exp_mask :: "u8 list"

datatype OutcomeClass = Normal | Exception | Unsupported | BackendError

record ExecutionResult =
  outcome_class :: OutcomeClass
  final_state :: "(string, u64) omap"
  final_bytes :: "(string, u8 list) omap"
  final_memory :: "MemoryExpectation list"
  exception_detail :: "string option"
  backend_error :: "string option"

record ExpectationRow =
  test_case_id :: u64
  row_instruction_id :: u64
  row_address :: u64
  row_instruction :: string
  row_opcode :: string
  row_state_index :: u64
  initial_state :: "(string, u64) omap"
  expected_final_state :: "(string, u64) omap option"
  initial_bytes :: "(string, u8 list) omap"
  expected_final_bytes :: "(string, u8 list) omap"
  expected_exception_kind :: "string option"
  row_undefined_flags :: "string list"
  instruction_tags :: "string list"
  initial_memory :: "MemoryCell list"
  expected_memory :: "MemoryExpectation list"
  total_states :: u64
  selected_states :: u64
  selected_state_index :: u64

definition default_cell :: MemoryCell where
  "default_cell = \<lparr>cell_address = 0, cell_bytes = [], permissions = 0\<rparr>"

definition default_expectation :: MemoryExpectation where
  "default_expectation = \<lparr>exp_address = 0, exp_bytes = [], exp_mask = []\<rparr>"

definition default_result :: ExecutionResult where
  "default_result = \<lparr>outcome_class = BackendError, final_state = [], final_bytes = [],
     final_memory = [], exception_detail = None, backend_error = None\<rparr>"

definition default_row :: ExpectationRow where
  "default_row = \<lparr>test_case_id = 0, row_instruction_id = 0, row_address = 0,
     row_instruction = [], row_opcode = [], row_state_index = 0, initial_state = [],
     expected_final_state = None, initial_bytes = [], expected_final_bytes = [],
     expected_exception_kind = None, row_undefined_flags = [], instruction_tags = [],
     initial_memory = [], expected_memory = [], total_states = 0, selected_states = 0,
     selected_state_index = 0\<rparr>"

end
