(* ===== verification/State_Bridge.thy ===== *)
theory State_Bridge
  imports Flag_Masks Parser_Text Expectation
begin

text \<open>
  \<^verbatim>\<open>src/src/remill_state_bridge.cpp\<close>: how named register values of a corpus enter and leave
  Remill's \<open>State\<close> structure.

  \<open>State\<close> is Remill's; the record has the fields the bridge touches, at their widths. A
  vector, MMX or x87 element is the list of its bytes, \<open>memcpy\<close> overwrites a prefix of it or
  reads one. \<open>state_layout nvec\<close> says the elements are as many and as large as the code
  relies on, where \<open>nvec\<close> stands for Remill's constant \<open>kNumVecRegisters\<close>. The two status
  words of \<open>x87.fxsave\<close> and \<open>x87.fsave\<close> are at different offsets and thus two fields.
\<close>

section \<open>The state\<close>

datatype Gpr = RAX | RBX | RCX | RDX | RSI | RDI | RSP | RBP | R8 | R9 | R10 | R11 | R12 | R13
  | R14 | R15 | RIP

record ArithFlags =
  cf :: u8
  pf :: u8
  af :: u8
  zf :: u8
  sf :: u8
  df :: u8
  oflow :: u8

record StatusWord =
  sw_ie :: u8
  sw_de :: u8
  sw_ze :: u8
  sw_oe :: u8
  sw_ue :: u8
  sw_pe :: u8
  sw_sf :: u8
  sw_c0 :: u8
  sw_c1 :: u8
  sw_c2 :: u8
  sw_c3 :: u8

record State =
  gpr :: "Gpr \<Rightarrow> u64"
  rflag :: u64
  aflag :: ArithFlags
  fxsave_swd :: u16
  fsave_swd :: u16
  sw :: StatusWord
  vec :: "u8 list list"
  mmx :: "u8 list list"
  st :: "u8 list list"
  addr_to_load :: u64

definition state_layout :: "nat \<Rightarrow> State \<Rightarrow> bool" where
  "state_layout nvec s \<longleftrightarrow>
     length (vec s) = nvec \<and> list_all (\<lambda>e. 64 \<le> length e) (vec s) \<and>
     length (mmx s) = 8 \<and> list_all (\<lambda>e. 8 \<le> length e) (mmx s) \<and>
     length (st s) = 8 \<and> list_all (\<lambda>e. 10 \<le> length e) (st s)"

definition bool_u8 :: "bool \<Rightarrow> u8" where "bool_u8 b = (if b then 1 else 0)"

section \<open>Flags and the x87 status word\<close>

definition SetFlags :: "State \<Rightarrow> u64 \<Rightarrow> State" where
  "SetFlags s flags = s\<lparr>rflag := flags OR 2,
     aflag := \<lparr>cf = bool_u8 (flags AND ucast kFlagCF \<noteq> 0), pf = bool_u8 (flags AND ucast kFlagPF \<noteq> 0),
       af = bool_u8 (flags AND ucast kFlagAF \<noteq> 0), zf = bool_u8 (flags AND ucast kFlagZF \<noteq> 0),
       sf = bool_u8 (flags AND ucast kFlagSF \<noteq> 0), df = bool_u8 (flags AND ucast kFlagDF \<noteq> 0),
       oflow = bool_u8 (flags AND ucast kFlagOF \<noteq> 0)\<rparr>\<rparr>"

definition set_or_clear :: "u64 \<Rightarrow> bool \<Rightarrow> u64 \<Rightarrow> u64" where
  "set_or_clear m v flags = (if v then flags OR m else flags AND NOT m)"

definition GetFlags :: "State \<Rightarrow> u64" where
  "GetFlags s =
     (let flags = rflag s OR 2;
          flags = set_or_clear (ucast kFlagCF) (cf (aflag s) \<noteq> 0) flags;
          flags = set_or_clear (ucast kFlagPF) (pf (aflag s) \<noteq> 0) flags;
          flags = set_or_clear (ucast kFlagAF) (af (aflag s) \<noteq> 0) flags;
          flags = set_or_clear (ucast kFlagZF) (zf (aflag s) \<noteq> 0) flags;
          flags = set_or_clear (ucast kFlagSF) (sf (aflag s) \<noteq> 0) flags;
          flags = set_or_clear (ucast kFlagDF) (df (aflag s) \<noteq> 0) flags;
          flags = set_or_clear (ucast kFlagOF) (oflow (aflag s) \<noteq> 0) flags
      in flags)"

definition status_bit :: "u16 \<Rightarrow> nat \<Rightarrow> u8" where
  "status_bit status k = ucast (drop_bit k status AND 1)"

definition SetX87Status :: "State \<Rightarrow> u64 \<Rightarrow> State" where
  "SetX87Status s v =
     (let status = ucast (v AND 0x7F7F) :: u16 in
      s\<lparr>fxsave_swd := status, fsave_swd := status,
        sw := \<lparr>sw_ie = status_bit status 0, sw_de = status_bit status 1, sw_ze = status_bit status 2,
          sw_oe = status_bit status 3, sw_ue = status_bit status 4, sw_pe = status_bit status 5,
          sw_sf = status_bit status 6, sw_c0 = status_bit status 8, sw_c1 = status_bit status 9,
          sw_c2 = status_bit status 10, sw_c3 = status_bit status 14\<rparr>\<rparr>)"

definition bit_at :: "u8 \<Rightarrow> nat \<Rightarrow> u16" where
  "bit_at b k = ucast (push_bit k (ucast b AND 1 :: u32))"

definition GetX87Status :: "State \<Rightarrow> u64" where
  "GetX87Status s =
     ucast ((fxsave_swd s AND 0x3800) OR bit_at (sw_ie (sw s)) 0 OR bit_at (sw_de (sw s)) 1 OR
       bit_at (sw_ze (sw s)) 2 OR bit_at (sw_oe (sw s)) 3 OR bit_at (sw_ue (sw s)) 4 OR
       bit_at (sw_pe (sw s)) 5 OR bit_at (sw_sf (sw s)) 6 OR bit_at (sw_c0 (sw s)) 8 OR
       bit_at (sw_c1 (sw s)) 9 OR bit_at (sw_c2 (sw s)) 10 OR bit_at (sw_c3 (sw s)) 14)"

section \<open>Scalar registers\<close>

definition ScalarRegisterNames :: "string list" where
  "ScalarRegisterNames =
     [''rax'', ''rbx'', ''rcx'', ''rdx'', ''rsi'', ''rdi'', ''rsp'', ''rbp'', ''r8'',
      ''r9'', ''r10'', ''r11'', ''r12'', ''r13'', ''r14'', ''r15'', ''rip'']"

definition IsScalarRegister :: "string \<Rightarrow> bool" where
  "IsScalarRegister name \<longleftrightarrow> ToLower name \<in> set ScalarRegisterNames"

text \<open>The chains of comparisons of the two macros, as a table.\<close>

definition gpr_fields :: "(string \<times> Gpr) list" where
  "gpr_fields =
     [(''rax'', RAX), (''rbx'', RBX), (''rcx'', RCX), (''rdx'', RDX), (''rsi'', RSI), (''rdi'', RDI),
      (''rsp'', RSP), (''rbp'', RBP), (''r8'', R8), (''r9'', R9), (''r10'', R10), (''r11'', R11),
      (''r12'', R12), (''r13'', R13), (''r14'', R14), (''r15'', R15), (''rip'', RIP)]"

definition SetScalarRegister :: "State \<Rightarrow> string \<Rightarrow> u64 \<Rightarrow> bool \<times> State" where
  "SetScalarRegister s raw_name v =
     (case map_of gpr_fields (ToLower raw_name) of
        Some r \<Rightarrow> (True, s\<lparr>gpr := (gpr s)(r := v)\<rparr>)
      | None \<Rightarrow> (False, s))"

definition GetScalarRegister :: "State \<Rightarrow> string \<Rightarrow> u64 option" where
  "GetScalarRegister s raw_name = map_option (gpr s) (map_of gpr_fields (ToLower raw_name))"

section \<open>Byte registers\<close>

datatype ByteRegisterKind = kVector | kMmx | kX87Stack

record ByteRegisterInfo =
  reg_kind :: ByteRegisterKind
  reg_index :: nat
  reg_size :: nat

definition register_index :: "string \<Rightarrow> nat \<Rightarrow> nat option" where
  "register_index index_text limit =
     (if index_text = [] then None
      else case from_chars_dec index_text of
        (None, _) \<Rightarrow> None
      | (Some index, ptr) \<Rightarrow>
          if ptr \<noteq> length index_text \<or> limit \<le> index then None else Some index)"

fun vector_prefix :: "string \<Rightarrow> (string \<times> nat) list \<Rightarrow> (string \<times> nat) option" where
  "vector_prefix name [] = None"
| "vector_prefix name (p # ps) = (if \<not> starts_with name (fst p) then vector_prefix name ps else Some p)"

definition ParseByteRegisterName :: "nat \<Rightarrow> string \<Rightarrow> ByteRegisterInfo option" where
  "ParseByteRegisterName nvec raw_name =
     (let name = ToLower raw_name in
      case vector_prefix name [(''xmm'', 16), (''ymm'', 32), (''zmm'', 64)] of
        Some (prefix, sz) \<Rightarrow>
          map_option (\<lambda>index. \<lparr>reg_kind = kVector, reg_index = index, reg_size = sz\<rparr>)
            (register_index (drop (length prefix) name) nvec)
      | None \<Rightarrow>
          if starts_with name ''mm''
          then map_option (\<lambda>index. \<lparr>reg_kind = kMmx, reg_index = index, reg_size = 8\<rparr>)
                 (register_index (drop 2 name) 8)
          else if starts_with name ''st''
          then map_option (\<lambda>index. \<lparr>reg_kind = kX87Stack, reg_index = index, reg_size = 10\<rparr>)
                 (register_index (drop 2 name) 8)
          else None)"

definition IsByteRegister :: "nat \<Rightarrow> string \<Rightarrow> bool" where
  "IsByteRegister nvec name \<longleftrightarrow> ParseByteRegisterName nvec name \<noteq> None"

text \<open>\<open>memcpy\<close> to and from the element of the register's kind at its index.\<close>

definition poke :: "u8 list list \<Rightarrow> nat \<Rightarrow> u8 list \<Rightarrow> u8 list list" where
  "poke elems i bytes = elems[i := bytes @ drop (length bytes) (elems ! i)]"

definition SetByteRegister :: "nat \<Rightarrow> State \<Rightarrow> string \<Rightarrow> u8 list \<Rightarrow> bool \<times> State" where
  "SetByteRegister nvec s name bytes =
     (case ParseByteRegisterName nvec name of
        None \<Rightarrow> (False, s)
      | Some info \<Rightarrow>
          if length bytes \<noteq> reg_size info then (False, s)
          else (case reg_kind info of
                  kVector \<Rightarrow> (True, s\<lparr>vec := poke (vec s) (reg_index info) bytes\<rparr>)
                | kMmx \<Rightarrow> (True, s\<lparr>mmx := poke (mmx s) (reg_index info) bytes\<rparr>)
                | kX87Stack \<Rightarrow> (True, s\<lparr>st := poke (st s) (reg_index info) bytes\<rparr>)))"

definition GetByteRegister :: "nat \<Rightarrow> State \<Rightarrow> string \<Rightarrow> u8 list option" where
  "GetByteRegister nvec s name =
     (case ParseByteRegisterName nvec name of
        None \<Rightarrow> None
      | Some info \<Rightarrow>
          Some (take (reg_size info)
            (case reg_kind info of
               kVector \<Rightarrow> vec s ! reg_index info
             | kMmx \<Rightarrow> mmx s ! reg_index info
             | kX87Stack \<Rightarrow> st s ! reg_index info)))"

definition ResetState :: "State \<Rightarrow> State" where
  "ResetState s = SetFlags
     \<lparr>gpr = (\<lambda>_. 0), rflag = 0, aflag = \<lparr>cf = 0, pf = 0, af = 0, zf = 0, sf = 0, df = 0, oflow = 0\<rparr>,
      fxsave_swd = 0, fsave_swd = 0,
      sw = \<lparr>sw_ie = 0, sw_de = 0, sw_ze = 0, sw_oe = 0, sw_ue = 0, sw_pe = 0, sw_sf = 0, sw_c0 = 0,
        sw_c1 = 0, sw_c2 = 0, sw_c3 = 0\<rparr>,
      vec = map (map (\<lambda>_. 0)) (vec s), mmx = map (map (\<lambda>_. 0)) (mmx s), st = map (map (\<lambda>_. 0)) (st s),
      addr_to_load = 0\<rparr> 0"

section \<open>Applying and taking snapshots\<close>

text \<open>
  The two loops of \<open>ApplyInitialState\<close>. \<open>error\<close> is the string the pointer argument points
  to, \<open>None\<close> for a null pointer; the result is the returned flag, the state and the string.
\<close>

definition set_error :: "string option \<Rightarrow> string \<Rightarrow> string option" where
  "set_error error message = (case error of None \<Rightarrow> None | Some _ \<Rightarrow> Some message)"

fun apply_scalars :: "nat \<Rightarrow> (string \<times> u64) list \<Rightarrow> State \<Rightarrow> string option \<Rightarrow> bool \<times> State \<times> string option" where
  "apply_scalars nvec [] s error = (True, s, error)"
| "apply_scalars nvec ((raw_key, v) # rest) s error =
     (let key = CanonicalStateKey raw_key in
      if key = ''flag'' then apply_scalars nvec rest (SetFlags s v) error
      else if key = ''cr0'' then apply_scalars nvec rest s error
      else if key = ''x87status'' then apply_scalars nvec rest (SetX87Status s v) error
      else if IsScalarRegister key then apply_scalars nvec rest (snd (SetScalarRegister s key v)) error
      else if IsByteRegister nvec key then apply_scalars nvec rest s error
      else (False, s, set_error error (''unsupported scalar state key: '' @ key)))"

fun apply_bytes :: "nat \<Rightarrow> (string \<times> u8 list) list \<Rightarrow> State \<Rightarrow> string option \<Rightarrow> bool \<times> State \<times> string option" where
  "apply_bytes nvec [] s error = (True, s, error)"
| "apply_bytes nvec ((raw_key, bytes) # rest) s error =
     (let key = CanonicalStateKey raw_key in
      if key = ''flag'' \<or> key = ''cr0'' \<or> key = ''x87status'' \<or> IsScalarRegister key
      then apply_bytes nvec rest s error
      else if IsByteRegister nvec key then
        (let (ok, s') = SetByteRegister nvec s key bytes in
         if \<not> ok then (False, s', set_error error (''invalid byte state for register: '' @ key))
         else apply_bytes nvec rest s' error)
      else (False, s, set_error error (''unsupported byte state key: '' @ key)))"

definition ApplyInitialState ::
  "nat \<Rightarrow> State \<Rightarrow> (string, u64) omap \<Rightarrow> (string, u8 list) omap \<Rightarrow> string option \<Rightarrow>
   bool \<times> State \<times> string option" where
  "ApplyInitialState nvec s scalar_values byte_values error =
     (case apply_scalars nvec scalar_values s error of
        (ok, s', error') \<Rightarrow> if \<not> ok then (False, s', error') else apply_bytes nvec byte_values s' error')"

definition SnapshotState_step :: "State \<Rightarrow> string \<Rightarrow> (string, u64) omap \<Rightarrow> (string, u64) omap" where
  "SnapshotState_step s raw_key snapshot =
     (let key = CanonicalStateKey raw_key in
      if key = ''flag'' then omap_put key (GetFlags s) snapshot
      else if key = ''x87status'' then omap_put key (GetX87Status s) snapshot
      else case GetScalarRegister s key of Some v \<Rightarrow> omap_put key v snapshot | None \<Rightarrow> snapshot)"

definition SnapshotState :: "State \<Rightarrow> string list \<Rightarrow> (string, u64) omap" where
  "SnapshotState s keys = fold (SnapshotState_step s) keys []"

definition SnapshotBytes_step :: "nat \<Rightarrow> State \<Rightarrow> string \<Rightarrow> (string, u8 list) omap \<Rightarrow> (string, u8 list) omap" where
  "SnapshotBytes_step nvec s raw_key snapshot =
     (let key = CanonicalStateKey raw_key in
      case GetByteRegister nvec s key of Some bytes \<Rightarrow> omap_put key bytes snapshot | None \<Rightarrow> snapshot)"

definition SnapshotBytes :: "nat \<Rightarrow> State \<Rightarrow> string list \<Rightarrow> (string, u8 list) omap" where
  "SnapshotBytes nvec s keys = fold (SnapshotBytes_step nvec s) keys []"

section \<open>Flags and status words survive the round trip\<close>

named_theorems bit_simps

lemma bit_set_or_clear:
  "k < 64 \<Longrightarrow> m = push_bit k 1 \<Longrightarrow> bit (set_or_clear m v flags) n \<longleftrightarrow> n < 64 \<and> (if n = k then v else bit flags n)"
  by (auto simp: set_or_clear_def bit_or_iff bit_and_iff bit_not_iff bit_exp_iff possible_bit_def
      dest: bit_imp_le_length)

lemmas bit_set_or_clear_flags [bit_simps] =
  bit_set_or_clear [of 0 1, simplified] bit_set_or_clear [of 2 4, simplified]
  bit_set_or_clear [of 4 16, simplified] bit_set_or_clear [of 6 64, simplified]
  bit_set_or_clear [of 7 128, simplified] bit_set_or_clear [of 10 1024, simplified]
  bit_set_or_clear [of 11 2048, simplified]

lemma flag_words [bit_simps]:
  "(ucast kFlagCF :: u64) = 1" "(ucast kFlagPF :: u64) = 4" "(ucast kFlagAF :: u64) = 16"
  "(ucast kFlagZF :: u64) = 64" "(ucast kFlagSF :: u64) = 128" "(ucast kFlagDF :: u64) = 1024"
  "(ucast kFlagOF :: u64) = 2048"
  by code_simp+

lemma and_flag_words [bit_simps]:
  fixes flags :: u64
  shows "flags AND 1 \<noteq> 0 \<longleftrightarrow> bit flags 0" "flags AND 4 \<noteq> 0 \<longleftrightarrow> bit flags 2" "flags AND 16 \<noteq> 0 \<longleftrightarrow> bit flags 4"
    "flags AND 64 \<noteq> 0 \<longleftrightarrow> bit flags 6" "flags AND 128 \<noteq> 0 \<longleftrightarrow> bit flags 7"
    "flags AND 1024 \<noteq> 0 \<longleftrightarrow> bit flags 10" "flags AND 2048 \<noteq> 0 \<longleftrightarrow> bit flags 11"
  using and_push_bit_one [of flags 0] and_push_bit_one [of flags 2] and_push_bit_one [of flags 4]
    and_push_bit_one [of flags 6] and_push_bit_one [of flags 7] and_push_bit_one [of flags 10]
    and_push_bit_one [of flags 11]
  by simp_all

lemma bool_u8_eq_0 [simp]: "bool_u8 b = 0 \<longleftrightarrow> \<not> b"
  by (simp add: bool_u8_def)

lemma bit_GetFlags [bit_simps]:
  "bit (GetFlags s) n \<longleftrightarrow> n < 64 \<and>
     (if n = 0 then cf (aflag s) \<noteq> 0 else if n = 2 then pf (aflag s) \<noteq> 0
      else if n = 4 then af (aflag s) \<noteq> 0 else if n = 6 then zf (aflag s) \<noteq> 0
      else if n = 7 then sf (aflag s) \<noteq> 0 else if n = 10 then df (aflag s) \<noteq> 0
      else if n = 11 then oflow (aflag s) \<noteq> 0 else bit (rflag s OR 2) n)"
  unfolding GetFlags_def Let_def flag_words bit_set_or_clear_flags by auto

lemma GetFlags_SetFlags: "GetFlags (SetFlags s flags) = flags OR 2"
proof (rule bit_word_eqI)
  fix n assume "n < LENGTH(64)"
  moreover have "\<not> bit (2 :: u64) k" if "k \<in> {0, 2, 4, 6, 7, 10, 11}" for k using that by auto
  ultimately show "bit (GetFlags (SetFlags s flags)) n = bit (flags OR 2) n"
    unfolding bit_GetFlags SetFlags_def by (simp add: flag_words and_flag_words bit_or_iff)
qed

lemma bit_bit_at [bit_simps]: "k < 16 \<Longrightarrow> bit (bit_at b k) n \<longleftrightarrow> n = k \<and> bit b 0"
  by (auto simp: bit_at_def bit_ucast_iff bit_push_bit_iff bit_and_iff bit_1_iff bit_exp_iff possible_bit_def)

lemma bit_status_bit [bit_simps]: "bit (status_bit status k) 0 \<longleftrightarrow> bit status k"
  by (simp add: status_bit_def bit_ucast_iff bit_and_iff bit_drop_bit_eq)

lemma bit_7F7F [bit_simps]: "bit (0x7F7F :: int) n \<longleftrightarrow> n \<le> 6 \<or> 8 \<le> n \<and> n \<le> 14"
proof -
  have "(0x7F7F :: int) = mask 7 OR push_bit 8 (mask 7)" by (simp add: mask_eq_exp_minus_1)
  then show ?thesis by (auto simp only: bit_or_iff bit_push_bit_iff bit_mask_iff possible_bit_def) auto
qed

lemma bit_3800 [bit_simps]: "bit (0x3800 :: int) n \<longleftrightarrow> 11 \<le> n \<and> n \<le> 13"
proof -
  have "(0x3800 :: int) = push_bit 11 (mask 3)" by (simp add: mask_eq_exp_minus_1)
  then show ?thesis by (auto simp only: bit_push_bit_iff bit_mask_iff possible_bit_def) auto
qed

lemma bit_3800_word [bit_simps]: "bit (0x3800 :: u16) n \<longleftrightarrow> 11 \<le> n \<and> n \<le> 13"
  by (auto simp: bit_3800)

lemma status_bits_merge:
  fixes w a :: u16
  assumes a: "\<And>n. bit a n \<longleftrightarrow> 11 \<le> n \<and> n \<le> 13 \<and> bit w n"
  shows "bit (a OR bit_at (status_bit w 0) 0 OR bit_at (status_bit w 1) 1 OR bit_at (status_bit w 2) 2 OR
      bit_at (status_bit w 3) 3 OR bit_at (status_bit w 4) 4 OR bit_at (status_bit w 5) 5 OR
      bit_at (status_bit w 6) 6 OR bit_at (status_bit w 8) 8 OR bit_at (status_bit w 9) 9 OR
      bit_at (status_bit w 10) 10 OR bit_at (status_bit w 14) 14) n \<longleftrightarrow>
    (n \<le> 6 \<or> 8 \<le> n \<and> n \<le> 14) \<and> bit w n" (is "?lhs \<longleftrightarrow> _")
proof -
  have "?lhs \<longleftrightarrow> 11 \<le> n \<and> n \<le> 13 \<and> bit w n \<or> n = 0 \<and> bit w n \<or> n = 1 \<and> bit w n \<or> n = 2 \<and> bit w n \<or>
      n = 3 \<and> bit w n \<or> n = 4 \<and> bit w n \<or> n = 5 \<and> bit w n \<or> n = 6 \<and> bit w n \<or> n = 8 \<and> bit w n \<or>
      n = 9 \<and> bit w n \<or> n = 10 \<and> bit w n \<or> n = 14 \<and> bit w n"
    by (simp add: bit_or_iff bit_bit_at bit_status_bit a cong: conj_cong)
  moreover have "n = 0 \<or> n = 1 \<or> n = 2 \<or> n = 3 \<or> n = 4 \<or> n = 5 \<or> n = 6 \<or> n = 8 \<or>
      n = 9 \<or> n = 10 \<or> 11 \<le> n \<and> n \<le> 13 \<or> n = 14 \<longleftrightarrow> n \<le> 6 \<or> 8 \<le> n \<and> n \<le> 14" by arith
  ultimately show ?thesis by blast
qed

lemma GetX87Status_SetX87Status: "GetX87Status (SetX87Status s v) = v AND 0x7F7F"
proof (rule bit_word_eqI)
  fix n assume n: "n < LENGTH(64)"
  define w :: u16 where "w = ucast (v AND 0x7F7F)"
  have w: "bit w k \<longleftrightarrow> bit v k \<and> (k \<le> 6 \<or> 8 \<le> k \<and> k \<le> 14)" for k
    by (auto simp: w_def bit_ucast_iff bit_and_iff bit_7F7F possible_bit_def)
  have "bit (w AND 0x3800) k \<longleftrightarrow> 11 \<le> k \<and> k \<le> 13 \<and> bit w k" for k
    unfolding bit_and_iff bit_3800_word by blast
  from status_bits_merge [OF this, of n] w n
  show "bit (GetX87Status (SetX87Status s v)) n = bit (v AND 0x7F7F) n"
    unfolding GetX87Status_def SetX87Status_def Let_def w_def [symmetric]
    by (simp only: bit_ucast_iff State.simps StatusWord.simps bit_and_iff) (auto simp: bit_7F7F possible_bit_def)
qed

section \<open>Register files\<close>

text \<open>
  The contract of a setter and a getter of named registers: a name denotes a slot, an
  accepted value is read back under every name of its slot that reads as much, other slots
  keep their values, and a refused value changes nothing.
\<close>

locale register_file =
  fixes set_reg :: "'s \<Rightarrow> string \<Rightarrow> 'v \<Rightarrow> bool \<times> 's"
    and get_reg :: "'s \<Rightarrow> string \<Rightarrow> 'v option"
    and slot :: "string \<Rightarrow> 'slot option"
    and fits :: "string \<Rightarrow> 'v \<Rightarrow> bool"
    and layout :: "'s \<Rightarrow> bool"
  assumes fits_slot: "fits n v \<Longrightarrow> slot n \<noteq> None"
    and set_accepts: "layout s \<Longrightarrow> fits n v \<Longrightarrow> fst (set_reg s n v)"
    and set_refuses: "\<not> fits n v \<Longrightarrow> set_reg s n v = (False, s)"
    and set_layout: "layout s \<Longrightarrow> layout (snd (set_reg s n v))"
    and get_set_same: "layout s \<Longrightarrow> fits n v \<Longrightarrow> get_reg (snd (set_reg s n v)) n = Some v"
    and get_set_other: "layout s \<Longrightarrow> fits n v \<Longrightarrow> slot m \<noteq> slot n \<Longrightarrow> get_reg (snd (set_reg s n v)) m = get_reg s m"
    and get_slot: "get_reg s n = None \<longleftrightarrow> slot n = None"
begin

definition set_list :: "(string \<times> 'v) list \<Rightarrow> 's \<Rightarrow> 's" where
  "set_list kvs s = fold (\<lambda>(k, v) s. snd (set_reg s k v)) kvs s"

lemma set_list_layout: "layout s \<Longrightarrow> layout (set_list kvs s)"
  unfolding set_list_def by (induction kvs arbitrary: s) (auto simp: set_layout)

lemma set_list_other:
  "layout s \<Longrightarrow> slot m \<notin> slot ` fst ` set kvs \<Longrightarrow> get_reg (set_list kvs s) m = get_reg s m"
proof (induction kvs arbitrary: s)
  case (Cons kv kvs)
  obtain k v where kv: "kv = (k, v)" by (cases kv)
  have "get_reg (snd (set_reg s k v)) m = get_reg s m"
  proof (cases "fits k v")
    case True
    with Cons.prems show ?thesis by (intro get_set_other) (auto simp: kv)
  qed (simp add: set_refuses)
  with Cons.IH [of "snd (set_reg s k v)"] Cons.prems show ?case
    by (auto simp: kv set_list_def set_layout)
qed (simp add: set_list_def)

text \<open>Storing into pairwise different slots: every value is read back.\<close>

lemma set_list_get:
  assumes "layout s" "distinct (map (\<lambda>kv. slot (fst kv)) kvs)" "list_all (\<lambda>(k, v). fits k v) kvs"
    and "(k, v) \<in> set kvs"
  shows "get_reg (set_list kvs s) k = Some v"
  using assms
proof (induction kvs arbitrary: s)
  case (Cons kv kvs)
  obtain k1 v1 where kv: "kv = (k1, v1)" by (cases kv)
  let ?s = "snd (set_reg s k1 v1)"
  have layout: "layout ?s" using Cons.prems(1) by (rule set_layout)
  have fold: "set_list ((k1, v1) # kvs) s = set_list kvs ?s" by (simp add: set_list_def)
  show ?case
  proof (cases "(k, v) \<in> set kvs")
    case True
    then have "get_reg (set_list kvs ?s) k = Some v"
      using Cons.prems(2,3) by (intro Cons.IH layout) auto
    then show ?thesis by (simp add: fold kv)
  next
    case False
    with Cons.prems(4) kv have kv': "k1 = k" "v1 = v" by auto
    have "slot k \<notin> slot ` fst ` set kvs"
      using Cons.prems(2) by (auto simp: kv kv' image_image)
    with set_list_other [OF layout this] get_set_same [of s k v] Cons.prems(1,3) show ?thesis
      using fold by (simp add: kv kv')
  qed
qed simp

end

definition gpr_slot :: "string \<Rightarrow> Gpr option" where
  "gpr_slot n = map_of gpr_fields (ToLower n)"

lemma gpr_fields_names: "map fst gpr_fields = ScalarRegisterNames"
  by code_simp

lemma IsScalarRegister_slot: "IsScalarRegister n \<longleftrightarrow> gpr_slot n \<noteq> None"
  by (metis IsScalarRegister_def gpr_fields_names gpr_slot_def list.set_map map_of_eq_None_iff)

interpretation scalars: register_file SetScalarRegister GetScalarRegister gpr_slot
  "\<lambda>n v. IsScalarRegister n" "\<lambda>s. True"
  by unfold_locales
     (auto simp: IsScalarRegister_slot SetScalarRegister_def GetScalarRegister_def gpr_slot_def
       map_option_case split: option.splits)

definition byte_slot :: "nat \<Rightarrow> string \<Rightarrow> (ByteRegisterKind \<times> nat) option" where
  "byte_slot nvec n = map_option (\<lambda>info. (reg_kind info, reg_index info)) (ParseByteRegisterName nvec n)"

definition byte_fits :: "nat \<Rightarrow> string \<Rightarrow> u8 list \<Rightarrow> bool" where
  "byte_fits nvec n bytes \<longleftrightarrow>
     (case ParseByteRegisterName nvec n of None \<Rightarrow> False | Some info \<Rightarrow> length bytes = reg_size info)"

definition kind_limit :: "nat \<Rightarrow> ByteRegisterKind \<Rightarrow> nat" where
  "kind_limit nvec k = (case k of kVector \<Rightarrow> nvec | kMmx \<Rightarrow> 8 | kX87Stack \<Rightarrow> 8)"

definition kind_size :: "ByteRegisterKind \<Rightarrow> nat" where
  "kind_size k = (case k of kVector \<Rightarrow> 64 | kMmx \<Rightarrow> 8 | kX87Stack \<Rightarrow> 10)"

lemma register_index_less: "register_index s limit = Some i \<Longrightarrow> i < limit"
  by (auto simp: register_index_def split: if_splits prod.splits option.splits)

text \<open>An index that the name parser returns is inside of the register array.\<close>

lemma ParseByteRegisterName_bounds:
  assumes "ParseByteRegisterName nvec n = Some info"
  shows "reg_index info < kind_limit nvec (reg_kind info)" "reg_size info \<le> kind_size (reg_kind info)"
  using assms
  by (auto simp: ParseByteRegisterName_def Let_def kind_limit_def kind_size_def
      split: option.splits if_splits dest: register_index_less)

lemma length_poke: "i < length elems \<Longrightarrow> length (poke elems i bytes) = length elems"
  by (simp add: poke_def)

lemma nth_poke:
  "i < length elems \<Longrightarrow> poke elems i bytes ! j =
     (if j = i then bytes @ drop (length bytes) (elems ! i) else elems ! j)"
  by (simp add: poke_def)

lemma poke_sizes:
  assumes "list_all (\<lambda>e. n \<le> length e) elems" "i < length elems"
  shows "list_all (\<lambda>e. n \<le> length e) (poke elems i bytes)"
  using assms by (auto simp: list_all_length poke_def nth_list_update)

interpretation byte_regs: register_file "SetByteRegister nvec" "GetByteRegister nvec" "byte_slot nvec"
  "byte_fits nvec" "state_layout nvec" for nvec
proof
  fix s :: State and n m :: string and v :: "u8 list"
  show "byte_fits nvec n v \<Longrightarrow> byte_slot nvec n \<noteq> None"
    by (auto simp: byte_fits_def byte_slot_def split: option.splits)
  show "state_layout nvec s \<Longrightarrow> byte_fits nvec n v \<Longrightarrow> fst (SetByteRegister nvec s n v)"
    by (auto simp: byte_fits_def SetByteRegister_def split: option.splits ByteRegisterKind.splits)
  show "\<not> byte_fits nvec n v \<Longrightarrow> SetByteRegister nvec s n v = (False, s)"
    by (auto simp: byte_fits_def SetByteRegister_def split: option.splits)
  show "GetByteRegister nvec s n = None \<longleftrightarrow> byte_slot nvec n = None"
    by (auto simp: GetByteRegister_def byte_slot_def split: option.splits)
  assume layout: "state_layout nvec s"
  show "state_layout nvec (snd (SetByteRegister nvec s n v))"
    using layout ParseByteRegisterName_bounds [of nvec n]
    by (auto simp: SetByteRegister_def state_layout_def kind_limit_def length_poke
        split: option.splits ByteRegisterKind.splits intro!: poke_sizes)
  assume "byte_fits nvec n v"
  then obtain info where info: "ParseByteRegisterName nvec n = Some info" "length v = reg_size info"
    by (auto simp: byte_fits_def split: option.splits)
  note bounds = ParseByteRegisterName_bounds [OF info(1)]
  show "GetByteRegister nvec (snd (SetByteRegister nvec s n v)) n = Some v"
    using layout info bounds
    by (auto simp: GetByteRegister_def SetByteRegister_def state_layout_def kind_limit_def nth_poke
        split: ByteRegisterKind.splits)
  assume "byte_slot nvec m \<noteq> byte_slot nvec n"
  then show "GetByteRegister nvec (snd (SetByteRegister nvec s n v)) m = GetByteRegister nvec s m"
    using layout info bounds
    by (auto simp: GetByteRegister_def SetByteRegister_def byte_slot_def state_layout_def kind_limit_def
        nth_poke split: ByteRegisterKind.splits option.splits)
qed

section \<open>Applying a row and taking a snapshot\<close>

definition special_key :: "string \<Rightarrow> bool" where
  "special_key k \<longleftrightarrow> k = ''flag'' \<or> k = ''x87status''"

text \<open>The value a snapshot reports for a key, and what remains of a value that was set.\<close>

definition state_value :: "State \<Rightarrow> string \<Rightarrow> u64 option" where
  "state_value s k = (if k = ''flag'' then Some (GetFlags s)
     else if k = ''x87status'' then Some (GetX87Status s) else GetScalarRegister s k)"

definition observed :: "string \<Rightarrow> u64 \<Rightarrow> u64" where
  "observed k v = (if k = ''flag'' then v OR 2 else if k = ''x87status'' then v AND 0x7F7F else v)"

definition canonical :: "string \<Rightarrow> bool" where
  "canonical k \<longleftrightarrow> CanonicalStateKey k = k"

lemma canonical_lower: "canonical k \<Longrightarrow> ToLower k = k"
proof -
  assume k: "canonical k"
  have "ToLower ''flag'' = ''flag''" by code_simp
  with k ToLower_idem [of "Trim k"] show "ToLower k = k"
    by (auto simp: canonical_def CanonicalStateKey_def Let_def simp del: ToLower_idem split: if_splits)
qed

lemma special_not_register:
  assumes "special_key k"
  shows "\<not> IsScalarRegister k" "\<not> IsByteRegister nvec k"
proof -
  have "\<not> IsScalarRegister ''flag''" "\<not> IsScalarRegister ''x87status''" by code_simp+
  moreover have "ToLower ''flag'' = ''flag''" "ToLower ''x87status'' = ''x87status''" by code_simp+
  then have "\<not> IsByteRegister nvec ''flag''" "\<not> IsByteRegister nvec ''x87status''"
    by (simp_all add: IsByteRegister_def ParseByteRegisterName_def starts_with_def)
  ultimately show "\<not> IsScalarRegister k" "\<not> IsByteRegister nvec k"
    using assms by (auto simp: special_key_def)
qed

lemma GetScalarRegister_frame [simp]:
  "GetScalarRegister (SetFlags s f) k = GetScalarRegister s k"
  "GetScalarRegister (SetX87Status s f) k = GetScalarRegister s k"
  by (simp_all add: GetScalarRegister_def SetFlags_def SetX87Status_def Let_def)

lemma GetFlags_frame [simp]:
  "GetFlags (SetX87Status s f) = GetFlags s" "GetFlags (snd (SetScalarRegister s k v)) = GetFlags s"
  "GetX87Status (SetFlags s f) = GetX87Status s"
  "GetX87Status (snd (SetScalarRegister s k v)) = GetX87Status s"
  by (simp_all add: GetFlags_def GetX87Status_def SetX87Status_def SetFlags_def SetScalarRegister_def
      Let_def split: option.splits)

lemma map_of_snd_inject:
  assumes "distinct (map snd kvs)" "map_of kvs a = Some v" "map_of kvs b = Some v"
  shows "a = b"
proof -
  have "inj_on snd (set kvs)" using assms(1) by (simp add: distinct_map)
  then have "(a, v) = (b, v)"
    using map_of_SomeD [OF assms(2)] map_of_SomeD [OF assms(3)] by (intro inj_onD [of snd "set kvs"]) auto
  then show ?thesis by simp
qed

lemma gpr_slot_inject:
  assumes "canonical k" "canonical k'" "gpr_slot k = gpr_slot k'" "gpr_slot k \<noteq> None"
  shows "k = k'"
proof -
  have "distinct (map snd gpr_fields)" by code_simp
  moreover obtain r where "map_of gpr_fields k = Some r" "map_of gpr_fields k' = Some r"
    using assms(3,4) canonical_lower [OF assms(1)] canonical_lower [OF assms(2)]
    by (auto simp only: gpr_slot_def)
  ultimately show ?thesis by (rule map_of_snd_inject)
qed

lemma state_value_scalar:
  assumes "IsScalarRegister k" "canonical k" "canonical k'"
  shows "state_value (snd (SetScalarRegister s k v)) k' = (if k' = k then Some v else state_value s k')"
proof (cases "k' = k")
  case True
  with assms(1) special_not_register(1) [of k] scalars.get_set_same [of k s v] show ?thesis
    by (auto simp: state_value_def special_key_def)
next
  case False
  then have "gpr_slot k' \<noteq> gpr_slot k"
    using gpr_slot_inject [OF assms(2,3)] assms(1) IsScalarRegister_slot [of k] by auto
  with scalars.get_set_other [of k k' s v] assms(1) False show ?thesis
    by (auto simp: state_value_def)
qed

lemma apply_scalars_values:
  assumes "apply_scalars nvec kvs s error = (True, s', error')"
    and "list_all canonical (map fst kvs)" "distinct (map fst kvs)" "canonical k"
    and "special_key k \<or> IsScalarRegister k"
  shows "state_value s' k = (case map_of kvs k of Some v \<Rightarrow> Some (observed k v) | None \<Rightarrow> state_value s k)"
  using assms
proof (induction nvec kvs s error rule: apply_scalars.induct)
  case (2 nvec raw_key v rest s error)
  have key: "CanonicalStateKey raw_key = raw_key" "canonical raw_key"
    using "2.prems"(2) by (simp_all add: canonical_def)
  have r: "list_all canonical (map fst rest)" "distinct (map fst rest)"
    using "2.prems"(2,3) by simp_all
  have notin: "map_of rest raw_key = None"
    using "2.prems"(3) by (simp add: map_of_eq_None_iff)
  have ne: "k \<noteq> ''cr0'' \<and> \<not> IsByteRegister nvec k"
  proof -
    have "\<not> IsScalarRegister ''cr0''" by code_simp
    moreover have "\<not> IsByteRegister nvec k" if "IsScalarRegister k"
    proof -
      from that have "k \<in> set ScalarRegisterNames"
        using canonical_lower [OF "2.prems"(4)] by (simp add: IsScalarRegister_def)
      then have "list_all (\<lambda>p. \<not> starts_with k p) [''xmm'', ''ymm'', ''zmm'', ''mm'', ''st'']"
        by (auto simp: ScalarRegisterNames_def starts_with_def)
      then show ?thesis
        using canonical_lower [OF "2.prems"(4)]
        by (simp add: IsByteRegister_def ParseByteRegisterName_def Let_def)
    qed
    ultimately show ?thesis
      using "2.prems"(5) special_not_register by (auto simp: special_key_def)
  qed
  consider (flag) "raw_key = ''flag''" | (cr0) "raw_key = ''cr0''" | (x87) "raw_key = ''x87status''"
    | (scalar) "raw_key \<noteq> ''flag''" "raw_key \<noteq> ''cr0''" "raw_key \<noteq> ''x87status''" "IsScalarRegister raw_key"
    | (bytes) "raw_key \<noteq> ''flag''" "raw_key \<noteq> ''cr0''" "raw_key \<noteq> ''x87status''" "\<not> IsScalarRegister raw_key"
        "IsByteRegister nvec raw_key"
    using "2.prems"(1) key by (auto simp: Let_def split: if_splits)
  then have "state_value s' k = (case map_of ((raw_key, v) # rest) k of Some v \<Rightarrow> Some (observed k v)
      | None \<Rightarrow> state_value s k)"
  proof cases
    case flag
    have "apply_scalars nvec rest (SetFlags s v) error = (True, s', error')"
      using "2.prems"(1) key flag by simp
    from "2.IH"(1) [OF refl _ this r "2.prems"(4,5)] flag notin key show ?thesis
      by (auto simp: state_value_def observed_def GetFlags_SetFlags split: option.splits)
  next
    case cr0
    have "apply_scalars nvec rest s error = (True, s', error')"
      using "2.prems"(1) key cr0 by simp
    from "2.IH"(2) [OF refl _ _ this r "2.prems"(4,5)] cr0 key ne show ?thesis by simp
  next
    case x87
    have "apply_scalars nvec rest (SetX87Status s v) error = (True, s', error')"
      using "2.prems"(1) key x87 by simp
    from "2.IH"(3) [OF refl _ _ _ this r "2.prems"(4,5)] x87 notin key show ?thesis
      by (auto simp: state_value_def observed_def GetX87Status_SetX87Status split: option.splits)
  next
    case scalar
    have "apply_scalars nvec rest (snd (SetScalarRegister s raw_key v)) error = (True, s', error')"
      using "2.prems"(1) key scalar by simp
    from "2.IH"(4) [OF key(1) [symmetric] scalar(1-4) this r "2.prems"(4,5)]
    have "state_value s' k = (case map_of rest k of Some v \<Rightarrow> Some (observed k v)
        | None \<Rightarrow> state_value (snd (SetScalarRegister s raw_key v)) k)" .
    with state_value_scalar [OF scalar(4) key(2) "2.prems"(4), of s v] notin scalar show ?thesis
      by (cases "map_of rest k") (auto simp: observed_def)
  next
    case bytes
    have "apply_scalars nvec rest s error = (True, s', error')"
      using "2.prems"(1) key bytes by simp
    from "2.IH"(5) [OF refl _ _ _ _ _ this r "2.prems"(4,5)] bytes key ne show ?thesis by auto
  qed
  then show ?case .
qed simp

text \<open>The byte loop stores register by register and leaves the scalars alone.\<close>

lemma SetByteRegister_frame [simp]:
  "gpr (snd (SetByteRegister nvec s k v)) = gpr s" "rflag (snd (SetByteRegister nvec s k v)) = rflag s"
  "aflag (snd (SetByteRegister nvec s k v)) = aflag s" "sw (snd (SetByteRegister nvec s k v)) = sw s"
  "fxsave_swd (snd (SetByteRegister nvec s k v)) = fxsave_swd s"
  by (simp_all add: SetByteRegister_def split: option.splits ByteRegisterKind.splits)

lemma state_value_bytes [simp]: "state_value (snd (SetByteRegister nvec s b v)) k = state_value s k"
  by (simp add: state_value_def GetFlags_def GetX87Status_def GetScalarRegister_def)

lemma GetByteRegister_frame [simp]:
  "GetByteRegister nvec (SetFlags s f) k = GetByteRegister nvec s k"
  "GetByteRegister nvec (SetX87Status s f) k = GetByteRegister nvec s k"
  "GetByteRegister nvec (snd (SetScalarRegister s n v)) k = GetByteRegister nvec s k"
  by (simp_all add: GetByteRegister_def SetFlags_def SetX87Status_def SetScalarRegister_def Let_def
      split: option.splits ByteRegisterKind.splits)

lemma state_layout_frame [simp]:
  "state_layout nvec (SetFlags s f) = state_layout nvec s"
  "state_layout nvec (SetX87Status s f) = state_layout nvec s"
  "state_layout nvec (snd (SetScalarRegister s n v)) = state_layout nvec s"
  by (simp_all add: state_layout_def SetFlags_def SetX87Status_def SetScalarRegister_def Let_def
      split: option.splits)

lemma apply_scalars_frame:
  "apply_scalars nvec kvs s error = (ok, s', error') \<Longrightarrow>
     GetByteRegister nvec s' k = GetByteRegister nvec s k \<and> state_layout nvec s' = state_layout nvec s"
  by (induction nvec kvs s error rule: apply_scalars.induct) (auto simp: Let_def split: if_splits)

definition byte_keys :: "nat \<Rightarrow> (string \<times> u8 list) list \<Rightarrow> (string \<times> u8 list) list" where
  "byte_keys nvec kvs = filter (\<lambda>(k, v). \<not> special_key k \<and> k \<noteq> ''cr0'' \<and> \<not> IsScalarRegister k) kvs"

lemma apply_bytes_set_list:
  assumes "apply_bytes nvec kvs s error = (True, s', error')" "list_all canonical (map fst kvs)"
    and "state_layout nvec s"
  shows "s' = byte_regs.set_list nvec (byte_keys nvec kvs) s \<and>
    list_all (\<lambda>(k, v). byte_fits nvec k v) (byte_keys nvec kvs) \<and> state_value s' k = state_value s k"
  using assms
proof (induction nvec kvs s error rule: apply_bytes.induct)
  case (2 nvec raw_key bytes rest s error)
  have key: "CanonicalStateKey raw_key = raw_key" and r: "list_all canonical (map fst rest)"
    using "2.prems"(2) by (simp add: canonical_def) (use "2.prems"(2) in simp)
  show ?case
  proof (cases "raw_key = ''flag'' \<or> raw_key = ''cr0'' \<or> raw_key = ''x87status'' \<or> IsScalarRegister raw_key")
    case True
    then have "apply_bytes nvec rest s error = (True, s', error')" using "2.prems"(1) key by simp
    from "2.IH"(1) [OF key [symmetric] True this r "2.prems"(3)] True show ?thesis
      by (auto simp: byte_keys_def special_key_def)
  next
    case False
    with "2.prems"(1) key have byte: "IsByteRegister nvec raw_key"
      by (auto simp: Let_def split: if_splits)
    obtain ok s1 where set: "SetByteRegister nvec s raw_key bytes = (ok, s1)" by fastforce
    have ok: "ok" "apply_bytes nvec rest s1 error = (True, s', error')"
      using "2.prems"(1) key False byte set by (auto simp: Let_def split: if_splits)
    have fits: "byte_fits nvec raw_key bytes"
      using byte_regs.set_refuses [of nvec raw_key bytes s] set ok(1) by auto
    have "state_layout nvec s1"
      using byte_regs.set_layout [OF "2.prems"(3), of raw_key bytes] set by simp
    from "2.IH"(2) [OF key [symmetric] False byte refl set [symmetric] _ ok(2) r this] ok(1) set fits False
      state_value_bytes [of nvec s raw_key bytes k]
    show ?thesis
      by (auto simp: byte_keys_def byte_regs.set_list_def special_key_def)
  qed
qed (simp add: byte_keys_def byte_regs.set_list_def)

lemma ApplyInitialState_values:
  assumes "ApplyInitialState nvec s sc by error = (True, s', error')" "state_layout nvec s"
    and "list_all canonical (map fst sc)" "list_all canonical (map fst by)" "distinct (map fst sc)"
    and "canonical k" "special_key k \<or> IsScalarRegister k"
  shows "state_value s' k = (case map_of sc k of Some v \<Rightarrow> Some (observed k v) | None \<Rightarrow> state_value s k)"
proof -
  from assms(1) obtain s1 e1 where s1: "apply_scalars nvec sc s error = (True, s1, e1)"
    "apply_bytes nvec by s1 e1 = (True, s', error')"
    by (auto simp: ApplyInitialState_def split: prod.splits if_splits)
  with apply_scalars_frame [OF s1(1)] assms(2) have "state_layout nvec s1" by simp
  with apply_bytes_set_list [OF s1(2) assms(4)] have "state_value s' k = state_value s1 k" by blast
  with apply_scalars_values [OF s1(1) assms(3,5-7)] show ?thesis by simp
qed

lemma ApplyInitialState_bytes:
  assumes "ApplyInitialState nvec s sc by error = (True, s', error')" "state_layout nvec s"
    and "list_all canonical (map fst by)" "distinct (map (\<lambda>kv. byte_slot nvec (fst kv)) (byte_keys nvec by))"
    and "(k, v) \<in> set (byte_keys nvec by)"
  shows "GetByteRegister nvec s' k = Some v"
proof -
  from assms(1) obtain s1 e1 where s1: "apply_scalars nvec sc s error = (True, s1, e1)"
    "apply_bytes nvec by s1 e1 = (True, s', error')"
    by (auto simp: ApplyInitialState_def split: prod.splits if_splits)
  with apply_scalars_frame [OF s1(1)] assms(2) have layout: "state_layout nvec s1" by simp
  from apply_bytes_set_list [OF s1(2) assms(3) layout]
    byte_regs.set_list_get [OF layout assms(4) _ assms(5)]
  show ?thesis by simp
qed

text \<open>A snapshot reads every requested key.\<close>

lemma SnapshotState_inv: "omap_inv (SnapshotState s keys)"
proof -
  have "omap_inv m \<Longrightarrow> omap_inv (fold (SnapshotState_step s) keys m)" for m
    by (induction keys arbitrary: m)
       (auto simp: SnapshotState_step_def Let_def omap.inv_put split: option.splits)
  then show ?thesis by (simp add: SnapshotState_def)
qed

lemma SnapshotState_find:
  "map_of (SnapshotState s keys) k =
     (if k \<in> CanonicalStateKey ` set keys then state_value s k else None)"
proof -
  have step: "SnapshotState_step s k m =
      (case state_value s (CanonicalStateKey k) of Some v \<Rightarrow> omap_put (CanonicalStateKey k) v m | None \<Rightarrow> m)" for k m
    by (simp add: SnapshotState_step_def state_value_def Let_def)
  have "omap_inv m \<Longrightarrow> map_of (fold (SnapshotState_step s) keys m) k =
      (if k \<in> CanonicalStateKey ` set keys \<and> state_value s k \<noteq> None then state_value s k else map_of m k)" for m
  proof (induction keys arbitrary: m)
    case (Cons key keys)
    then show ?case
      by (cases "state_value s (CanonicalStateKey key)")
         (auto simp: step omap.inv_put omap.find_put)
  qed simp
  from this [of "[]"] show ?thesis by (simp add: SnapshotState_def)
qed

lemma SnapshotBytes_find:
  "map_of (SnapshotBytes nvec s keys) k =
     (if k \<in> CanonicalStateKey ` set keys then GetByteRegister nvec s k else None)"
proof -
  have "omap_inv m \<Longrightarrow> map_of (fold (SnapshotBytes_step nvec s) keys m) k =
      (if k \<in> CanonicalStateKey ` set keys \<and> GetByteRegister nvec s k \<noteq> None
       then GetByteRegister nvec s k else map_of m k)" for m
  proof (induction keys arbitrary: m)
    case (Cons key keys)
    then show ?case
      by (cases "GetByteRegister nvec s (CanonicalStateKey key)")
         (auto simp: SnapshotBytes_step_def Let_def omap.inv_put omap.find_put)
  qed simp
  from this [of "[]"] show ?thesis by (simp add: SnapshotBytes_def)
qed

lemma SnapshotBytes_inv: "omap_inv (SnapshotBytes nvec s keys)"
proof -
  have "omap_inv m \<Longrightarrow> omap_inv (fold (SnapshotBytes_step nvec s) keys m)" for m
    by (induction keys arbitrary: m)
       (auto simp: SnapshotBytes_step_def Let_def omap.inv_put split: option.splits)
  then show ?thesis by (simp add: SnapshotBytes_def)
qed

section \<open>Properties\<close>

text \<open>
  C35. Flags and x87 status survive the way into and out of Remill's state: reading the flags
  after setting them gives the same word with the always-one bit 1 set, although seven of the
  flags live in a second place; reading the x87 status gives the word without its bits 7 and 15.
\<close>

theorem flags_and_status_roundtrip:
  "GetFlags (SetFlags s flags) = flags OR 2 \<and>
   GetX87Status (SetX87Status s status) = status AND 0x7F7F \<and>
   GetFlags (SetX87Status (SetFlags s flags) status) = flags OR 2 \<and>
   GetX87Status (SetFlags (SetX87Status s status) flags) = status AND 0x7F7F"
  by (simp add: GetFlags_SetFlags GetX87Status_SetX87Status)

text \<open>
  C36. Byte registers: a value of the register's width is accepted and read back unchanged,
  every register of another kind or index keeps its value, the scalar registers are untouched,
  the arrays keep their shape, and a value of another width or a name that is not a byte
  register changes nothing and is reported.
\<close>

theorem byte_register_file:
  assumes "state_layout nvec s"
  shows "case SetByteRegister nvec s n bytes of (ok, s') \<Rightarrow>
    (ok \<longleftrightarrow> byte_fits nvec n bytes) \<and> state_layout nvec s' \<and>
    (if ok then GetByteRegister nvec s' n = Some bytes \<and>
        (byte_slot nvec m \<noteq> byte_slot nvec n \<longrightarrow> GetByteRegister nvec s' m = GetByteRegister nvec s m) \<and>
        GetScalarRegister s' m = GetScalarRegister s m
     else s' = s)"
proof (cases "byte_fits nvec n bytes")
  case True
  obtain ok s' where set: "SetByteRegister nvec s n bytes = (ok, s')" by fastforce
  have "ok" using byte_regs.set_accepts [OF assms True] set by simp
  moreover have "state_layout nvec s'" using byte_regs.set_layout [OF assms, of n bytes] set by simp
  moreover have "GetByteRegister nvec s' n = Some bytes"
    using byte_regs.get_set_same [OF assms True] set by simp
  moreover have "byte_slot nvec m \<noteq> byte_slot nvec n \<longrightarrow> GetByteRegister nvec s' m = GetByteRegister nvec s m"
    using byte_regs.get_set_other [OF assms True, of m] set by simp
  moreover have "GetScalarRegister s' m = GetScalarRegister s m"
    using SetByteRegister_frame(1) [of nvec s n bytes] set by (simp add: GetScalarRegister_def)
  ultimately show ?thesis using True set by simp
next
  case False
  then show ?thesis using byte_regs.set_refuses [OF False, of s] assms by simp
qed

definition demo_state :: State where
  "demo_state = ResetState
     \<lparr>gpr = (\<lambda>_. 1), rflag = 1, aflag = \<lparr>cf = 1, pf = 1, af = 1, zf = 1, sf = 1, df = 1, oflow = 1\<rparr>,
      fxsave_swd = 1, fsave_swd = 1,
      sw = \<lparr>sw_ie = 1, sw_de = 0, sw_ze = 0, sw_oe = 0, sw_ue = 0, sw_pe = 0, sw_sf = 0, sw_c0 = 0,
        sw_c1 = 0, sw_c2 = 0, sw_c3 = 0\<rparr>,
      vec = replicate 32 (replicate 64 9), mmx = replicate 8 (replicate 8 9), st = replicate 8 (replicate 16 9),
      addr_to_load = 1\<rparr>"

lemma demo_layout: "state_layout 32 demo_state"
  by (simp add: state_layout_def demo_state_def ResetState_def SetFlags_def list_all_iff)

theorem byte_register_file_witness:
  "case SetByteRegister 32 demo_state ''mm3'' [1, 2, 3, 4, 5, 6, 7, 8] of (ok, s') \<Rightarrow>
     ok \<and> GetByteRegister 32 s' ''mm3'' = Some [1, 2, 3, 4, 5, 6, 7, 8] \<and>
     GetByteRegister 32 s' ''mm4'' = GetByteRegister 32 demo_state ''mm4''"
proof -
  have "byte_fits 32 ''mm3'' [1, 2, 3, 4, 5, 6, 7, 8]" "byte_slot 32 ''mm4'' \<noteq> byte_slot 32 ''mm3''"
    by code_simp+
  then show ?thesis
    using byte_register_file [OF demo_layout, of "''mm3''" "[1, 2, 3, 4, 5, 6, 7, 8]" "''mm4''"]
    by (auto split: prod.splits)
qed

text \<open>
  C8. A row's registers reach the state that is executed and are what a snapshot reports:
  when \<open>ApplyInitialState\<close> accepts maps with canonical keys, the snapshot of any keys shows
  for each general register, \<open>flag\<close> and \<open>x87status\<close> that was asked for the value given for it
  (up to the fixed bits of the two status words), and its old value when none was given; and
  each byte register given under a slot of its own reports its bytes.
\<close>

theorem applied_state_is_observed:
  assumes "ApplyInitialState nvec s sc by error = (True, s', error')" "state_layout nvec s"
    and "list_all canonical (map fst sc)" "list_all canonical (map fst by)" "omap_inv sc"
  shows "(canonical k \<and> k \<in> CanonicalStateKey ` set keys \<and> (special_key k \<or> IsScalarRegister k) \<longrightarrow>
      map_of (SnapshotState s' keys) k =
        (case map_of sc k of Some v \<Rightarrow> Some (observed k v) | None \<Rightarrow> state_value s k)) \<and>
    (distinct (map (\<lambda>kv. byte_slot nvec (fst kv)) (byte_keys nvec by)) \<and> (b, bytes) \<in> set (byte_keys nvec by) \<and>
       b \<in> CanonicalStateKey ` set keys \<longrightarrow>
      map_of (SnapshotBytes nvec s' keys) b = Some bytes)"
proof -
  have "distinct (map fst sc)" using assms(5) by (simp add: omap_inv_def strict_sorted_iff)
  then show ?thesis
    using ApplyInitialState_values [OF assms(1-4)] ApplyInitialState_bytes [OF assms(1,2,4)]
    by (auto simp: SnapshotState_find SnapshotBytes_find)
qed

theorem applied_state_is_observed_witness:
  "\<exists>s' e. ApplyInitialState 32 demo_state [(''flag'', 0x41), (''rax'', 7)] [(''mm3'', [1, 2, 3, 4, 5, 6, 7, 8])] (Some []) = (True, s', e) \<and>
     map_of (SnapshotState s' [''RAX'', ''rflags'']) ''flag'' = Some 0x43 \<and>
     map_of (SnapshotBytes 32 s' [''mm3'']) ''mm3'' = Some [1, 2, 3, 4, 5, 6, 7, 8]"
proof -
  let ?sc = "[(''flag'', 0x41), (''rax'', 7)] :: (string, u64) omap"
  let ?by = "[(''mm3'', [1, 2, 3, 4, 5, 6, 7, 8])] :: (string, u8 list) omap"
  have "fst (ApplyInitialState 32 demo_state ?sc ?by (Some []))" by code_simp
  then obtain s' e where app: "ApplyInitialState 32 demo_state ?sc ?by (Some []) = (True, s', e)"
    by (cases "ApplyInitialState 32 demo_state ?sc ?by (Some [])") (simp only: fst_conv simp_thms)
  have c: "list_all canonical (map fst ?sc)" "list_all canonical (map fst ?by)" "omap_inv ?sc"
    by code_simp+
  note spec = applied_state_is_observed [OF app demo_layout c]
  have "canonical ''flag'' \<and> ''flag'' \<in> CanonicalStateKey ` set [''RAX'', ''rflags''] \<and>
      (special_key ''flag'' \<or> IsScalarRegister ''flag'')"
    "distinct (map (\<lambda>kv. byte_slot 32 (fst kv)) (byte_keys 32 ?by)) \<and>
      (''mm3'', [1, 2, 3, 4, 5, 6, 7, 8]) \<in> set (byte_keys 32 ?by) \<and>
      ''mm3'' \<in> CanonicalStateKey ` set [''mm3'']"
    by code_simp+
  with spec have "map_of (SnapshotState s' [''RAX'', ''rflags'']) ''flag'' =
      (case map_of ?sc ''flag'' of Some v \<Rightarrow> Some (observed ''flag'' v) | None \<Rightarrow> state_value demo_state ''flag'')"
    "map_of (SnapshotBytes 32 s' [''mm3'']) ''mm3'' = Some [1, 2, 3, 4, 5, 6, 7, 8]"
    by blast+
  moreover have "map_of ?sc ''flag'' = Some 0x41" "observed ''flag'' 0x41 = 0x43" by code_simp+
  ultimately show ?thesis using app by (intro exI conjI) simp_all
qed

end
