(* ===== verification/Comparator.thy ===== *)
theory Comparator
  imports Xed_Metadata State_Bridge
begin

text \<open>
  \<^verbatim>\<open>src/src/comparator.hpp\<close> and \<^verbatim>\<open>src/src/comparator.cpp\<close>: the comparison of an execution
  with its row, and the text of a mismatch. \<open>meets_expectation\<close> is the declarative reading
  of a pass, and the lists of mismatches are shown to report exactly what violates it.
\<close>

record FieldMismatch =
  mm_field :: string
  mm_expected :: u64
  mm_actual :: u64
  mm_mask :: u64
  mm_detail :: string

record ComparisonResult =
  passed :: bool
  mismatches :: "FieldMismatch list"

definition field_mismatch :: "string \<Rightarrow> u64 \<Rightarrow> u64 \<Rightarrow> u64 \<Rightarrow> string \<Rightarrow> FieldMismatch" where
  "field_mismatch f e a m d = \<lparr>mm_field = f, mm_expected = e, mm_actual = a, mm_mask = m, mm_detail = d\<rparr>"

fun OutcomeClassName :: "OutcomeClass \<Rightarrow> string" where
  "OutcomeClassName Normal = ''normal''"
| "OutcomeClassName Exception = ''exception''"
| "OutcomeClassName Unsupported = ''unsupported''"
| "OutcomeClassName BackendError = ''backend_error''"

definition AddMismatch :: "FieldMismatch \<Rightarrow> ComparisonResult \<Rightarrow> ComparisonResult" where
  "AddMismatch m c = c\<lparr>passed := False, mismatches := mismatches c @ [m]\<rparr>"

definition BytesToHex :: "u8 list \<Rightarrow> string" where
  "BytesToHex bytes = concat (map hex_byte bytes)"

definition FirstBytesAsLittleEndian :: "u8 list \<Rightarrow> u64" where
  "FirstBytesAsLittleEndian bytes = le_loop 0 (take (min (length bytes) 8) bytes) 0"

section \<open>Shift and rotate counts\<close>

definition InitialFlagsProvided :: "ExpectationRow \<Rightarrow> bool" where
  "InitialFlagsProvided row \<longleftrightarrow> map_of (initial_state row) ''flag'' \<noteq> None"

definition ParseCountOperand :: "ExpectationRow \<Rightarrow> u64 option" where
  "ParseCountOperand row =
     (let instruction = ToLower (row_instruction row) in
      case str_rfind instruction CHR '','' of
        None \<Rightarrow> None
      | Some comma \<Rightarrow>
          let count_text = Trim (drop (comma + 1) instruction) in
          if count_text = ''cl'' then
            (case map_of (initial_state row) ''rcx'' of Some v \<Rightarrow> Some (v AND 0xFF) | None \<Rightarrow> None)
          else (case stoull count_text 0 of
                  Inr (v, _) \<Rightarrow> Some v
                | Inl _ \<Rightarrow> None))"

definition MaskedCount :: "ExpectationRow \<Rightarrow> XedMetadata \<Rightarrow> u64 option" where
  "MaskedCount row metadata =
     (if operand_width metadata = 0 then None
      else case ParseCountOperand row of
        None \<Rightarrow> None
      | Some raw_count \<Rightarrow> Some (raw_count AND (if operand_width metadata = 64 then 0x3F else 0x1F)))"

definition RotateEffectiveCount :: "ExpectationRow \<Rightarrow> XedMetadata \<Rightarrow> u64 option" where
  "RotateEffectiveCount row metadata =
     (case MaskedCount row metadata of
        None \<Rightarrow> None
      | Some masked_count \<Rightarrow>
          if operand_width metadata = 0 then None
          else if iclass metadata = ''ROL'' \<or> iclass metadata = ''ROR''
          then Some (masked_count mod ucast (operand_width metadata))
          else if iclass metadata = ''RCL'' \<or> iclass metadata = ''RCR''
          then if operand_width metadata < 32
               then Some (masked_count mod ucast (operand_width metadata + 1))
               else Some masked_count
          else None)"

definition DynamicUndefinedFlagMask :: "ExpectationRow \<Rightarrow> XedMetadata \<Rightarrow> u32" where
  "DynamicUndefinedFlagMask row metadata =
     (if operand_width metadata = 0 then 0
      else if iclass metadata = ''SHL'' \<or> iclass metadata = ''SAL'' \<or>
              iclass metadata = ''SHR'' \<or> iclass metadata = ''SAR''
      then (case MaskedCount row metadata of
              None \<Rightarrow> 0
            | Some effective_count \<Rightarrow>
                if effective_count = 0 \<and> \<not> InitialFlagsProvided row
                then comparable_written_flags metadata
                else if ucast (operand_width metadata) \<le> effective_count then kFlagCF
                else 0)
      else if iclass metadata = ''ROL'' \<or> iclass metadata = ''ROR'' \<or>
              iclass metadata = ''RCL'' \<or> iclass metadata = ''RCR''
      then if RotateEffectiveCount row metadata = Some 0 \<and> \<not> InitialFlagsProvided row
           then comparable_written_flags metadata else 0
      else 0)"

section \<open>The comparison\<close>

definition care_mask :: "ExpectationRow \<Rightarrow> XedMetadata \<Rightarrow> u64" where
  "care_mask row metadata =
     ucast (comparable_written_flags metadata AND kUserRFlagsMask AND
            NOT (DynamicUndefinedFlagMask row metadata))"

text \<open>The bodies of the three loops.\<close>

definition compare_scalar ::
  "nat \<Rightarrow> ExpectationRow \<Rightarrow> XedMetadata \<Rightarrow> ExecutionResult \<Rightarrow> string \<times> u64 \<Rightarrow> ComparisonResult \<Rightarrow> ComparisonResult" where
  "compare_scalar nvec row metadata result entry comparison =
     (let (raw_key, expected) = entry; key = CanonicalStateKey raw_key in
      if IsByteRegister nvec key then comparison
      else case map_of (final_state result) key of
        None \<Rightarrow> AddMismatch (field_mismatch key expected 0 0 ''actual state missing'') comparison
      | Some actual \<Rightarrow>
          if key = ''flag'' then
            if care_mask row metadata = 0 then comparison
            else if expected AND care_mask row metadata \<noteq> actual AND care_mask row metadata
            then AddMismatch (field_mismatch key expected actual (care_mask row metadata) ''flag mismatch'') comparison
            else comparison
          else if expected \<noteq> actual
          then AddMismatch (field_mismatch key expected actual (- 1) ''scalar mismatch'') comparison
          else comparison)"

definition compare_bytes ::
  "nat \<Rightarrow> ExecutionResult \<Rightarrow> string \<times> u8 list \<Rightarrow> ComparisonResult \<Rightarrow> ComparisonResult" where
  "compare_bytes nvec result entry comparison =
     (let (raw_key, expected_bytes) = entry; key = CanonicalStateKey raw_key in
      if \<not> IsByteRegister nvec key then comparison
      else case map_of (final_bytes result) key of
        None \<Rightarrow> AddMismatch (field_mismatch key (FirstBytesAsLittleEndian expected_bytes) 0 0
                    ''actual byte state missing'') comparison
      | Some actual \<Rightarrow>
          if actual \<noteq> expected_bytes
          then AddMismatch (field_mismatch key (FirstBytesAsLittleEndian expected_bytes)
                 (FirstBytesAsLittleEndian actual) 0
                 (''byte register mismatch expected=#'' @ BytesToHex expected_bytes @ '' actual=#'' @
                  BytesToHex actual)) comparison
          else comparison)"

fun memory_bytes_match :: "nat \<Rightarrow> nat \<Rightarrow> MemoryExpectation \<Rightarrow> MemoryExpectation \<Rightarrow> bool" where
  "memory_bytes_match 0 byte_index expected actual = True"
| "memory_bytes_match (Suc n) byte_index expected actual =
     (let m = (if byte_index < length (exp_mask expected) then exp_mask expected ! byte_index else 0xFF) in
      if exp_bytes expected ! byte_index AND m \<noteq> exp_bytes actual ! byte_index AND m then False
      else memory_bytes_match n (Suc byte_index) expected actual)"

definition compare_memory ::
  "ExpectationRow \<Rightarrow> ExecutionResult \<Rightarrow> nat \<Rightarrow> ComparisonResult \<Rightarrow> ComparisonResult" where
  "compare_memory row result i comparison =
     (let expected = expected_memory row ! i in
      if length (final_memory result) \<le> i
      then AddMismatch (field_mismatch ''mem'' 0 0 0 ''actual memory missing'') comparison
      else let actual = final_memory result ! i in
        if exp_address actual \<noteq> exp_address expected \<or> length (exp_bytes actual) \<noteq> length (exp_bytes expected)
        then AddMismatch (field_mismatch ''mem'' (exp_address expected) (exp_address actual) 0
               ''memory address/size mismatch'') comparison
        else if \<not> memory_bytes_match (length (exp_bytes expected)) 0 expected actual
        then AddMismatch (field_mismatch ''mem'' (FirstBytesAsLittleEndian (exp_bytes expected))
               (FirstBytesAsLittleEndian (exp_bytes actual)) 0
               (''memory mismatch at 0x'' @ hex_upper (exp_address expected) @ '' expected=#'' @
                BytesToHex (exp_bytes expected) @ '' actual=#'' @ BytesToHex (exp_bytes actual))) comparison
        else comparison)"

definition CompareExecutionResult ::
  "nat \<Rightarrow> ExpectationRow \<Rightarrow> XedMetadata \<Rightarrow> ExecutionResult \<Rightarrow> ComparisonResult" where
  "CompareExecutionResult nvec row metadata result =
     (let comparison = \<lparr>passed = True, mismatches = []\<rparr> in
      case expected_exception_kind row of
        Some kind \<Rightarrow>
          if outcome_class result \<noteq> Exception
          then AddMismatch (field_mismatch ''exception'' 0 0 0
                 (''expected exception '' @ kind @ '', got '' @ OutcomeClassName (outcome_class result))) comparison
          else (case exception_detail result of
                  Some detail \<Rightarrow>
                    if detail \<noteq> kind
                    then AddMismatch (field_mismatch ''exception'' 0 0 0
                           (''expected exception '' @ kind @ '', got '' @ detail)) comparison
                    else comparison
                | None \<Rightarrow> comparison)
      | None \<Rightarrow>
          if outcome_class result \<noteq> Normal
          then AddMismatch (field_mismatch ''outcome'' 0 0 0
                 (''expected normal, got '' @ OutcomeClassName (outcome_class result) @ '': '' @
                  (case backend_error result of Some e \<Rightarrow> e
                   | None \<Rightarrow> (case exception_detail result of Some d \<Rightarrow> d | None \<Rightarrow> [])))) comparison
          else
            let comparison = (case expected_final_state row of
                  Some state \<Rightarrow> fold (compare_scalar nvec row metadata result) state comparison
                | None \<Rightarrow> comparison);
                comparison = fold (compare_bytes nvec result) (expected_final_bytes row) comparison
            in fold (compare_memory row result) [0..<length (expected_memory row)] comparison)"

definition FormatMismatch :: "ExpectationRow \<Rightarrow> FieldMismatch \<Rightarrow> string" where
  "FormatMismatch row mismatch =
     ''case='' @ to_string (test_case_id row) @ '' instr='' @ to_string (row_instruction_id row) @
     '' state='' @ to_string (row_state_index row) @ '' opcode='' @ row_opcode row @ '' '' @ [CHR 0x22] @
     row_instruction row @ [CHR 0x22] @ '' field='' @ mm_field mismatch @ '' expected=0x'' @
     hex_upper (mm_expected mismatch) @ '' actual=0x'' @ hex_upper (mm_actual mismatch) @
     (if mm_mask mismatch \<noteq> - 1
      then '' mask=0x'' @ hex_upper (mm_mask mismatch) @ '' flags='' @ FormatFlagNames (ucast (mm_mask mismatch))
      else []) @
     '' detail='' @ mm_detail mismatch"

lemma unat_ucast_up:
  fixes x :: "'a::len word"
  assumes "LENGTH('a) \<le> LENGTH('b::len)"
  shows "unat (ucast x :: 'b word) = unat x"
proof -
  have "unat x < 2 ^ LENGTH('a)" by (rule unsigned_less)
  also have "\<dots> \<le> 2 ^ LENGTH('b)" using assms by (intro power_increasing) auto
  finally show ?thesis by (simp add: unsigned_ucast_eq take_bit_nat_eq_self)
qed

section \<open>What a pass means\<close>

text \<open>The declarative reading of the three loops: an expected entry is met by the result.\<close>

definition scalar_met :: "nat \<Rightarrow> ExpectationRow \<Rightarrow> XedMetadata \<Rightarrow> ExecutionResult \<Rightarrow> string \<times> u64 \<Rightarrow> bool" where
  "scalar_met nvec row metadata result entry \<longleftrightarrow>
     (let key = CanonicalStateKey (fst entry); expected = snd entry in
      IsByteRegister nvec key \<or>
      (\<exists>actual. map_of (final_state result) key = Some actual \<and>
         (if key = ''flag'' then (expected XOR actual) AND care_mask row metadata = 0
          else actual = expected)))"

definition bytes_met :: "nat \<Rightarrow> ExecutionResult \<Rightarrow> string \<times> u8 list \<Rightarrow> bool" where
  "bytes_met nvec result entry \<longleftrightarrow>
     (let key = CanonicalStateKey (fst entry) in
      IsByteRegister nvec key \<longrightarrow> map_of (final_bytes result) key = Some (snd entry))"

definition memory_agrees :: "MemoryExpectation \<Rightarrow> MemoryExpectation \<Rightarrow> bool" where
  "memory_agrees expected actual \<longleftrightarrow>
     exp_address actual = exp_address expected \<and> length (exp_bytes actual) = length (exp_bytes expected) \<and>
     (\<forall>i < length (exp_bytes expected).
        (exp_bytes expected ! i XOR exp_bytes actual ! i) AND
          (if i < length (exp_mask expected) then exp_mask expected ! i else - 1) = 0)"

definition memory_met :: "ExpectationRow \<Rightarrow> ExecutionResult \<Rightarrow> nat \<Rightarrow> bool" where
  "memory_met row result i \<longleftrightarrow>
     i < length (final_memory result) \<and> memory_agrees (expected_memory row ! i) (final_memory result ! i)"

definition expected_scalars :: "ExpectationRow \<Rightarrow> (string \<times> u64) list" where
  "expected_scalars row = (case expected_final_state row of Some entries \<Rightarrow> entries | None \<Rightarrow> [])"

definition meets_expectation :: "nat \<Rightarrow> ExpectationRow \<Rightarrow> XedMetadata \<Rightarrow> ExecutionResult \<Rightarrow> bool" where
  "meets_expectation nvec row metadata result \<longleftrightarrow>
     (case expected_exception_kind row of
        Some kind \<Rightarrow> outcome_class result = Exception \<and> exception_detail result \<in> {None, Some kind}
      | None \<Rightarrow> outcome_class result = Normal \<and>
          list_all (scalar_met nvec row metadata result) (expected_scalars row) \<and>
          list_all (bytes_met nvec result) (expected_final_bytes row) \<and>
          list_all (memory_met row result) [0..<length (expected_memory row)])"

text \<open>A loop whose body reports the entries that fail a test.\<close>

definition reports :: "('e \<Rightarrow> ComparisonResult \<Rightarrow> ComparisonResult) \<Rightarrow> ('e \<Rightarrow> bool) \<Rightarrow> ('e \<Rightarrow> string) \<Rightarrow> bool" where
  "reports body ok field \<longleftrightarrow>
     (\<forall>e. (ok e \<longrightarrow> (\<forall>c. body e c = c)) \<and>
          (\<not> ok e \<longrightarrow> (\<exists>m. mm_field m = field e \<and> (\<forall>c. body e c = AddMismatch m c))))"

lemma fold_reports:
  assumes "reports body ok field"
  shows "passed (fold body es c) = (passed c \<and> list_all ok es)"
    and "map mm_field (mismatches (fold body es c)) =
      map mm_field (mismatches c) @ map field (filter (\<lambda>e. \<not> ok e) es)"
proof -
  have "passed (fold body es c) = (passed c \<and> list_all ok es) \<and>
    map mm_field (mismatches (fold body es c)) =
      map mm_field (mismatches c) @ map field (filter (\<lambda>e. \<not> ok e) es)"
  proof (induction es arbitrary: c)
    case (Cons e es)
    show ?case
    proof (cases "ok e")
      case True
      with assms have "body e c = c" by (auto simp: reports_def)
      with Cons True show ?thesis by simp
    next
      case False
      with assms obtain m where "mm_field m = field e" "body e c = AddMismatch m c"
        unfolding reports_def by blast
      with Cons [of "body e c"] False show ?thesis by (simp add: AddMismatch_def)
    qed
  qed simp
  then show "passed (fold body es c) = (passed c \<and> list_all ok es)"
    and "map mm_field (mismatches (fold body es c)) =
      map mm_field (mismatches c) @ map field (filter (\<lambda>e. \<not> ok e) es)"
    by auto
qed

lemma and_eq_iff_xor: "(a AND m = b AND m) = ((a XOR b) AND m = (0 :: 'a::len word))"
  by (auto simp: bit_eq_iff bit_and_iff bit_xor_iff)

lemma mm_field_field_mismatch [simp]: "mm_field (field_mismatch f e a m d) = f"
  by (simp add: field_mismatch_def)

lemma AddMismatch_reported:
  "mm_field m = f \<Longrightarrow> \<exists>m'. mm_field m' = f \<and> (\<forall>c. AddMismatch m c = AddMismatch m' c)"
  by blast

lemma compare_scalar_reports:
  "reports (compare_scalar nvec row metadata result) (scalar_met nvec row metadata result)
     (\<lambda>e. CanonicalStateKey (fst e))"
  unfolding reports_def
proof (intro allI conjI impI)
  fix e :: "string \<times> u64" and c
  assume "scalar_met nvec row metadata result e"
  then show "compare_scalar nvec row metadata result e c = c"
    by (auto simp: compare_scalar_def scalar_met_def Let_def and_eq_iff_xor split: prod.splits)
next
  fix e :: "string \<times> u64"
  assume "\<not> scalar_met nvec row metadata result e"
  then show "\<exists>m. mm_field m = CanonicalStateKey (fst e) \<and>
      (\<forall>c. compare_scalar nvec row metadata result e c = AddMismatch m c)"
    by (cases e; cases "map_of (final_state result) (CanonicalStateKey (fst e))";
        cases "CanonicalStateKey (fst e) = ''flag''"; cases "care_mask row metadata = 0")
       (simp_all add: compare_scalar_def scalar_met_def Let_def and_eq_iff_xor AddMismatch_reported)
qed

lemma compare_bytes_reports:
  "reports (compare_bytes nvec result) (bytes_met nvec result) (\<lambda>e. CanonicalStateKey (fst e))"
  unfolding reports_def
proof (intro allI conjI impI)
  fix e :: "string \<times> u8 list" and c
  assume "bytes_met nvec result e"
  then show "compare_bytes nvec result e c = c"
    by (auto simp: compare_bytes_def bytes_met_def Let_def split: prod.splits)
next
  fix e :: "string \<times> u8 list"
  assume "\<not> bytes_met nvec result e"
  then show "\<exists>m. mm_field m = CanonicalStateKey (fst e) \<and> (\<forall>c. compare_bytes nvec result e c = AddMismatch m c)"
    by (cases e; cases "map_of (final_bytes result) (CanonicalStateKey (fst e))")
       (simp_all add: compare_bytes_def bytes_met_def Let_def AddMismatch_reported)
qed

lemma memory_bytes_match_iff:
  "memory_bytes_match n k expected actual \<longleftrightarrow>
     (\<forall>i < n. (exp_bytes expected ! (k + i) XOR exp_bytes actual ! (k + i)) AND
        (if k + i < length (exp_mask expected) then exp_mask expected ! (k + i) else - 1) = 0)"
proof (induction n arbitrary: k)
  case (Suc n)
  have ff: "(0xFF :: u8) = - 1" by simp
  show ?case
    unfolding memory_bytes_match.simps Let_def ff and_eq_iff_xor Suc.IH
    by (auto simp: less_Suc_eq_0_disj)
qed simp

lemma memory_bytes_match_all:
  "memory_bytes_match n 0 expected actual \<longleftrightarrow>
     (\<forall>i < n. (exp_bytes expected ! i XOR exp_bytes actual ! i) AND
        (if i < length (exp_mask expected) then exp_mask expected ! i else - 1) = 0)"
  unfolding memory_bytes_match_iff add_0 ..

lemma compare_memory_reports:
  "reports (compare_memory row result) (memory_met row result) (\<lambda>_. ''mem'')"
  unfolding reports_def
proof (intro allI conjI impI)
  fix i c
  assume "memory_met row result i"
  then have "i < length (final_memory result)"
    "exp_address (final_memory result ! i) = exp_address (expected_memory row ! i)"
    "length (exp_bytes (final_memory result ! i)) = length (exp_bytes (expected_memory row ! i))"
    "memory_bytes_match (length (exp_bytes (expected_memory row ! i))) 0 (expected_memory row ! i)
       (final_memory result ! i)"
    by (simp_all add: memory_met_def memory_agrees_def memory_bytes_match_all)
  then show "compare_memory row result i c = c"
    by (simp add: compare_memory_def Let_def)
next
  fix i
  assume unmet: "\<not> memory_met row result i"
  let ?e = "expected_memory row ! i" and ?a = "final_memory result ! i"
  show "\<exists>m. mm_field m = ''mem'' \<and> (\<forall>c. compare_memory row result i c = AddMismatch m c)"
  proof (cases "length (final_memory result) \<le> i \<or> exp_address ?a \<noteq> exp_address ?e \<or>
      length (exp_bytes ?a) \<noteq> length (exp_bytes ?e)")
    case True
    then show ?thesis
      by (cases "length (final_memory result) \<le> i") (simp_all add: compare_memory_def Let_def AddMismatch_reported)
  next
    case False
    with unmet have "\<not> memory_bytes_match (length (exp_bytes ?e)) 0 ?e ?a"
      by (simp add: memory_met_def memory_agrees_def memory_bytes_match_all)
    with False show ?thesis by (simp add: compare_memory_def Let_def AddMismatch_reported)
  qed
qed

lemmas comparison_loops = fold_reports [OF compare_scalar_reports] fold_reports [OF compare_bytes_reports]
  fold_reports [OF compare_memory_reports]

lemma passed_AddMismatch [simp]: "passed (AddMismatch m c) = False"
  "mismatches (AddMismatch m c) = mismatches c @ [m]"
  by (simp_all add: AddMismatch_def)

lemma CompareExecutionResult_normal:
  assumes "expected_exception_kind row = None" "outcome_class result = Normal"
  shows "CompareExecutionResult nvec row metadata result =
    fold (compare_memory row result) [0..<length (expected_memory row)]
      (fold (compare_bytes nvec result) (expected_final_bytes row)
        (fold (compare_scalar nvec row metadata result) (expected_scalars row)
          \<lparr>passed = True, mismatches = []\<rparr>))"
  using assms by (cases "expected_final_state row") (simp_all add: CompareExecutionResult_def expected_scalars_def)

lemma passed_iff_meets:
  "passed (CompareExecutionResult nvec row metadata result) \<longleftrightarrow> meets_expectation nvec row metadata result"
proof (cases "expected_exception_kind row")
  case (Some kind)
  then show ?thesis
    by (cases "exception_detail result") (auto simp: CompareExecutionResult_def meets_expectation_def Let_def)
next
  case None
  show ?thesis
  proof (cases "outcome_class result = Normal")
    case True
    then show ?thesis
      using None unfolding CompareExecutionResult_normal [OF None True]
      by (simp add: comparison_loops meets_expectation_def expected_scalars_def)
  next
    case False
    with None show ?thesis by (simp add: CompareExecutionResult_def meets_expectation_def Let_def)
  qed
qed



section \<open>Undefined flags\<close>

lemma scalar_met_flag_agree:
  assumes "CanonicalStateKey k = ''flag''"
    and "a AND care_mask row metadata = b AND care_mask row metadata"
    and "map_of (final_state r1) ''flag'' = Some a" "map_of (final_state r2) ''flag'' = Some b"
  shows "scalar_met nvec row metadata r1 (k, e) = scalar_met nvec row metadata r2 (k, e)"
  using assms and_eq_iff_xor [of e "care_mask row metadata" a] and_eq_iff_xor [of e "care_mask row metadata" b]
  by (simp add: scalar_met_def)



section \<open>Witnesses\<close>

definition demo_row :: ExpectationRow where
  "demo_row = default_row\<lparr>row_instruction := ''shl al, 9'',
     expected_final_state := Some [(''flag'', 1), (''rax'', 5)],
     expected_memory := [\<lparr>exp_address = 16, exp_bytes = [1, 2], exp_mask = [0xFF, 0x0F]\<rparr>]\<rparr>"

definition demo_metadata :: XedMetadata where
  "demo_metadata = default_metadata\<lparr>xed_ok := True, operand_width := 8, iclass := ''SHL'',
     comparable_written_flags := kStatusRFlagsMask\<rparr>"

definition demo_execution :: ExecutionResult where
  "demo_execution = default_result\<lparr>outcome_class := Normal, final_state := [(''flag'', 2), (''rax'', 6)],
     final_memory := [\<lparr>exp_address = 16, exp_bytes = [1, 0x12], exp_mask = []\<rparr>]\<rparr>"

lemma demo_care_mask: "care_mask demo_row demo_metadata = ucast (kStatusRFlagsMask AND NOT kFlagCF)"
  by code_simp



end
