(* ===== verification/Skip_Rules.thy ===== *)
theory Skip_Rules
  imports Comparator
begin

text \<open>
  The part of \<^verbatim>\<open>src/src/tester_main.cpp\<close> that decides which rows are not executed, and under
  which reason a row that could not be executed is counted: \<open>PreExecutionSkip\<close> with all its
  tests, \<open>UnsupportedReason\<close> and \<open>UnsupportedDetail\<close>. The static sets are lists.
\<close>

section \<open>Operands and keys\<close>

definition FirstToken :: "string \<Rightarrow> string" where
  "FirstToken text =
     (let trimmed = Trim text in ToLower (takeWhile (\<lambda>c. c \<noteq> CHR '' '' \<and> c \<noteq> CHR 0x09) trimmed))"

definition RequiresMemoryOracle :: "XedMetadata \<Rightarrow> bool" where
  "RequiresMemoryOracle metadata \<longleftrightarrow> list_ex (\<lambda>m. mem_reads m \<or> mem_writes m) (memory_operands metadata)"

definition IsX87StackRegister :: "string \<Rightarrow> bool" where
  "IsX87StackRegister key \<longleftrightarrow>
     length key = 3 \<and> key ! 0 = CHR ''s'' \<and> key ! 1 = CHR ''t'' \<and>
     CHR ''0'' \<le> key ! 2 \<and> key ! 2 \<le> CHR ''7''"

definition IsUnsupportedX87StackValue :: "u8 list \<Rightarrow> bool" where
  "IsUnsupportedX87StackValue bytes =
     (if length bytes \<noteq> 10 then False
      else
        let significand = le_loop 0 (take 8 bytes) 0 :: u64;
            exponent = (ucast (bytes ! 8) OR push_bit 8 (ucast (bytes ! 9))) AND 0x7FFF :: u16;
            integer_bit = (drop_bit 63 significand \<noteq> 0)
        in if exponent = 0 then significand \<noteq> 0
           else if exponent \<noteq> 0x7FFF \<and> \<not> integer_bit then True
           else False)"

definition HasUnsupportedX87StackValue :: "ExpectationRow \<Rightarrow> bool" where
  "HasUnsupportedX87StackValue row \<longleftrightarrow>
     list_ex (\<lambda>(raw_key, bytes). IsX87StackRegister (CanonicalStateKey raw_key) \<and> IsUnsupportedX87StackValue bytes)
       (initial_bytes row)"

definition IsFpuUnsupported :: "XedMetadata \<Rightarrow> ExpectationRow \<Rightarrow> bool" where
  "IsFpuUnsupported metadata row =
     (if iclass metadata \<in> set [''FXCH'', ''FABS'', ''FCHS'', ''FST''] \<or> starts_with (iclass metadata) ''FCMOV''
      then HasUnsupportedX87StackValue row
      else if iclass metadata \<in> set [''FXAM'', ''FNSTSW'', ''FNINIT'', ''FNCLEX'', ''FDECSTP'', ''FINCSTP'',
        ''FFREE'', ''FFREEP''] then False
      else extension metadata = ''X87'' \<or> starts_with (category metadata) ''X87'')"

definition IsMmxStateKey :: "string \<Rightarrow> bool" where
  "IsMmxStateKey raw_key =
     (let key = ToLower (CanonicalStateKey raw_key) in
      if length key \<noteq> 3 \<or> \<not> starts_with key ''mm'' then False
      else CHR ''0'' \<le> key ! 2 \<and> key ! 2 \<le> CHR ''7'')"

definition UsesMmxState :: "ExpectationRow \<Rightarrow> bool" where
  "UsesMmxState row =
     (if list_ex (\<lambda>(key, _). IsMmxStateKey key) (initial_state row) then True
      else if list_ex (\<lambda>(key, _). IsMmxStateKey key) (initial_bytes row) then True
      else if (case expected_final_state row of
                 Some state \<Rightarrow> list_ex (\<lambda>(key, _). IsMmxStateKey key) state
               | None \<Rightarrow> False) then True
      else list_ex (\<lambda>(key, _). IsMmxStateKey key) (expected_final_bytes row))"

definition IsPrivilegedOrIoUnsupported :: "XedMetadata \<Rightarrow> bool" where
  "IsPrivilegedOrIoUnsupported metadata \<longleftrightarrow>
     category metadata = ''IO'' \<or>
     iclass metadata \<in> set [''CLI'', ''STI'', ''HLT'', ''IN'', ''OUT'', ''INSB'', ''INSW'', ''INSD'', ''OUTSB'',
       ''OUTSW'', ''OUTSD'', ''LGDT'', ''LIDT'', ''LLDT'', ''LTR'', ''LMSW'', ''CLTS'', ''INVLPG'', ''WBINVD'',
       ''RDMSR'', ''WRMSR'', ''SWAPGS'', ''XSETBV'', ''CLAC'', ''STAC'']"

definition IsEnvironmentReadUnsupported :: "XedMetadata \<Rightarrow> bool" where
  "IsEnvironmentReadUnsupported metadata \<longleftrightarrow>
     iclass metadata \<in> set [''RDTSC'', ''RDTSCP'', ''RDPMC'', ''RDPRU'', ''RDRAND'', ''RDSEED'', ''RDPID'',
       ''RDGSBASE'']"

definition operand_aliases :: "(string \<times> string) list" where
  "operand_aliases =
     [(''rax'', ''rax''), (''eax'', ''rax''), (''ax'', ''rax''), (''rbx'', ''rbx''), (''ebx'', ''rbx''), (''bx'', ''rbx''),
      (''rcx'', ''rcx''), (''ecx'', ''rcx''), (''cx'', ''rcx''), (''rdx'', ''rdx''), (''edx'', ''rdx''), (''dx'', ''rdx''),
      (''rsi'', ''rsi''), (''esi'', ''rsi''), (''si'', ''rsi''), (''rdi'', ''rdi''), (''edi'', ''rdi''), (''di'', ''rdi''),
      (''rsp'', ''rsp''), (''esp'', ''rsp''), (''sp'', ''rsp''), (''rbp'', ''rbp''), (''ebp'', ''rbp''), (''bp'', ''rbp'')]"

definition CanonicalScalarOperand :: "string \<Rightarrow> string option" where
  "CanonicalScalarOperand operand =
     (let name = ToLower (Trim operand) in
      if name = [] \<or> str_find name CHR ''['' 0 \<noteq> None then None
      else case map_of operand_aliases name of
        Some key \<Rightarrow> Some key
      | None \<Rightarrow>
          if 2 \<le> length name \<and> name ! 0 = CHR ''r'' \<and> is_digit (name ! 1) then
            let pos = 1 + length (takeWhile is_digit (drop 1 name)) in
            if pos = 1 \<or> 3 < pos then None
            else let suffix = drop pos name in
              if suffix = [] \<or> suffix = ''d'' \<or> suffix = ''w'' then Some (take pos name) else None
          else None)"

definition DestinationWidthBits :: "string \<Rightarrow> u32" where
  "DestinationWidthBits instruction =
     (case str_find instruction CHR '' '' 0 of
        None \<Rightarrow> 0
      | Some mnemonic_end \<Rightarrow>
          let operands = drop (mnemonic_end + 1) instruction;
              dest = ToLower (Trim (case str_find operands CHR '','' 0 of
                       Some comma \<Rightarrow> substr operands 0 comma | None \<Rightarrow> operands))
          in if dest \<in> set [''ax'', ''bx'', ''cx'', ''dx'', ''si'', ''di'', ''sp'', ''bp''] \<or>
                3 \<le> length dest \<and> dest ! 0 = CHR ''r'' \<and> last dest = CHR ''w'' then 16
             else if length dest = 3 \<and> dest ! 0 = CHR ''e'' \<or>
                3 \<le> length dest \<and> dest ! 0 = CHR ''r'' \<and> last dest = CHR ''d'' then 32
             else 64)"

definition DescriptorSourceSelector :: "ExpectationRow \<Rightarrow> u16 option" where
  "DescriptorSourceSelector row =
     (case str_find (row_instruction row) CHR '','' 0 of
        None \<Rightarrow> None
      | Some comma \<Rightarrow>
          let source = Trim (drop (comma + 1) (row_instruction row));
              source = (case str_find source CHR '','' 0 of
                          Some next_comma \<Rightarrow> Trim (substr source 0 next_comma) | None \<Rightarrow> source)
          in case CanonicalScalarOperand source of
               None \<Rightarrow> None
             | Some key \<Rightarrow>
                 (case map_of (initial_state row) key of
                    Some v \<Rightarrow> Some (ucast (v AND 0xFFFF))
                  | None \<Rightarrow> None))"

definition HasVariableDescriptorSelector :: "ExpectationRow \<Rightarrow> bool" where
  "HasVariableDescriptorSelector row =
     (case DescriptorSourceSelector row of
        Some selector \<Rightarrow> selector = 0x50 \<or> selector = 0x51
      | None \<Rightarrow> list_ex (\<lambda>(raw_key, v). IsScalarRegister (CanonicalStateKey raw_key) \<and>
          (let selector = ucast (v AND 0xFFFF) :: u16 in selector = 0x50 \<or> selector = 0x51)) (initial_state row))"

definition IsDescriptorStateUnsupported :: "XedMetadata \<Rightarrow> ExpectationRow \<Rightarrow> bool" where
  "IsDescriptorStateUnsupported metadata row =
     (if iclass metadata = ''LAR'' \<or> iclass metadata = ''LSL'' then
        if iclass metadata = ''LAR'' \<and>
           (case DescriptorSourceSelector row of
              Some selector \<Rightarrow> selector = 0x50 \<and> DestinationWidthBits (row_instruction row) = 16
            | None \<Rightarrow> False) then False
        else HasVariableDescriptorSelector row
      else False)"

definition IsApproximateFpUnsupported :: "XedMetadata \<Rightarrow> bool" where
  "IsApproximateFpUnsupported metadata \<longleftrightarrow> iclass metadata \<in> set []"

definition IsShaUnsupported :: "XedMetadata \<Rightarrow> bool" where
  "IsShaUnsupported metadata \<longleftrightarrow> iclass metadata \<in> set []"

definition IsExpectedExceptionUnsupported :: "XedMetadata \<Rightarrow> ExpectationRow \<Rightarrow> bool" where
  "IsExpectedExceptionUnsupported metadata row =
     (if expected_exception_kind row = None then False
      else iclass metadata \<noteq> ''DIV'' \<and> iclass metadata \<noteq> ''IDIV'')"

definition IsAtomic128Unsupported :: "XedMetadata \<Rightarrow> bool" where
  "IsAtomic128Unsupported metadata \<longleftrightarrow> iclass metadata = ''CMPXCHG16B''"

definition IsPopfqUnsupported :: "XedMetadata \<Rightarrow> bool" where
  "IsPopfqUnsupported metadata \<longleftrightarrow> iclass metadata = ''POPFQ''"

section \<open>The decision\<close>

record SkipInfo =
  skip_reason :: string
  skip_detail :: string

definition skip_info :: "string \<Rightarrow> string \<Rightarrow> SkipInfo" where
  "skip_info reason detail = \<lparr>skip_reason = reason, skip_detail = detail\<rparr>"

definition PreExecutionSkip :: "XedMetadata \<Rightarrow> ExpectationRow \<Rightarrow> bool \<Rightarrow> SkipInfo option res" where
  "PreExecutionSkip metadata row memory_state_missing =
     (if \<not> xed_ok metadata then Inr (Some (skip_info ''xed_decode_failed'' []))
      else res_bind (ParseHexBytes (row_opcode row)) (\<lambda>bytes. Inr (
        if unat (insn_length metadata) \<noteq> length bytes then Some (skip_info ''xed_length_mismatch'' [])
        else if memory_state_missing then Some (skip_info ''memory_state_missing'' [])
        else if IsFpuUnsupported metadata row then Some (skip_info ''fpu_state_unsupported'' [])
        else if UsesMmxState row then Some (skip_info ''mmx_state_unsupported'' [])
        else if IsPrivilegedOrIoUnsupported metadata then Some (skip_info ''privileged_or_io_unsupported'' [])
        else if IsEnvironmentReadUnsupported metadata then Some (skip_info ''environment_read_unsupported'' [])
        else if IsDescriptorStateUnsupported metadata row then Some (skip_info ''descriptor_state_unsupported'' [])
        else if IsExpectedExceptionUnsupported metadata row
        then Some (skip_info ''expected_exception_unsupported''
          (case expected_exception_kind row of Some kind \<Rightarrow> kind | None \<Rightarrow> []))
        else if IsAtomic128Unsupported metadata then Some (skip_info ''atomic128_unsupported'' [])
        else if IsPopfqUnsupported metadata then Some (skip_info ''popfq_flag_state_unsupported'' [])
        else if IsApproximateFpUnsupported metadata then Some (skip_info ''approximate_fp_unsupported'' [])
        else if IsShaUnsupported metadata then Some (skip_info ''sha_extension_unsupported'' [])
        else None)))"

text \<open>Why a row that was tried is unsupported.\<close>

definition UnsupportedReason :: "ExecutionResult \<Rightarrow> string" where
  "UnsupportedReason result =
     (case (case backend_error result of Some e \<Rightarrow> if e \<noteq> [] then Some e else None | None \<Rightarrow> None) of
        Some error \<Rightarrow>
          if starts_with error ''Remill failed to lift opcode'' then ''unsupported:remill_lift''
          else if starts_with error ''Remill failed to decode opcode'' then ''unsupported:remill_decode''
          else if starts_with error ''unsupported scalar state key:'' \<or>
                  starts_with error ''unsupported byte state key:'' then ''unsupported:state_key''
          else if starts_with error ''invalid byte state for register:'' then ''unsupported:state_bytes''
          else ''unsupported:backend''
      | None \<Rightarrow>
          (case exception_detail result of
             Some detail \<Rightarrow> if detail \<noteq> [] then ''unsupported:exception'' else ''unsupported''
           | None \<Rightarrow> ''unsupported''))"

definition UnsupportedDetail :: "ExecutionResult \<Rightarrow> string" where
  "UnsupportedDetail result =
     (case backend_error result of
        Some error \<Rightarrow> error
      | None \<Rightarrow> (case exception_detail result of Some detail \<Rightarrow> detail | None \<Rightarrow> []))"

section \<open>What is executed\<close>

definition row_keys :: "ExpectationRow \<Rightarrow> string list" where
  "row_keys row = map fst (initial_state row) @ map fst (initial_bytes row) @
     (case expected_final_state row of Some state \<Rightarrow> map fst state | None \<Rightarrow> []) @
     map fst (expected_final_bytes row)"

lemma UsesMmxState_iff: "UsesMmxState row \<longleftrightarrow> list_ex IsMmxStateKey (row_keys row)"
  by (cases "expected_final_state row")
     (auto simp: UsesMmxState_def row_keys_def list_ex_iff split_def)

lemma Decode_ok:
  assumes "xed_ok (Decode xed address bytes)"
  obtains d where "lib_decode xed bytes = Inr d" "insn_length (Decode xed address bytes) = lib_length xed d"
    "1 \<le> length bytes" "length bytes \<le> 15"
proof (cases "bytes = [] \<or> 15 < length bytes")
  case True
  with assms show ?thesis by (simp add: Decode_def default_metadata_def)
next
  case False
  with assms obtain d where "lib_decode xed bytes = Inr d"
    by (cases "lib_decode xed bytes") (auto simp: Decode_def default_metadata_def)
  with False show ?thesis by (intro that [of d]) (simp_all add: Decode_def Let_def Suc_le_eq)
qed


text \<open>A library that knows one instruction, and a row of it.\<close>

definition demo_xed :: "unit XedLibrary" where
  "demo_xed = \<lparr>lib_decode = (\<lambda>bytes. if bytes = [0xF7, 0xF1] then Inr () else Inl None), lib_length = (\<lambda>_. 2),
     lib_operand_width = (\<lambda>_. 32), lib_iclass = (\<lambda>_. Some ''DIV''), lib_iform = (\<lambda>_. Some ''DIV_GPRv''),
     lib_category = (\<lambda>_. Some ''BINARY''), lib_extension = (\<lambda>_. Some ''BASE''), lib_rflags_info = (\<lambda>_. None),
     lib_number_of_memory_operands = (\<lambda>_. 0), lib_memory_operand_length = (\<lambda>_ _. 0),
     lib_memop_address_width = (\<lambda>_ _. 0), lib_mem_read = (\<lambda>_ _. 0), lib_mem_written = (\<lambda>_ _. 0),
     lib_mem_written_only = (\<lambda>_ _. 0)\<rparr>"

definition demo_div_row :: ExpectationRow where
  "demo_div_row = default_row\<lparr>row_address := 0x1000, row_opcode := ''F7F1'', initial_state := [(''rax'', 1)],
     expected_exception_kind := Some ''DIVIDE_ERROR''\<rparr>"


end
