(* ===== verification/Byte_Memory.thy ===== *)
theory Byte_Memory
  imports Prelude
begin

text \<open>
  The interface through which the Remill runtime helpers use a memory: load a run of bytes
  and store a run of bytes, both of which can be refused. The laws are what a byte memory
  promises; the little-endian word accesses, on which every helper rests, are proved from
  them once. \<^verbatim>\<open>Guest_Memory\<close> provides the sparse checked memory of the tester,
  \<^verbatim>\<open>Remill_Helpers\<close> the flat \<open>RAM\<close> array of the standalone helpers.
\<close>

text \<open>No address of the first range is an address of the second (both may wrap).\<close>

definition disjoint_ranges :: "u64 \<Rightarrow> nat \<Rightarrow> u64 \<Rightarrow> nat \<Rightarrow> bool" where
  "disjoint_ranges a n b k \<longleftrightarrow> (\<forall>i < n. \<forall>j < k. a + of_nat i \<noteq> b + of_nat j)"

definition load_word ::
    "('m \<Rightarrow> u64 \<Rightarrow> nat \<Rightarrow> u8 list option) \<Rightarrow> 'm \<Rightarrow> u64 \<Rightarrow> 'a::len word option" where
  "load_word load m a = map_option le_word (load m a (LENGTH('a) div 8))"

definition store_word ::
    "('m \<Rightarrow> u64 \<Rightarrow> u8 list \<Rightarrow> 'm option) \<Rightarrow> 'm \<Rightarrow> u64 \<Rightarrow> 'a::len word \<Rightarrow> 'm option" where
  "store_word store m a v = store m a (le_bytes v)"

locale byte_memory =
  fixes load :: "'m \<Rightarrow> u64 \<Rightarrow> nat \<Rightarrow> u8 list option"
    and store :: "'m \<Rightarrow> u64 \<Rightarrow> u8 list \<Rightarrow> 'm option"
  assumes load_size: "load m a n = Some bs \<Longrightarrow> n < 2 ^ 64 \<Longrightarrow> length bs = n"
    and load_stored: "store m a bs = Some m' \<Longrightarrow> length bs < 2 ^ 64 \<Longrightarrow>
          load m a (length bs) \<noteq> None \<Longrightarrow> load m' a (length bs) = Some bs"
    and load_elsewhere: "store m a bs = Some m' \<Longrightarrow> length bs < 2 ^ 64 \<Longrightarrow> n < 2 ^ 64 \<Longrightarrow>
          disjoint_ranges a (length bs) b n \<Longrightarrow> load m' b n = load m b n"
    and loadable_kept: "store m a bs = Some m' \<Longrightarrow> length bs < 2 ^ 64 \<Longrightarrow> n < 2 ^ 64 \<Longrightarrow>
          (load m' b n = None) = (load m b n = None)"
    and storable_kept: "store m a bs = Some m' \<Longrightarrow> length bs < 2 ^ 64 \<Longrightarrow> length cs < 2 ^ 64 \<Longrightarrow>
          (store m' b cs = None) = (store m b cs = None)"
    and storable_length: "length cs = length bs \<Longrightarrow> length bs < 2 ^ 64 \<Longrightarrow>
          (store m a cs = None) = (store m a bs = None)"
begin

abbreviation "loadw \<equiv> load_word load"
abbreviation "storew \<equiv> store_word store"

lemma word_stored:
  assumes "storew m a (v :: 'a::len word) = Some m'" "8 dvd LENGTH('a)" "LENGTH('a) \<le> 64"
    and "(loadw m a :: 'a word option) \<noteq> None"
  shows "loadw m' a = Some v"
proof -
  have "load m' a (length (le_bytes v)) = Some (le_bytes v)"
    using assms by (intro load_stored) (auto simp: load_word_def store_word_def)
  then show ?thesis using assms(2) by (simp add: load_word_def le_word_le_bytes)
qed

lemma word_elsewhere:
  fixes v :: "'a::len word"
  assumes "storew m a v = Some m'" "LENGTH('a) \<le> 64" "LENGTH('b) \<le> 64"
    and "disjoint_ranges a (LENGTH('a) div 8) b (LENGTH('b::len) div 8)"
  shows "(loadw m' b :: 'b word option) = loadw m b"
  using load_elsewhere [of m a "le_bytes v" m' "LENGTH('b) div 8" b] assms
  by (simp add: load_word_def store_word_def)

lemma word_store_again:
  fixes v :: "'a::len word" and w :: "'b::len word"
  assumes "storew m a v = Some m'" "LENGTH('a) \<le> 64" "LENGTH('b) \<le> 64"
  shows "(storew m' b w = None) = (storew m b w = None)"
  using storable_kept [of m a "le_bytes v" m' "le_bytes w" b] assms by (simp add: store_word_def)

lemma word_storable:
  fixes v w :: "'a::len word"
  assumes "LENGTH('a) \<le> 64"
  shows "(storew m a w = None) = (storew m a v = None)"
  using storable_length [of "le_bytes w" "le_bytes v" m a] assms by (simp add: store_word_def)

text \<open>Two stores to the same cell: the second one is the one read back.\<close>

lemma word_last_store:
  fixes v w :: "'a::len word"
  assumes "storew m a v = Some m1" "8 dvd LENGTH('a)" "LENGTH('a) \<le> 64"
    and "(loadw m a :: 'a word option) \<noteq> None"
  shows "\<exists>m2. storew m1 a w = Some m2 \<and> loadw m2 a = Some w"
proof -
  from assms(1) have "storew m a w \<noteq> None" using word_storable [OF assms(3), of m a w v] by simp
  then obtain m2 where m2: "storew m1 a w = Some m2"
    using word_store_again [OF assms(1,3,3), of a w] by auto
  from word_stored [OF assms] have "(loadw m1 a :: 'a word option) \<noteq> None" by simp
  from word_stored [OF m2 assms(2,3) this] m2 show ?thesis by blast
qed

end

end
