(* ===== verification/Guest_Memory.thy ===== *)
theory Guest_Memory
  imports Byte_Memory
begin

text \<open>
  The sparse guest memory of \<^verbatim>\<open>src/src/guest_memory.hpp\<close> and
  \<^verbatim>\<open>src/src/guest_memory.cpp\<close>: pages of 4096 bytes keyed by their page-aligned
  address, a sticky fault record, and the chunk-by-chunk loops of \<open>Map\<close>, \<open>CheckAccess\<close>,
  \<open>Write\<close> and \<open>Read\<close>. Addresses and sizes are 64-bit words, so the overflow tests and the
  address increments wrap as in the code. A null page pointer, a \<open>memcpy\<close> that leaves the
  page array and a \<open>memcpy\<close> that leaves the caller's buffer are \<open>UndefinedBehaviour\<close>;
  a page loop that does not end is \<open>Diverges\<close>.
\<close>

section \<open>Data\<close>

definition PermRead :: u8 where "PermRead = push_bit 0 1"
definition PermWrite :: u8 where "PermWrite = push_bit 1 1"
definition PermExecute :: u8 where "PermExecute = push_bit 2 1"
definition PermReadWrite :: u8 where "PermReadWrite = PermRead OR PermWrite"
definition PermReadExecute :: u8 where "PermReadExecute = PermRead OR PermExecute"
definition PermAll :: u8 where "PermAll = PermRead OR PermWrite OR PermExecute"

lemmas perm_defs = PermRead_def PermWrite_def PermExecute_def PermReadWrite_def
  PermReadExecute_def PermAll_def

datatype MemoryFaultKind =
    FaultNone | FaultUnmapped | FaultPermission | FaultUnsupported | FaultBackendError

record MemoryFault =
  fault_kind :: MemoryFaultKind
  fault_address :: u64
  fault_size :: u64
  fault_operation :: string
  fault_detail :: string

record Page =
  page_bytes :: "nat \<Rightarrow> u8"  \<comment> \<open>the array's 4096 entries, by index\<close>
  page_permissions :: u8

record GuestMemory =
  pages :: "u64 \<rightharpoonup> Page"
  last_fault :: "MemoryFault option"

definition kPageSize :: u64 where "kPageSize = 0x1000"

definition kUint64Max :: u64 where "kUint64Max = - 1"

text \<open>A default-constructed \<open>Page\<close> (zero bytes, no permission) and \<open>GuestMemory\<close>.\<close>

definition new_page :: Page where
  "new_page = \<lparr>page_bytes = (\<lambda>_. 0), page_permissions = 0\<rparr>"

definition new_memory :: GuestMemory where
  "new_memory = \<lparr>pages = Map.empty, last_fault = None\<rparr>"

section \<open>Operations\<close>

definition PageBase :: "u64 \<Rightarrow> u64" where
  "PageBase address = address AND NOT (kPageSize - 1)"

definition PageOffset :: "u64 \<Rightarrow> u64" where
  "PageOffset address = address AND (kPageSize - 1)"

definition FindPage :: "GuestMemory \<Rightarrow> u64 \<Rightarrow> Page option" where
  "FindPage m address = pages m (PageBase address)"

definition SetFault ::
    "GuestMemory \<Rightarrow> MemoryFaultKind \<Rightarrow> u64 \<Rightarrow> u64 \<Rightarrow> string \<Rightarrow> string \<Rightarrow> GuestMemory" where
  "SetFault m kind address sz operation detail =
     (if last_fault m = None
      then m\<lparr>last_fault := Some \<lparr>fault_kind = kind, fault_address = address, fault_size = sz,
                                fault_operation = operation, fault_detail = detail\<rparr>\<rparr>
      else m)"

definition GuestMemory_ClearStatus :: "GuestMemory \<Rightarrow> GuestMemory" where
  "GuestMemory_ClearStatus m = m\<lparr>last_fault := None\<rparr>"

definition GuestMemory_Reset :: "GuestMemory \<Rightarrow> GuestMemory" where
  "GuestMemory_Reset m = GuestMemory_ClearStatus (m\<lparr>pages := Map.empty\<rparr>)"

definition GuestMemory_ok :: "GuestMemory \<Rightarrow> bool" where
  "GuestMemory_ok m \<longleftrightarrow> last_fault m = None"

definition GuestMemory_SetUnsupported :: "GuestMemory \<Rightarrow> u64 \<Rightarrow> string \<Rightarrow> GuestMemory" where
  "GuestMemory_SetUnsupported m address detail =
     SetFault m FaultUnsupported address 0 ''unsupported'' detail"

definition GuestMemory_SetBackendError :: "GuestMemory \<Rightarrow> string \<Rightarrow> GuestMemory" where
  "GuestMemory_SetBackendError m detail = SetFault m FaultBackendError 0 0 ''backend'' detail"

text \<open>\<open>pages_[address]\<close> inserts a default page when the key is absent.\<close>

definition map_page :: "u8 \<Rightarrow> u64 \<Rightarrow> (u64 \<rightharpoonup> Page) \<Rightarrow> (u64 \<rightharpoonup> Page)" where
  "map_page perms address ps =
     ps(address \<mapsto> (case ps address of None \<Rightarrow> new_page | Some p \<Rightarrow> p)\<lparr>page_permissions := perms\<rparr>)"

partial_function (option) Map_loop ::
    "u8 \<Rightarrow> u64 \<Rightarrow> u64 \<Rightarrow> (u64 \<rightharpoonup> Page) \<Rightarrow> (u64 \<rightharpoonup> Page) option" where
  "Map_loop perms end_page page_address ps =
     (if page_address = end_page then Some (map_page perms page_address ps)
      else Map_loop perms end_page (page_address + kPageSize) (map_page perms page_address ps))"

definition GuestMemory_Map :: "GuestMemory \<Rightarrow> u64 \<Rightarrow> u64 \<Rightarrow> u8 \<Rightarrow> (bool \<times> GuestMemory) res" where
  "GuestMemory_Map m address sz perms =
     (if sz = 0 then Inr (True, m)
      else if address > kUint64Max - (sz - 1)
      then Inr (False, SetFault m FaultBackendError address sz ''map''
                         ''mapping range overflows uint64_t'')
      else case Map_loop perms (PageBase (address + sz - 1)) (PageBase address) (pages m) of
             None \<Rightarrow> Inl Diverges
           | Some ps \<Rightarrow> Inr (True, m\<lparr>pages := ps\<rparr>))"

text \<open>The part of \<open>[cur, cur + remaining)\<close> that lies in the page of \<open>cur\<close>.\<close>

definition chunk_size :: "u64 \<Rightarrow> u64 \<Rightarrow> u64" where
  "chunk_size remaining cur = min remaining (kPageSize - PageOffset cur)"

lemma unat_PageOffset [page_simps]: "unat (PageOffset a) = unat a mod 4096"
proof -
  have "PageOffset a = take_bit 12 a"
    by (simp add: PageOffset_def kPageSize_def take_bit_eq_mask mask_eq_exp_minus_1)
  then have "unat (PageOffset a) = take_bit 12 (unat a)"
    by (simp only: unsigned_take_bit_eq)
  also have "\<dots> = unat a mod 2 ^ 12" by (rule take_bit_eq_mod)
  finally show ?thesis by simp
qed

lemma unat_kPageSize [page_simps]: "unat kPageSize = 4096"
  by (simp add: kPageSize_def)

lemma unat_page_rest [page_simps]: "unat (kPageSize - PageOffset a) = 4096 - unat a mod 4096"
  by (subst unat_sub) (simp_all add: page_simps word_le_nat_alt)

lemma unat_chunk_size [page_simps]:
  "unat (chunk_size r c) = min (unat r) (4096 - unat c mod 4096)"
  by (simp add: chunk_size_def min_def word_le_nat_alt page_simps)

lemma chunk_size_le [page_simps]: "chunk_size r c \<le> r"
  by (simp add: chunk_size_def)

lemma unat_minus_chunk [page_simps]:
  "unat (r - chunk_size r c) = unat r - unat (chunk_size r c)"
  by (rule unat_sub) (rule chunk_size_le)

lemma chunk_size_pos: "r \<noteq> 0 \<Longrightarrow> 0 < unat (chunk_size r c)"
  by (simp add: page_simps unat_gt_0)

lemma chunk_decreases: "r \<noteq> 0 \<Longrightarrow> unat (r - chunk_size r c) < unat r"
  using chunk_size_pos [of r c] by (simp add: page_simps unat_gt_0)

function CheckAccess_loop ::
    "GuestMemory \<Rightarrow> u8 \<Rightarrow> string \<Rightarrow> u64 \<Rightarrow> u64 \<Rightarrow> bool \<times> GuestMemory" where
  "CheckAccess_loop m required operation remaining cur =
     (if remaining \<noteq> 0
      then let chunk = chunk_size remaining cur
           in case FindPage m cur of
                None \<Rightarrow> (False, SetFault m FaultUnmapped cur chunk operation ''page is not mapped'')
              | Some page \<Rightarrow>
                  if page_permissions page AND required \<noteq> required
                  then (False, SetFault m FaultPermission cur chunk operation
                                 ''page permissions do not allow access'')
                  else CheckAccess_loop m required operation (remaining - chunk) (cur + chunk)
      else (True, m))"
  by pat_completeness auto
termination
  by (relation "measure (\<lambda>(m, required, operation, remaining, cur). unat remaining)")
     (auto simp: chunk_decreases)

definition CheckAccess ::
    "GuestMemory \<Rightarrow> u64 \<Rightarrow> u64 \<Rightarrow> u8 \<Rightarrow> string \<Rightarrow> bool \<times> GuestMemory" where
  "CheckAccess m address sz required operation =
     (if sz = 0 then (True, m)
      else if address > kUint64Max - (sz - 1)
      then (False, SetFault m FaultBackendError address sz operation
                     ''access range overflows uint64_t'')
      else CheckAccess_loop m required operation sz address)"

text \<open>\<open>memcpy\<close> into the page array from the front of a buffer, and out of it.\<close>

definition memcpy_to_page :: "Page \<Rightarrow> nat \<Rightarrow> u8 list \<Rightarrow> nat \<Rightarrow> Page res" where
  "memcpy_to_page page offset src n =
     (if n \<le> length src \<and> offset + n \<le> 4096
      then Inr (page\<lparr>page_bytes := (\<lambda>i. if offset \<le> i \<and> i < offset + n then src ! (i - offset)
                                       else page_bytes page i)\<rparr>)
      else Inl UndefinedBehaviour)"

definition memcpy_from_page :: "u8 list \<Rightarrow> nat \<Rightarrow> Page \<Rightarrow> nat \<Rightarrow> nat \<Rightarrow> u8 list res" where
  "memcpy_from_page out pos page offset n =
     (if pos + n \<le> length out \<and> offset + n \<le> 4096
      then Inr (take pos out @ map (page_bytes page) [offset..<offset + n] @ drop (pos + n) out)
      else Inl UndefinedBehaviour)"

function Write_loop :: "GuestMemory \<Rightarrow> u64 \<Rightarrow> u64 \<Rightarrow> u8 list \<Rightarrow> GuestMemory res" where
  "Write_loop m remaining cur src =
     (if remaining \<noteq> 0
      then let chunk = chunk_size remaining cur
           in case FindPage m cur of
                None \<Rightarrow> Inl UndefinedBehaviour
              | Some page \<Rightarrow>
                  (case memcpy_to_page page (unat (PageOffset cur)) src (unat chunk) of
                     Inl e \<Rightarrow> Inl e
                   | Inr page' \<Rightarrow>
                       Write_loop (m\<lparr>pages := (pages m)(PageBase cur \<mapsto> page')\<rparr>)
                         (remaining - chunk) (cur + chunk) (drop (unat chunk) src))
      else Inr m)"
  by pat_completeness auto
termination
  by (relation "measure (\<lambda>(m, remaining, cur, src). unat remaining)") (auto simp: chunk_decreases)

text \<open>The source pointer is \<open>None\<close> when it is null.\<close>

definition GuestMemory_Write ::
    "GuestMemory \<Rightarrow> u64 \<Rightarrow> u8 list option \<Rightarrow> u64 \<Rightarrow> (bool \<times> GuestMemory) res" where
  "GuestMemory_Write m address bytes sz =
     (if sz = 0 then Inr (True, m)
      else case bytes of
        None \<Rightarrow> Inr (False, SetFault m FaultBackendError address sz ''write'' ''null source buffer'')
      | Some src \<Rightarrow>
          (case CheckAccess m address sz PermWrite ''write'' of
             (False, m') \<Rightarrow> Inr (False, m')
           | (True, m') \<Rightarrow> res_bind (Write_loop m' sz address src) (\<lambda>m''. Inr (True, m''))))"

text \<open>The overload on a vector passes its data pointer and its size.\<close>

definition GuestMemory_Write_vector ::
    "GuestMemory \<Rightarrow> u64 \<Rightarrow> u8 list \<Rightarrow> (bool \<times> GuestMemory) res" where
  "GuestMemory_Write_vector m address bytes =
     GuestMemory_Write m address (Some bytes) (of_nat (length bytes))"

function Read_loop :: "GuestMemory \<Rightarrow> u64 \<Rightarrow> u64 \<Rightarrow> nat \<Rightarrow> u8 list \<Rightarrow> u8 list res" where
  "Read_loop m remaining cur pos out =
     (if remaining \<noteq> 0
      then let chunk = chunk_size remaining cur
           in case FindPage m cur of
                None \<Rightarrow> Inl UndefinedBehaviour
              | Some page \<Rightarrow>
                  (case memcpy_from_page out pos page (unat (PageOffset cur)) (unat chunk) of
                     Inl e \<Rightarrow> Inl e
                   | Inr out' \<Rightarrow>
                       Read_loop m (remaining - chunk) (cur + chunk) (pos + unat chunk) out')
      else Inr out)"
  by pat_completeness auto
termination
  by (relation "measure (\<lambda>(m, remaining, cur, pos, out). unat remaining)")
     (auto simp: chunk_decreases)

definition GuestMemory_Read ::
    "GuestMemory \<Rightarrow> u64 \<Rightarrow> u8 list option \<Rightarrow> u64 \<Rightarrow> (bool \<times> u8 list option \<times> GuestMemory) res" where
  "GuestMemory_Read m address out sz =
     (if sz = 0 then Inr (True, out, m)
      else case out of
        None \<Rightarrow> Inr (False, None,
                  SetFault m FaultBackendError address sz ''read'' ''null destination buffer'')
      | Some buf \<Rightarrow>
          (case CheckAccess m address sz PermRead ''read'' of
             (False, m') \<Rightarrow>
               if unat sz \<le> length buf
               then Inr (False, Some (replicate (unat sz) 0 @ drop (unat sz) buf), m')
               else Inl UndefinedBehaviour
           | (True, m') \<Rightarrow>
               res_bind (Read_loop m' sz address 0 buf) (\<lambda>buf'. Inr (True, Some buf', m'))))"

text \<open>
  The little-endian templates, for any unsigned word type \<open>'a\<close>: \<open>sizeof(T)\<close> is
  \<open>LENGTH('a) div 8\<close>, the local byte array starts zeroed.
\<close>

definition ReadLittleEndian :: "GuestMemory \<Rightarrow> u64 \<Rightarrow> (bool \<times> 'a::len word \<times> GuestMemory) res" where
  "ReadLittleEndian m address =
     res_bind (GuestMemory_Read m address (Some (replicate (LENGTH('a) div 8) 0))
                 (of_nat (LENGTH('a) div 8)))
       (\<lambda>(ok, bytes, m'). if \<not> ok then Inr (False, 0, m')
          else case bytes of None \<Rightarrow> Inl UndefinedBehaviour
               | Some bs \<Rightarrow> Inr (True, le_word bs, m'))"

definition WriteLittleEndian ::
    "GuestMemory \<Rightarrow> u64 \<Rightarrow> 'a::len word \<Rightarrow> (bool \<times> GuestMemory) res" where
  "WriteLittleEndian m address value =
     GuestMemory_Write m address (Some (le_bytes value)) (of_nat (length (le_bytes value)))"

declare CheckAccess_loop.simps [simp del]
  Write_loop.simps [simp del] Read_loop.simps [simp del]

section \<open>Page arithmetic and the access check\<close>

lemma PageBase_plus_PageOffset: "PageBase a + PageOffset a = a"
proof -
  have m: "PageBase a = a AND NOT (mask 12)" "PageOffset a = a AND mask 12"
    by (simp_all add: PageBase_def PageOffset_def kPageSize_def mask_eq_exp_minus_1)
  have "PageBase a AND PageOffset a = 0"
    unfolding m by (rule bit_word_eqI) (auto simp: bit_simps)
  then have "PageBase a + PageOffset a = PageBase a OR PageOffset a"
    by (rule disjunctive_add_eq_or)
  also have "\<dots> = a" unfolding m by (rule bit_word_eqI) (auto simp: bit_simps)
  finally show ?thesis .
qed

lemma unat_PageBase [page_simps]: "unat (PageBase a) = unat a - unat a mod 4096"
proof -
  have "PageBase a = a - PageOffset a"
    using PageBase_plus_PageOffset [of a] by (simp add: algebra_simps eq_diff_eq)
  then show ?thesis
    by (simp add: unat_sub word_le_nat_alt page_simps)
qed

lemma unat_in_page:
  fixes a :: u64
  assumes "unat a mod 4096 + k < 4096"
  shows "unat (a + of_nat k) = unat a + k"
proof -
  have "unat a < 2 ^ LENGTH(64)" by (rule unsigned_less)
  then have "unat a < 4096 * 2 ^ 52" by simp
  then have "unat a div 4096 < 2 ^ 52" by (simp add: less_mult_imp_div_less mult.commute)
  then have "4096 * (unat a div 4096) + 4096 \<le> 4096 * 2 ^ 52" by simp
  moreover have "unat a + k < 4096 * (unat a div 4096) + 4096"
    using assms mult_div_mod_eq [of 4096 "unat a"] by linarith
  ultimately have lt: "unat a + k < 2 ^ 64" by simp
  then show ?thesis
    by (simp add: unat_word_ariths unat_of_nat)
qed

lemma page_of_in_page:
  assumes "unat a mod 4096 + k < 4096"
  shows "PageBase (a + of_nat k) = PageBase a"
    and "unat (PageOffset (a + of_nat k)) = unat (PageOffset a) + k"
proof -
  have md: "(unat a + k) mod 4096 = unat a mod 4096 + k"
    using assms by (metis mod_add_left_eq mod_less)
  show "PageBase (a + of_nat k) = PageBase a"
    unfolding word_unat_eq_iff by (simp add: page_simps unat_in_page [OF assms] md)
  show "unat (PageOffset (a + of_nat k)) = unat (PageOffset a) + k"
    by (simp add: page_simps unat_in_page [OF assms] md)
qed

definition accessible :: "u8 \<Rightarrow> GuestMemory \<Rightarrow> u64 \<Rightarrow> bool" where
  "accessible perm m a =
     (case FindPage m a of None \<Rightarrow> False | Some p \<Rightarrow> page_permissions p AND perm = perm)"

lemma nat_chunk_cases:
  assumes "(i::nat) < n" "c \<le> n"
  obtains "i < c" | j where "i = c + j" "j < n - c"
  using assms by (metis add_diff_inverse_nat less_diff_conv2 linorder_not_less add.commute)

lemma accessible_in_page:
  assumes "unat a mod 4096 + k < 4096"
  shows "accessible perm m (a + of_nat k) = accessible perm m a"
  by (simp add: accessible_def FindPage_def page_of_in_page(1) [OF assms])

lemma chunk_in_page: "k < unat (chunk_size r c) \<Longrightarrow> unat c mod 4096 + k < 4096"
  by (simp add: page_simps) linarith

lemma all_less_chunk:
  assumes "r \<noteq> 0"
    and in_page: "\<And>k. k < unat (chunk_size r c) \<Longrightarrow> P (c + of_nat k) = P c"
  shows "(\<forall>i < unat r. P (c + of_nat i)) \<longleftrightarrow>
     P c \<and> (\<forall>i < unat (r - chunk_size r c). P (c + chunk_size r c + of_nat i))"
proof -
  let ?n = "unat (chunk_size r c)"
  have n: "0 < ?n" "?n \<le> unat r" using assms(1) by (simp_all add: page_simps unat_gt_0)
  have split: "(\<forall>i < unat r. Q i) \<longleftrightarrow> (\<forall>i < ?n. Q i) \<and> (\<forall>j < unat r - ?n. Q (?n + j))" for Q
    using n(2) by (auto elim!: nat_chunk_cases [of _ "unat r" ?n])
  have step: "c + of_nat (?n + j) = c + chunk_size r c + of_nat j" for j by simp
  have "(\<forall>i < ?n. P (c + of_nat i)) \<longleftrightarrow> P c" using n(1) in_page by auto
  then show ?thesis
    unfolding split [of "\<lambda>i. P (c + of_nat i)"] step unat_minus_chunk by simp
qed

lemma CheckAccess_loop_iff:
  "fst (CheckAccess_loop m perm op r c) \<longleftrightarrow> (\<forall>i < unat r. accessible perm m (c + of_nat i))"
proof (induction m perm op r c rule: CheckAccess_loop.induct)
  case (1 m perm op r c)
  show ?case
  proof (cases "r = 0")
    case False
    have split: "(\<forall>i < unat r. accessible perm m (c + of_nat i)) \<longleftrightarrow> accessible perm m c \<and>
        (\<forall>i < unat (r - chunk_size r c). accessible perm m (c + chunk_size r c + of_nat i))"
      using False by (rule all_less_chunk) (simp add: accessible_in_page chunk_in_page)
    show ?thesis
      using 1 False unfolding split
      by (subst CheckAccess_loop.simps) (auto simp: accessible_def Let_def split: option.splits)
  qed (simp add: CheckAccess_loop.simps)
qed

text \<open>Only the fault record can change, and only from "no fault" to a fault.\<close>

definition only_fault :: "GuestMemory \<Rightarrow> GuestMemory \<Rightarrow> bool" where
  "only_fault m m' \<longleftrightarrow> pages m' = pages m \<and> (last_fault m \<noteq> None \<longrightarrow> m' = m)"

lemma only_fault_refl [simp, intro]: "only_fault m m"
  by (simp add: only_fault_def)

lemma only_fault_SetFault [simp, intro]: "only_fault m (SetFault m k a s op d)"
  by (simp add: only_fault_def SetFault_def)

lemma CheckAccess_loop_state:
  assumes "CheckAccess_loop m perm op r c = (ok, m')"
  shows "if ok then m' = m else only_fault m m' \<and> last_fault m' \<noteq> None"
  using assms
proof (induction m perm op r c rule: CheckAccess_loop.induct)
  case (1 m perm op r c)
  from "1.prems" show ?case
    by (subst (asm) CheckAccess_loop.simps)
       (auto simp: Let_def SetFault_def only_fault_def dest: "1.IH" split: if_splits option.splits)
qed

lemma no_overflow_iff:
  fixes a n :: u64
  assumes "n \<noteq> 0"
  shows "a > kUint64Max - (n - 1) \<longleftrightarrow> 2 ^ 64 < unat a + unat n"
proof -
  have "unat (n - 1) = unat n - 1" using assms by (simp add: unat_minus_one)
  moreover have "unat (kUint64Max - (n - 1)) = 2 ^ 64 - 1 - unat (n - 1)"
    unfolding kUint64Max_def
    by (subst unat_sub) (auto simp: unsigned_minus_1_eq_mask mask_eq_exp_minus_1)
  moreover have "0 < unat n" "unat n < 2 ^ 64"
    using assms unsigned_less [of n, where ?'a = nat] by (auto simp: unat_gt_0)
  ultimately show ?thesis by (auto simp: word_less_nat_alt)
qed

lemma CheckAccess_state:
  assumes "CheckAccess m a n perm op = (ok, m')"
  shows "if ok then m' = m else only_fault m m' \<and> last_fault m' \<noteq> None"
  using assms CheckAccess_loop_state [of m perm op n a ok m']
  by (auto simp: CheckAccess_def SetFault_def only_fault_def split: if_splits)

lemma CheckAccess_iff:
  "fst (CheckAccess m a n perm op) \<longleftrightarrow>
     n = 0 \<or> (unat a + unat n \<le> 2 ^ 64 \<and> (\<forall>i < unat n. accessible perm m (a + of_nat i)))"
  by (auto simp: CheckAccess_def no_overflow_iff CheckAccess_loop_iff not_less)

definition gm_abs :: "GuestMemory \<Rightarrow> u64 \<rightharpoonup> u8 \<times> u8" where
  "gm_abs m = (\<lambda>a. map_option
     (\<lambda>p. (page_permissions p, page_bytes p (unat (PageOffset a)))) (FindPage m a))"

definition abs_store :: "u64 \<Rightarrow> nat \<Rightarrow> u8 list \<Rightarrow> (u64 \<rightharpoonup> u8 \<times> u8) \<Rightarrow> (u64 \<rightharpoonup> u8 \<times> u8)" where
  "abs_store a n bs f = (\<lambda>x. if unat (x - a) < n
     then map_option (\<lambda>(p, _). (p, bs ! unat (x - a))) (f x) else f x)"

lemma accessible_abs:
  "accessible perm m a \<longleftrightarrow> (case gm_abs m a of None \<Rightarrow> False | Some (p, _) \<Rightarrow> p AND perm = perm)"
  by (auto simp: accessible_def gm_abs_def split: option.splits)

lemma address_split: "x = c + of_nat (unat (x - c))" for x c :: u64
  by simp

text \<open>An address whose page base is that of \<open>c\<close> and the offset relation between them.\<close>

lemma same_page_offset:
  assumes "PageBase x = PageBase c"
  shows "unat (PageOffset c) \<le> unat (PageOffset x) \<Longrightarrow>
           unat (x - c) = unat (PageOffset x) - unat (PageOffset c)"
    and "unat (PageOffset x) < unat (PageOffset c) \<Longrightarrow> 4096 \<le> unat (x - c)"
proof -
  have eq: "unat x - unat x mod 4096 = unat c - unat c mod 4096"
    using assms by (metis unat_PageBase)
  define q where "q = unat c - unat c mod 4096"
  define xo where "xo = unat x mod 4096"
  define co where "co = unat c mod 4096"
  have x: "unat x = q + xo" and c: "unat c = q + co"
    using eq mod_less_eq_dividend [of "unat x" 4096] mod_less_eq_dividend [of "unat c" 4096]
    unfolding q_def xo_def co_def by linarith+
  have lt: "unat c < 2 ^ 64" "xo < 4096" "co < 4096"
    using unsigned_less [of c, where ?'a = nat] by (auto simp: xo_def co_def)
  have off: "unat (PageOffset x) = xo" "unat (PageOffset c) = co"
    by (simp_all add: page_simps xo_def co_def)
  show "unat (x - c) = unat (PageOffset x) - unat (PageOffset c)"
    if "unat (PageOffset c) \<le> unat (PageOffset x)"
    using that unfolding off by (simp add: unat_sub_if_size x c)
  show "4096 \<le> unat (x - c)" if "unat (PageOffset x) < unat (PageOffset c)"
    using that lt unfolding off by (simp add: unat_sub_if_size x c word_size)
qed

text \<open>One iteration of the write loop, on the abstract memory.\<close>

lemma abs_page_update:
  assumes find: "FindPage m c = Some page"
    and cpy: "memcpy_to_page page (unat (PageOffset c)) src n = Inr page'"
  shows "gm_abs (m\<lparr>pages := (pages m)(PageBase c \<mapsto> page')\<rparr>) = abs_store c n src (gm_abs m)"
proof (rule ext)
  fix x
  from cpy have n: "unat (PageOffset c) + n \<le> 4096" and page':
    "page' = page\<lparr>page_bytes := (\<lambda>i. if unat (PageOffset c) \<le> i \<and> i < unat (PageOffset c) + n
       then src ! (i - unat (PageOffset c)) else page_bytes page i)\<rparr>"
    by (auto simp: memcpy_to_page_def split: if_splits)
  show "gm_abs (m\<lparr>pages := (pages m)(PageBase c \<mapsto> page')\<rparr>) x = abs_store c n src (gm_abs m) x"
  proof (cases "PageBase x = PageBase c")
    case True
    with find have fx: "FindPage m x = Some page" by (simp add: FindPage_def)
    show ?thesis
    proof (cases "unat (PageOffset c) \<le> unat (PageOffset x)")
      case le: True
      with same_page_offset(1) [OF True le] fx True show ?thesis
        by (auto simp: gm_abs_def abs_store_def FindPage_def page')
    next
      case False
      with same_page_offset(2) [OF True] n fx True show ?thesis
        by (auto simp: gm_abs_def abs_store_def FindPage_def page')
    qed
  next
    case False
    have "\<not> unat (x - c) < n"
    proof
      assume "unat (x - c) < n"
      with n have "unat c mod 4096 + unat (x - c) < 4096" by (simp add: page_simps)
      from page_of_in_page(1) [OF this] False show False by simp
    qed
    with False show ?thesis by (auto simp: gm_abs_def abs_store_def FindPage_def)
  qed
qed

section \<open>The copying loops\<close>

definition page_keys :: "GuestMemory \<Rightarrow> u64 set" where
  "page_keys m = dom (pages m)"

definition mapped :: "GuestMemory \<Rightarrow> u64 \<Rightarrow> bool" where
  "mapped m a \<longleftrightarrow> FindPage m a \<noteq> None"

definition abs_load :: "(u64 \<rightharpoonup> u8 \<times> u8) \<Rightarrow> u64 \<Rightarrow> nat \<Rightarrow> u8 list" where
  "abs_load f a n = map (\<lambda>i. case f (a + of_nat i) of None \<Rightarrow> 0 | Some (_, b) \<Rightarrow> b) [0..<n]"

lemma length_abs_load [simp]: "length (abs_load f a n) = n"
  by (simp add: abs_load_def)

lemma accessible_mapped: "accessible perm m a \<Longrightarrow> mapped m a"
  by (auto simp: accessible_def mapped_def split: option.splits)

lemma mapped_in_page:
  "unat a mod 4096 + k < 4096 \<Longrightarrow> mapped m (a + of_nat k) = mapped m a"
  by (simp add: mapped_def FindPage_def page_of_in_page(1))

lemma mapped_range_step:
  assumes "r \<noteq> 0"
  shows "(\<forall>i < unat r. mapped m (c + of_nat i)) \<longleftrightarrow>
     mapped m c \<and> (\<forall>i < unat (r - chunk_size r c). mapped m (c + chunk_size r c + of_nat i))"
  using assms by (rule all_less_chunk) (simp add: mapped_in_page chunk_in_page)

lemma chunk_fits: "unat (PageOffset c) + unat (chunk_size r c) \<le> 4096"
  using mod_less_divisor [of 4096 "unat c"] by (simp add: page_simps)

lemma unat_chunk_le: "unat (chunk_size r c) \<le> unat r"
  by (simp add: page_simps)

lemma abs_store_split:
  assumes "k \<le> n" "n \<le> length src" "n \<le> 2 ^ 64"
  shows "abs_store (c + of_nat k) (n - k) (drop k src) (abs_store c k src f) = abs_store c n src f"
proof (rule ext)
  fix x
  have eq: "x - (c + of_nat k) = (x - c) - of_nat k" by simp
  show "abs_store (c + of_nat k) (n - k) (drop k src) (abs_store c k src f) x = abs_store c n src f x"
  proof (cases "unat (x - c) < k")
    case True
    then have "\<not> unat (x - (c + of_nat k)) < n - k"
      using assms unfolding eq
      by (cases "k < 2 ^ 64") (auto simp: unat_sub_if_size unat_of_nat_small word_size)
    with True assms(1) show ?thesis by (simp add: abs_store_def)
  next
    case False
    then have "k < 2 ^ 64" using unsigned_less [of "x - c", where ?'a = nat] by simp
    then have "unat (x - (c + of_nat k)) = unat (x - c) - k"
      using False unfolding eq by (simp add: unat_sub_if_size unat_of_nat_small)
    with False assms show ?thesis by (auto simp: abs_store_def)
  qed
qed

lemma abs_store_0 [simp]: "abs_store c 0 src f = f"
  by (simp add: abs_store_def)

lemma Write_loop_spec:
  assumes "\<forall>i < unat r. mapped m (c + of_nat i)" and "unat r \<le> length src"
  shows "\<exists>m'. Write_loop m r c src = Inr m' \<and> last_fault m' = last_fault m \<and>
           page_keys m' = page_keys m \<and> gm_abs m' = abs_store c (unat r) src (gm_abs m)"
  using assms
proof (induction m r c src rule: Write_loop.induct)
  case (1 m r c src)
  show ?case
  proof (cases "r = 0")
    case False
    let ?k = "chunk_size r c"
    from "1.prems"(1) [unfolded mapped_range_step [OF False]] have mc: "mapped m c"
      and rest: "\<forall>i < unat (r - ?k). mapped m (c + ?k + of_nat i)" by blast+
    from mc obtain page where page: "FindPage m c = Some page" by (auto simp: mapped_def)
    have "unat ?k \<le> length src" using "1.prems"(2) unat_chunk_le [of r c] by simp
    then obtain page' where cpy: "memcpy_to_page page (unat (PageOffset c)) src (unat ?k) = Inr page'"
      using chunk_fits [of c r] by (auto simp: memcpy_to_page_def)
    define m1 where "m1 = m\<lparr>pages := (pages m)(PageBase c \<mapsto> page')\<rparr>"
    have dom1: "page_keys m1 = page_keys m"
      using page by (auto simp: m1_def FindPage_def page_keys_def)
    then have "mapped m1 a = mapped m a" for a
      by (auto simp: mapped_def FindPage_def page_keys_def dom_def)
    with rest have rest1: "\<forall>i < unat (r - ?k). mapped m1 (c + ?k + of_nat i)" by simp
    moreover have "unat (r - ?k) \<le> length (drop (unat ?k) src)"
      using "1.prems"(2) by (simp only: unat_minus_chunk length_drop)
    ultimately obtain m' where m': "Write_loop m1 (r - ?k) (c + ?k) (drop (unat ?k) src) = Inr m'"
      "last_fault m' = last_fault m1" "page_keys m' = page_keys m1"
      "gm_abs m' = abs_store (c + ?k) (unat (r - ?k)) (drop (unat ?k) src) (gm_abs m1)"
      using "1.IH" [OF False refl page cpy] unfolding m1_def by blast
    have "gm_abs m' = abs_store c (unat r) src (gm_abs m)"
      using abs_store_split [of "unat ?k" "unat r" src c "gm_abs m"]
        "1.prems"(2) unat_chunk_le [of r c] unsigned_less [of r, where ?'a = nat]
      unfolding m'(4) m1_def abs_page_update [OF page cpy] unat_minus_chunk by simp
    moreover have "Write_loop m r c src = Inr m'"
      using False page cpy m'(1) by (subst Write_loop.simps) (simp add: m1_def)
    ultimately show ?thesis using m'(2,3) dom1 by (simp add: m1_def)
  qed (simp add: Write_loop.simps)
qed

lemma abs_load_append: "abs_load f a (k + n) = abs_load f a k @ abs_load f (a + of_nat k) n"
  by (rule nth_equalityI) (auto simp: abs_load_def nth_append)

lemma abs_load_page:
  assumes "FindPage m c = Some page" and "unat (PageOffset c) + n \<le> 4096"
  shows "map (page_bytes page) [unat (PageOffset c)..<unat (PageOffset c) + n] =
         abs_load (gm_abs m) c n"
proof (rule nth_equalityI)
  fix i assume "i < length (map (page_bytes page) [unat (PageOffset c)..<unat (PageOffset c) + n])"
  then have i: "i < n" by simp
  with assms(2) have inp: "unat c mod 4096 + i < 4096" by (simp add: page_simps)
  show "map (page_bytes page) [unat (PageOffset c)..<unat (PageOffset c) + n] ! i =
        abs_load (gm_abs m) c n ! i"
    using i assms(1) page_of_in_page [OF inp]
    by (simp add: abs_load_def gm_abs_def FindPage_def)
qed simp

lemma Read_loop_spec:
  assumes "\<forall>i < unat r. mapped m (c + of_nat i)" and "pos + unat r \<le> length out"
  shows "Read_loop m r c pos out =
           Inr (take pos out @ abs_load (gm_abs m) c (unat r) @ drop (pos + unat r) out)"
  using assms
proof (induction m r c pos out rule: Read_loop.induct)
  case (1 m r c pos out)
  show ?case
  proof (cases "r = 0")
    case False
    let ?k = "chunk_size r c" and ?o = "unat (PageOffset c)"
    from "1.prems"(1) [unfolded mapped_range_step [OF False]] have mc: "mapped m c"
      and rest: "\<forall>i < unat (r - ?k). mapped m (c + ?k + of_nat i)" by blast+
    from mc obtain page where page: "FindPage m c = Some page" by (auto simp: mapped_def)
    define out' where "out' = take pos out @ abs_load (gm_abs m) c (unat ?k) @ drop (pos + unat ?k) out"
    have len: "pos + unat ?k \<le> length out" using "1.prems"(2) unat_chunk_le [of r c] by simp
    then have cpy: "memcpy_from_page out pos page ?o (unat ?k) = Inr out'"
      using chunk_fits [of c r] abs_load_page [OF page chunk_fits]
      by (simp add: memcpy_from_page_def out'_def)
    have lo: "length out' = length out" using len by (simp add: out'_def)
    have fits: "pos + unat ?k + unat (r - ?k) \<le> length out'"
      using "1.prems"(2) unat_chunk_le [of r c] by (simp only: lo unat_minus_chunk)
    have "Read_loop m r c pos out = Read_loop m (r - ?k) (c + ?k) (pos + unat ?k) out'"
      using False page cpy by (subst Read_loop.simps) (simp add: Let_def)
    also have "\<dots> = Inr (take (pos + unat ?k) out' @ abs_load (gm_abs m) (c + ?k) (unat (r - ?k)) @
        drop (pos + unat ?k + unat (r - ?k)) out')"
      by (rule "1.IH" [OF False refl page cpy rest fits])
    also have "\<dots> = Inr (take pos out @ abs_load (gm_abs m) c (unat r) @ drop (pos + unat r) out)"
      using abs_load_append [of "gm_abs m" c "unat ?k" "unat r - unat ?k"] len unat_chunk_le [of r c]
      by (simp add: out'_def unat_minus_chunk add.commute)
    finally show ?thesis .
  qed (simp add: Read_loop.simps abs_load_def)
qed

section \<open>The page loop of \<open>Map\<close>\<close>

definition map_pages :: "u8 \<Rightarrow> (u64 \<Rightarrow> bool) \<Rightarrow> (u64 \<rightharpoonup> Page) \<Rightarrow> (u64 \<rightharpoonup> Page)" where
  "map_pages perms P ps = (\<lambda>a. if P a
     then Some ((case ps a of None \<Rightarrow> new_page | Some p \<Rightarrow> p)\<lparr>page_permissions := perms\<rparr>) else ps a)"

lemma map_page_alt: "map_page perms a ps = map_pages perms (\<lambda>x. x = a) ps"
  by (auto simp: map_page_def map_pages_def)

lemma map_pages_map_pages:
  "map_pages perms P (map_pages perms Q ps) = map_pages perms (\<lambda>a. P a \<or> Q a) ps"
  by (auto simp: map_pages_def fun_eq_iff)

lemma unat_pages:
  assumes "k < 2 ^ 52"
  shows "unat (of_nat k * kPageSize) = k * 4096"
proof -
  have "unat (of_nat k :: u64) = k" using assms by (intro unat_of_nat_small) simp
  with assms show ?thesis by (simp add: unat_word_ariths unat_kPageSize)
qed

lemma Map_loop_spec:
  "Map_loop perms (start + of_nat k * kPageSize) start ps =
     Some (map_pages perms (\<lambda>a. \<exists>j \<le> k. a = start + of_nat j * kPageSize) ps)"
  if "k < 2 ^ 52"
  using that
proof (induction k arbitrary: start ps)
  case 0
  then show ?case by (subst Map_loop.simps) (simp add: map_page_alt)
next
  case (Suc k)
  have "of_nat (Suc k) * kPageSize \<noteq> 0"
    using unat_pages [OF Suc.prems] by (metis mult_is_0 nat.distinct(1) unat_0 zero_neq_numeral)
  then have ne: "start \<noteq> start + of_nat (Suc k) * kPageSize" by simp
  have e: "start + of_nat (Suc k) * kPageSize = (start + kPageSize) + of_nat k * kPageSize"
    by (simp add: algebra_simps)
  have "Map_loop perms (start + of_nat (Suc k) * kPageSize) start ps =
        Map_loop perms ((start + kPageSize) + of_nat k * kPageSize) (start + kPageSize)
          (map_page perms start ps)"
    using ne unfolding e by (subst Map_loop.simps) simp
  also have "\<dots> = Some (map_pages perms (\<lambda>a. \<exists>j \<le> k. a = start + kPageSize + of_nat j * kPageSize)
                    (map_page perms start ps))"
    using Suc.prems by (intro Suc.IH) simp
  also have "\<dots> = Some (map_pages perms (\<lambda>a. (\<exists>j \<le> k. a = start + kPageSize + of_nat j * kPageSize) \<or>
                    a = start) ps)"
    by (simp only: map_page_alt map_pages_map_pages)
  also have "(\<lambda>a. (\<exists>j \<le> k. a = start + kPageSize + of_nat j * kPageSize) \<or> a = start) =
             (\<lambda>a. \<exists>j \<le> Suc k. a = start + of_nat j * kPageSize)"
  proof (rule ext)
    fix a
    have "(\<exists>j \<le> Suc k. a = start + of_nat j * kPageSize) \<longleftrightarrow>
          a = start \<or> (\<exists>j \<le> k. a = start + of_nat (Suc j) * kPageSize)"
      by (metis (no_types, lifting) Suc_le_mono add.right_neutral less_eq_nat.simps(1)
          mult_zero_left of_nat_0 old.nat.exhaust)
    then show "((\<exists>j \<le> k. a = start + kPageSize + of_nat j * kPageSize) \<or> a = start) =
               (\<exists>j \<le> Suc k. a = start + of_nat j * kPageSize)"
      by (auto simp: algebra_simps)
  qed
  finally show ?case .
qed

lemma PageBase_idem [simp]: "PageBase (PageBase a) = PageBase a"
  by (simp add: PageBase_def and.assoc)

lemma aligned_iff: "PageBase a = a \<longleftrightarrow> 4096 dvd unat a"
proof -
  have "PageBase a = a \<longleftrightarrow> unat a - unat a mod 4096 = unat a"
    by (simp only: word_unat_eq_iff unat_PageBase)
  also have "\<dots> \<longleftrightarrow> 4096 dvd unat a"
    using mod_less_eq_dividend [of "unat a" 4096] by (auto simp: dvd_eq_mod_eq_0)
  finally show ?thesis .
qed

lemma aligned_pages_between:
  assumes "PageBase s = s" "PageBase e = e" "s \<le> e"
  obtains k where "k < 2 ^ 52" "e = s + of_nat k * kPageSize"
    "\<And>a. (\<exists>j \<le> k. a = s + of_nat j * kPageSize) \<longleftrightarrow> PageBase a = a \<and> s \<le> a \<and> a \<le> e"
proof -
  from assms(1,2) obtain p q where pq: "unat s = 4096 * p" "unat e = 4096 * q"
    by (auto simp: aligned_iff dvd_def)
  from assms(3) pq have "p \<le> q" by (simp add: word_le_nat_alt)
  have q: "q < 2 ^ 52" using unsigned_less [of e, where ?'a = nat] pq(2) by simp
  have un: "unat (s + of_nat j * kPageSize) = 4096 * (p + j)" if "j \<le> q - p" for j
    using that q \<open>p \<le> q\<close> unat_pages [of j]
    by (subst unat_plus_if_size) (auto simp: pq(1) word_size)
  show ?thesis
  proof (rule that)
    show "q - p < 2 ^ 52" using q by simp
    show "e = s + of_nat (q - p) * kPageSize"
      using un [of "q - p"] pq(2) \<open>p \<le> q\<close> by (simp add: word_unat_eq_iff)
    fix a
    show "(\<exists>j \<le> q - p. a = s + of_nat j * kPageSize) \<longleftrightarrow> PageBase a = a \<and> s \<le> a \<and> a \<le> e"
    proof
      assume "\<exists>j \<le> q - p. a = s + of_nat j * kPageSize"
      then show "PageBase a = a \<and> s \<le> a \<and> a \<le> e"
        using un pq \<open>p \<le> q\<close> by (auto simp: aligned_iff word_le_nat_alt)
    next
      assume a: "PageBase a = a \<and> s \<le> a \<and> a \<le> e"
      then obtain r where r: "unat a = 4096 * r" by (auto simp: aligned_iff dvd_def)
      with a pq have "p \<le> r" "r \<le> q" by (auto simp: word_le_nat_alt)
      then have "a = s + of_nat (r - p) * kPageSize"
        using un [of "r - p"] r by (simp add: word_unat_eq_iff)
      with \<open>r \<le> q\<close> show "\<exists>j \<le> q - p. a = s + of_nat j * kPageSize"
        by (intro exI [of _ "r - p"]) auto
    qed
  qed
qed

lemma PageBase_mono: "a \<le> b \<Longrightarrow> PageBase a \<le> PageBase b"
proof -
  assume "a \<le> b"
  have base: "unat (PageBase x) = 4096 * (unat x div 4096)" for x
    by (simp add: page_simps minus_mod_eq_mult_div)
  have "unat a div 4096 \<le> unat b div 4096"
    using \<open>a \<le> b\<close> by (simp add: word_le_nat_alt div_le_mono)
  then show "PageBase a \<le> PageBase b" by (simp add: word_le_nat_alt base)
qed

definition abs_map :: "u64 \<Rightarrow> u64 \<Rightarrow> u8 \<Rightarrow> (u64 \<rightharpoonup> u8 \<times> u8) \<Rightarrow> (u64 \<rightharpoonup> u8 \<times> u8)" where
  "abs_map a n perms f = (\<lambda>x. if PageBase a \<le> PageBase x \<and> PageBase x \<le> PageBase (a + n - 1)
     then Some (perms, case f x of None \<Rightarrow> 0 | Some (_, b) \<Rightarrow> b) else f x)"

lemma Map_result:
  assumes "n \<noteq> 0" "unat a + unat n \<le> 2 ^ 64"
  shows "\<exists>m'. GuestMemory_Map m a n perms = Inr (True, m') \<and> last_fault m' = last_fault m \<and>
    gm_abs m' = abs_map a n perms (gm_abs m) \<and>
    page_keys m' = page_keys m \<union> {p. PageBase p = p \<and> PageBase a \<le> p \<and> p \<le> PageBase (a + n - 1)}"
proof -
  let ?s = "PageBase a" and ?e = "PageBase (a + n - 1)"
  have "unat (a + n - 1) = unat a + unat n - 1"
  proof -
    have "a + n - 1 = a + (n - 1)" by simp
    moreover have "unat (n - 1) = unat n - 1" using assms(1) by (simp add: unat_minus_one)
    moreover have "0 < unat n" using assms(1) by (simp add: unat_gt_0)
    ultimately show ?thesis using assms(2) by (simp only:) (simp add: unat_plus_if_size word_size)
  qed
  moreover have "0 < unat n" using assms(1) by (simp add: unat_gt_0)
  ultimately have "a \<le> a + n - 1" by (simp add: word_le_nat_alt)
  then have "?s \<le> ?e" by (rule PageBase_mono)
  then obtain k where k: "k < 2 ^ 52" "?e = ?s + of_nat k * kPageSize"
    and rng: "\<And>x. (\<exists>j \<le> k. x = ?s + of_nat j * kPageSize) \<longleftrightarrow> PageBase x = x \<and> ?s \<le> x \<and> x \<le> ?e"
    by (rule aligned_pages_between [OF PageBase_idem PageBase_idem]) blast
  have "Map_loop perms ?e ?s (pages m) =
        Some (map_pages perms (\<lambda>x. PageBase x = x \<and> ?s \<le> x \<and> x \<le> ?e) (pages m))"
    using Map_loop_spec [OF k(1), of perms ?s "pages m"] unfolding k(2) [symmetric] rng .
  then have "GuestMemory_Map m a n perms = Inr (True, m\<lparr>pages :=
      map_pages perms (\<lambda>x. PageBase x = x \<and> ?s \<le> x \<and> x \<le> ?e) (pages m)\<rparr>)"
    using assms by (simp add: GuestMemory_Map_def no_overflow_iff)
  moreover have "gm_abs (m\<lparr>pages := map_pages perms (\<lambda>x. PageBase x = x \<and> ?s \<le> x \<and> x \<le> ?e) (pages m)\<rparr>) =
      abs_map a n perms (gm_abs m)"
    by (rule ext) (auto simp: gm_abs_def abs_map_def map_pages_def FindPage_def new_page_def
        split: option.splits)
  ultimately show ?thesis by (auto simp: map_pages_def page_keys_def split: if_splits)
qed

lemma pages_SetFault [simp]: "pages (SetFault m k a s op d) = pages m"
  by (simp add: SetFault_def)

section \<open>The operations against the abstract memory\<close>

text \<open>
  \<open>gm_abs\<close> forgets the pages: an address is unmapped or has a permission byte and a
  value. \<open>access_ok\<close> is the address-by-address reading of the chunked access check.
\<close>

definition access_ok :: "u8 \<Rightarrow> GuestMemory \<Rightarrow> u64 \<Rightarrow> u64 \<Rightarrow> bool" where
  "access_ok perm m a n \<longleftrightarrow>
     n = 0 \<or> (unat a + unat n \<le> 2 ^ 64 \<and> (\<forall>i < unat n. accessible perm m (a + of_nat i)))"

lemma CheckAccess_access_ok: "fst (CheckAccess m a n perm op) \<longleftrightarrow> access_ok perm m a n"
  by (simp add: CheckAccess_iff access_ok_def)

lemma access_ok_mapped:
  "access_ok perm m a n \<Longrightarrow> n \<noteq> 0 \<Longrightarrow> \<forall>i < unat n. mapped m (a + of_nat i)"
  by (auto simp: access_ok_def accessible_mapped)

lemma CheckAccess_outcome:
  obtains "access_ok perm m a n" "CheckAccess m a n perm op = (True, m)"
  | m' where "\<not> access_ok perm m a n" "CheckAccess m a n perm op = (False, m')"
      "only_fault m m'" "last_fault m' \<noteq> None"
  using CheckAccess_access_ok [of m a n perm op] CheckAccess_state [of m a n perm op]
  by (cases "CheckAccess m a n perm op") (auto split: if_splits)

lemma Write_ok:
  assumes "unat n \<le> length src" "access_ok PermWrite m a n"
  shows "\<exists>m'. GuestMemory_Write m a (Some src) n = Inr (True, m') \<and> last_fault m' = last_fault m \<and>
           page_keys m' = page_keys m \<and> gm_abs m' = abs_store a (unat n) src (gm_abs m)"
proof (cases "n = 0")
  case False
  have "CheckAccess m a n PermWrite ''write'' = (True, m)"
    using assms(2) by (cases rule: CheckAccess_outcome) auto
  moreover obtain m' where "Write_loop m n a src = Inr m'" "last_fault m' = last_fault m"
    "page_keys m' = page_keys m" "gm_abs m' = abs_store a (unat n) src (gm_abs m)"
    using Write_loop_spec [OF access_ok_mapped [OF assms(2) False] assms(1)] by blast
  ultimately show ?thesis using False by (simp add: GuestMemory_Write_def)
qed (simp add: GuestMemory_Write_def)

lemma Write_refused:
  assumes "\<not> access_ok PermWrite m a n"
  shows "\<exists>m'. GuestMemory_Write m a (Some src) n = Inr (False, m') \<and> only_fault m m' \<and>
           last_fault m' \<noteq> None"
proof -
  from assms have "n \<noteq> 0" by (auto simp: access_ok_def)
  with assms show ?thesis
    by (cases rule: CheckAccess_outcome [of PermWrite m a n "''write''"])
       (auto simp: GuestMemory_Write_def)
qed

lemma Read_ok:
  assumes "unat n \<le> length buf" "access_ok PermRead m a n"
  shows "GuestMemory_Read m a (Some buf) n =
           Inr (True, Some (abs_load (gm_abs m) a (unat n) @ drop (unat n) buf), m)"
proof (cases "n = 0")
  case False
  have "CheckAccess m a n PermRead ''read'' = (True, m)"
    using assms(2) by (cases rule: CheckAccess_outcome) auto
  then show ?thesis
    using False assms(1) Read_loop_spec [OF access_ok_mapped [OF assms(2) False], of 0 buf]
    by (simp add: GuestMemory_Read_def)
qed (simp add: GuestMemory_Read_def abs_load_def)

lemma Read_refused:
  assumes "unat n \<le> length buf" "\<not> access_ok PermRead m a n"
  shows "\<exists>m'. GuestMemory_Read m a (Some buf) n =
                Inr (False, Some (replicate (unat n) 0 @ drop (unat n) buf), m') \<and>
              only_fault m m' \<and> last_fault m' \<noteq> None"
proof -
  from assms(2) have "n \<noteq> 0" by (auto simp: access_ok_def)
  with assms show ?thesis
    by (cases rule: CheckAccess_outcome [of PermRead m a n "''read''"])
       (auto simp: GuestMemory_Read_def)
qed

lemma access_ok_same_abs:
  assumes "\<And>x. map_option fst (gm_abs m' x) = map_option fst (gm_abs m x)"
  shows "access_ok perm m' a n = access_ok perm m a n"
proof -
  have acc: "accessible perm k x =
      (case map_option fst (gm_abs k x) of None \<Rightarrow> False | Some p \<Rightarrow> p AND perm = perm)" for k x
    by (auto simp: accessible_abs split: option.splits)
  show ?thesis by (simp add: access_ok_def acc assms)
qed

lemma perms_abs_store: "map_option fst (abs_store a n src f x) = map_option fst (f x)"
  by (auto simp: abs_store_def option.map_comp comp_def split_def)

lemma write_keeps_access:
  "gm_abs m' = abs_store a k src (gm_abs m) \<Longrightarrow> access_ok perm m' b n = access_ok perm m b n"
  by (rule access_ok_same_abs) (simp add: perms_abs_store)

lemma only_fault_abs: "only_fault m m' \<Longrightarrow> gm_abs m' = gm_abs m"
  by (simp add: only_fault_def gm_abs_def FindPage_def)

subsection \<open>Properties of the guest memory\<close>

text \<open>
  C4. A write of \<open>n\<close> bytes from a buffer that holds them always returns (no null page, no
  copy outside a page or the buffer, no endless loop). It succeeds exactly when the range
  does not wrap past the end of the address space and every address in it is mapped with
  the write permission; then exactly the addresses of the range take the buffer's bytes,
  and permissions, all other addresses and the fault record are unchanged. Otherwise no
  page changes, and a fault is on record.
\<close>

theorem write_refines_store:
  assumes "unat n \<le> length src"
  shows "\<exists>ok m'. GuestMemory_Write m a (Some src) n = Inr (ok, m') \<and>
           (ok \<longleftrightarrow> access_ok PermWrite m a n) \<and>
           (if ok then gm_abs m' = abs_store a (unat n) src (gm_abs m) \<and> last_fault m' = last_fault m
            else pages m' = pages m \<and> last_fault m' \<noteq> None)"
proof (cases "access_ok PermWrite m a n")
  case True
  from Write_ok [OF assms this] obtain m' where
    "GuestMemory_Write m a (Some src) n = Inr (True, m')" "last_fault m' = last_fault m"
    "gm_abs m' = abs_store a (unat n) src (gm_abs m)" by blast
  with True show ?thesis by (intro exI [of _ True] exI [of _ m']) simp
next
  case False
  from Write_refused [OF this, of src] obtain m' where
    "GuestMemory_Write m a (Some src) n = Inr (False, m')" "only_fault m m'" "last_fault m' \<noteq> None"
    by blast
  with False show ?thesis by (intro exI [of _ False] exI [of _ m']) (simp add: only_fault_def)
qed

text \<open>
  C19. A read into a buffer of at least \<open>n\<close> bytes always returns. It succeeds exactly when
  the range does not wrap and every address in it is mapped readable, and then the first
  \<open>n\<close> bytes of the buffer are the bytes of memory and the memory object is unchanged.
  Otherwise those bytes are zero, the pages are unchanged and a fault is on record. The
  rest of the buffer is never touched.
\<close>

theorem read_returns_memory:
  assumes "unat n \<le> length buf"
  shows "\<exists>ok bs m'. GuestMemory_Read m a (Some buf) n = Inr (ok, Some (bs @ drop (unat n) buf), m') \<and>
           (ok \<longleftrightarrow> access_ok PermRead m a n) \<and>
           (if ok then bs = abs_load (gm_abs m) a (unat n) \<and> m' = m
            else bs = replicate (unat n) 0 \<and> pages m' = pages m \<and> last_fault m' \<noteq> None)"
proof (cases "access_ok PermRead m a n")
  case True
  with Read_ok [OF assms] show ?thesis by fastforce
next
  case False
  with Read_refused [OF assms] show ?thesis by (fastforce simp: only_fault_def)
qed

text \<open>
  C20. \<open>Map\<close> always returns. A non-empty range that does not wrap maps exactly the pages it
  touches, gives all of them the requested permissions, keeps the bytes of pages that were
  already mapped and zeroes the new ones; the fault record is unchanged. A range that
  wraps is refused with a recorded fault and no page changes.
\<close>

theorem map_refines_abs_map:
  "\<exists>ok m'. GuestMemory_Map m a n perms = Inr (ok, m') \<and>
     (ok \<longleftrightarrow> n = 0 \<or> unat a + unat n \<le> 2 ^ 64) \<and>
     (if n = 0 then m' = m
      else if ok then gm_abs m' = abs_map a n perms (gm_abs m) \<and> last_fault m' = last_fault m
      else pages m' = pages m \<and> last_fault m' \<noteq> None)"
proof (cases "n = 0 \<or> unat a + unat n \<le> 2 ^ 64")
  case True
  show ?thesis
  proof (cases "n = 0")
    case False
    with True Map_result [of n a m perms] obtain m' where
      "GuestMemory_Map m a n perms = Inr (True, m')" "last_fault m' = last_fault m"
      "gm_abs m' = abs_map a n perms (gm_abs m)" by blast
    with True False show ?thesis by (intro exI [of _ True] exI [of _ m']) simp
  qed (auto simp: GuestMemory_Map_def)
next
  case False
  then show ?thesis
    by (auto simp: GuestMemory_Map_def no_overflow_iff SetFault_def)
qed

subsection \<open>Which fault is recorded\<close>

definition access_fault :: "GuestMemory \<Rightarrow> u8 \<Rightarrow> string \<Rightarrow> u64 \<Rightarrow> u64 \<Rightarrow> MemoryFault \<Rightarrow> bool" where
  "access_fault m perm op a n f \<longleftrightarrow>
     (\<exists>k < unat n. (\<forall>i < k. accessible perm m (a + of_nat i)) \<and>
        \<not> accessible perm m (a + of_nat k) \<and>
        f = \<lparr>fault_kind = (if mapped m (a + of_nat k) then FaultPermission else FaultUnmapped),
             fault_address = a + of_nat k,
             fault_size = chunk_size (n - of_nat k) (a + of_nat k),
             fault_operation = op,
             fault_detail = (if mapped m (a + of_nat k)
               then ''page permissions do not allow access'' else ''page is not mapped'')\<rparr>)"

lemma access_fault_head:
  assumes "n \<noteq> 0" "\<not> accessible perm m a"
    and "f = \<lparr>fault_kind = (if mapped m a then FaultPermission else FaultUnmapped),
             fault_address = a, fault_size = chunk_size n a, fault_operation = op,
             fault_detail = (if mapped m a
               then ''page permissions do not allow access'' else ''page is not mapped'')\<rparr>"
  shows "access_fault m perm op a n f"
  unfolding access_fault_def using assms by (intro exI [of _ 0]) (simp add: unat_gt_0)

lemma access_fault_step:
  assumes "accessible perm m a"
    and "access_fault m perm op (a + chunk_size n a) (n - chunk_size n a) f"
  shows "access_fault m perm op a n f"
proof -
  let ?c = "unat (chunk_size n a)"
  have shift: "a + chunk_size n a + of_nat k = a + of_nat (?c + k)"
    "n - chunk_size n a - of_nat k = n - of_nat (?c + k)" for k
    by (simp_all only: of_nat_add of_nat_unat ucast_id) (simp_all only: add.assoc diff_diff_add)
  from assms(2) obtain k where k: "k < unat n - ?c"
    "\<forall>i < k. accessible perm m (a + of_nat (?c + i))"
    and f: "\<not> accessible perm m (a + of_nat (?c + k))"
      "f = \<lparr>fault_kind = (if mapped m (a + of_nat (?c + k)) then FaultPermission else FaultUnmapped),
             fault_address = a + of_nat (?c + k),
             fault_size = chunk_size (n - of_nat (?c + k)) (a + of_nat (?c + k)),
             fault_operation = op,
             fault_detail = (if mapped m (a + of_nat (?c + k))
               then ''page permissions do not allow access'' else ''page is not mapped'')\<rparr>"
    unfolding access_fault_def unat_minus_chunk shift by (elim exE conjE) (rule that)
  have "accessible perm m (a + of_nat i)" if "i < ?c + k" for i
  proof (cases "i < ?c")
    case True
    then show ?thesis using assms(1) accessible_in_page chunk_in_page by blast
  next
    case False
    then obtain j where "i = ?c + j" by (metis le_Suc_ex not_less)
    with that k(2) show ?thesis by simp
  qed
  moreover have "?c + k < unat n" using k(1) by simp
  ultimately show ?thesis unfolding access_fault_def using f by blast
qed

lemma CheckAccess_loop_fault:
  assumes "CheckAccess_loop m perm op n a = (False, m')" "last_fault m = None"
  shows "\<exists>f. last_fault m' = Some f \<and> access_fault m perm op a n f"
  using assms
proof (induction m perm op n a rule: CheckAccess_loop.induct)
  case (1 m perm op n a)
  from "1.prems"(1) have n: "n \<noteq> 0" by (auto simp: CheckAccess_loop.simps)
  show ?case
  proof (cases "accessible perm m a")
    case True
    then obtain p where p: "FindPage m a = Some p" "page_permissions p AND perm = perm"
      by (auto simp: accessible_def split: option.splits)
    from "1.prems"(1) n p
    have "CheckAccess_loop m perm op (n - chunk_size n a) (a + chunk_size n a) = (False, m')"
      by (subst (asm) CheckAccess_loop.simps) (simp add: Let_def)
    with "1.IH" [OF n refl p(1)] p(2) "1.prems"(2)
    obtain f where "last_fault m' = Some f"
      "access_fault m perm op (a + chunk_size n a) (n - chunk_size n a) f" by auto
    with access_fault_step [OF True] show ?thesis by blast
  next
    case False
    with "1.prems" n show ?thesis
      by (subst (asm) CheckAccess_loop.simps)
         (auto simp: Let_def SetFault_def accessible_def mapped_def
           intro!: access_fault_head split: option.splits if_splits)
  qed
qed

text \<open>
  C26. A refused write on a memory without a fault records the first address of the range
  that is not writable (the part of the range in that address's page is the recorded
  size), as unmapped or as a permission fault, or the overflow of the whole range.
\<close>

theorem write_fault_is_first_bad_address:
  assumes "last_fault m = None" and "GuestMemory_Write m a (Some src) n = Inr (False, m')"
  shows "\<exists>f. last_fault m' = Some f \<and>
     (if 2 ^ 64 < unat a + unat n
      then f = \<lparr>fault_kind = FaultBackendError, fault_address = a, fault_size = n,
                fault_operation = ''write'', fault_detail = ''access range overflows uint64_t''\<rparr>
      else access_fault m PermWrite ''write'' a n f)"
proof -
  from assms(2) have n: "n \<noteq> 0" by (auto simp: GuestMemory_Write_def)
  with assms(2) have c: "CheckAccess m a n PermWrite ''write'' = (False, m')"
    by (auto simp: GuestMemory_Write_def res_simps split: prod.splits bool.splits)
  show ?thesis
  proof (cases "2 ^ 64 < unat a + unat n")
    case True
    with c n assms(1) show ?thesis
      by (auto simp: CheckAccess_def no_overflow_iff SetFault_def)
  next
    case False
    with c n have "CheckAccess_loop m PermWrite ''write'' n a = (False, m')"
      by (auto simp: CheckAccess_def no_overflow_iff)
    from CheckAccess_loop_fault [OF this assms(1)] False show ?thesis by simp
  qed
qed

subsection \<open>Reachable memories\<close>

inductive gm_step :: "GuestMemory \<Rightarrow> GuestMemory \<Rightarrow> bool" where
  step_map: "GuestMemory_Map m a n perms = Inr (ok, m') \<Longrightarrow> gm_step m m'"
| step_write: "GuestMemory_Write m a src n = Inr (ok, m') \<Longrightarrow> gm_step m m'"
| step_read: "GuestMemory_Read m a out n = Inr (ok, out', m') \<Longrightarrow> gm_step m m'"
| step_unsupported: "gm_step m (GuestMemory_SetUnsupported m a d)"
| step_backend_error: "gm_step m (GuestMemory_SetBackendError m d)"

lemma Map_sticky:
  "GuestMemory_Map m a n perms = Inr (ok, m') \<Longrightarrow> last_fault m = Some f \<Longrightarrow> last_fault m' = Some f"
  by (auto simp: GuestMemory_Map_def SetFault_def split: if_splits option.splits)

lemma Write_loop_last_fault:
  "Write_loop m r c src = Inr m' \<Longrightarrow> last_fault m' = last_fault m \<and> page_keys m' = page_keys m"
proof (induction m r c src rule: Write_loop.induct)
  case (1 m r c src)
  show ?case
  proof (cases "r = 0")
    case False
    with "1.prems" obtain page page' where p: "FindPage m c = Some page"
      "memcpy_to_page page (unat (PageOffset c)) src (unat (chunk_size r c)) = Inr page'"
      "Write_loop (m\<lparr>pages := (pages m)(PageBase c \<mapsto> page')\<rparr>) (r - chunk_size r c)
         (c + chunk_size r c) (drop (unat (chunk_size r c)) src) = Inr m'"
      by (subst (asm) Write_loop.simps) (auto simp: Let_def split: option.splits sum.splits)
    from "1.IH" [OF False refl p] p(1) show ?thesis
      by (simp add: FindPage_def page_keys_def insert_absorb domI)
  qed (use "1.prems" in \<open>simp add: Write_loop.simps\<close>)
qed

lemma CheckAccess_sticky:
  assumes "CheckAccess m a n perm op = (ok, m')"
  shows "pages m' = pages m" "page_keys m' = page_keys m"
    "last_fault m = Some f \<Longrightarrow> last_fault m' = Some f"
  using CheckAccess_state [OF assms] by (auto simp: only_fault_def page_keys_def split: if_splits)

lemma Write_frame:
  assumes "GuestMemory_Write m a src n = Inr (ok, m')"
  shows "page_keys m' = page_keys m" "last_fault m = Some f \<Longrightarrow> last_fault m' = Some f"
proof -
  consider "m' = m" | d where "m' = SetFault m FaultBackendError a n ''write'' d"
    | "CheckAccess m a n PermWrite ''write'' = (False, m')"
    | m1 bs where "CheckAccess m a n PermWrite ''write'' = (True, m1)" "Write_loop m1 n a bs = Inr m'"
    using assms by (auto simp: GuestMemory_Write_def res_simps
        split: if_splits option.splits prod.splits bool.splits)
  note cases = this
  show "page_keys m' = page_keys m"
    by (cases rule: cases) (simp_all add: CheckAccess_sticky(2) Write_loop_last_fault,
      simp add: page_keys_def)
  show "last_fault m = Some f \<Longrightarrow> last_fault m' = Some f"
    by (cases rule: cases) (simp_all add: CheckAccess_sticky(3) Write_loop_last_fault,
      simp add: SetFault_def)
qed

lemma Read_frame:
  assumes "GuestMemory_Read m a out n = Inr (ok, out', m')"
  shows "pages m' = pages m" "last_fault m = Some f \<Longrightarrow> last_fault m' = Some f"
  using assms
  by (auto simp: GuestMemory_Read_def SetFault_def res_simps CheckAccess_sticky
      split: if_splits option.splits prod.splits bool.splits)

lemma gm_step_sticky: "gm_step m m' \<Longrightarrow> last_fault m = Some f \<Longrightarrow> last_fault m' = Some f"
  by (induction rule: gm_step.induct)
     (auto simp: Map_sticky Write_frame Read_frame GuestMemory_SetUnsupported_def
       GuestMemory_SetBackendError_def SetFault_def)

text \<open>
  C27. The first fault wins: once a fault is recorded, no sequence of maps, reads, writes
  and reported errors replaces it; only \<open>ClearStatus\<close> and \<open>Reset\<close> remove it.
\<close>

theorem first_fault_is_sticky:
  assumes "gm_step\<^sup>*\<^sup>* m m'" and "last_fault m = Some f"
  shows "last_fault m' = Some f \<and> \<not> GuestMemory_ok m'"
proof -
  have "last_fault m' = Some f"
    using assms by (induction rule: rtranclp_induct) (auto intro: gm_step_sticky)
  then show ?thesis by (simp add: GuestMemory_ok_def)
qed

definition pages_aligned :: "GuestMemory \<Rightarrow> bool" where
  "pages_aligned m \<longleftrightarrow> (\<forall>p \<in> page_keys m. PageBase p = p)"

inductive reachable_memory :: "GuestMemory \<Rightarrow> bool" where
  reach_new: "reachable_memory new_memory"
| reach_step: "reachable_memory m \<Longrightarrow> gm_step m m' \<Longrightarrow> reachable_memory m'"
| reach_clear: "reachable_memory m \<Longrightarrow> reachable_memory (GuestMemory_ClearStatus m)"
| reach_reset: "reachable_memory m \<Longrightarrow> reachable_memory (GuestMemory_Reset m)"

lemma Map_pages:
  assumes "GuestMemory_Map m a n perms = Inr (ok, m')"
  shows "page_keys m' \<subseteq> page_keys m \<union> {p. PageBase p = p}"
proof (cases "n = 0 \<or> 2 ^ 64 < unat a + unat n")
  case True
  with assms show ?thesis
    by (cases "n = 0") (auto simp: GuestMemory_Map_def no_overflow_iff page_keys_def)
next
  case False
  with Map_result [of n a m perms] assms show ?thesis by auto
qed

lemma gm_step_aligned: "gm_step m m' \<Longrightarrow> pages_aligned m \<Longrightarrow> pages_aligned m'"
proof (induction rule: gm_step.induct)
  case (step_map m a n perms ok m')
  with Map_pages [OF step_map(1)] show ?case by (auto simp: pages_aligned_def)
next
  case (step_read m a out n ok out' m')
  then show ?case by (simp add: pages_aligned_def page_keys_def Read_frame(1))
qed (auto simp: pages_aligned_def Write_frame, auto simp: page_keys_def
       GuestMemory_SetUnsupported_def GuestMemory_SetBackendError_def)

text \<open>
  C28. In every memory the program can build, the page table is keyed by page-aligned
  addresses only, so every byte has exactly one page it can live in.
\<close>

theorem reachable_pages_aligned: "reachable_memory m \<Longrightarrow> pages_aligned m"
  by (induction rule: reachable_memory.induct)
     (auto simp: gm_step_aligned, auto simp: new_memory_def pages_aligned_def page_keys_def
       GuestMemory_ClearStatus_def GuestMemory_Reset_def)

section \<open>The guest memory as a byte memory\<close>

definition gm_load :: "GuestMemory \<Rightarrow> u64 \<Rightarrow> nat \<Rightarrow> u8 list option" where
  "gm_load m a n =
     (case GuestMemory_Read m a (Some (replicate n 0)) (of_nat n) of
        Inr (True, Some bs, _) \<Rightarrow> Some bs | _ \<Rightarrow> None)"

definition gm_store :: "GuestMemory \<Rightarrow> u64 \<Rightarrow> u8 list \<Rightarrow> GuestMemory option" where
  "gm_store m a bs =
     (case GuestMemory_Write_vector m a bs of Inr (True, m') \<Rightarrow> Some m' | _ \<Rightarrow> None)"

lemma unat_size_le: "unat (of_nat n :: u64) \<le> n"
  by (simp add: unat_of_nat)

lemma gm_load_eq:
  assumes "n < 2 ^ 64"
  shows "gm_load m a n =
     (if access_ok PermRead m a (of_nat n) then Some (abs_load (gm_abs m) a n) else None)"
proof -
  have n: "unat (of_nat n :: u64) = n" using assms by (intro unat_of_nat_small) simp
  show ?thesis
    using Read_ok [of "of_nat n" "replicate n 0" m a] Read_refused [of "of_nat n" "replicate n 0" m a]
    by (auto simp: gm_load_def n)
qed

lemma gm_store_eq:
  assumes "length bs < 2 ^ 64"
  shows "gm_store m a bs = None \<longleftrightarrow> \<not> access_ok PermWrite m a (of_nat (length bs))"
    and "gm_store m a bs = Some m' \<Longrightarrow> gm_abs m' = abs_store a (length bs) bs (gm_abs m)"
proof -
  have n: "unat (of_nat (length bs) :: u64) = length bs"
    using assms by (intro unat_of_nat_small) simp
  show "gm_store m a bs = None \<longleftrightarrow> \<not> access_ok PermWrite m a (of_nat (length bs))"
    and "gm_store m a bs = Some m' \<Longrightarrow> gm_abs m' = abs_store a (length bs) bs (gm_abs m)"
    using Write_ok [of "of_nat (length bs)" bs m a] Write_refused [of m a "of_nat (length bs)" bs]
    unfolding gm_store_def GuestMemory_Write_vector_def n
    by (cases "access_ok PermWrite m a (of_nat (length bs))"; auto)+
qed

lemma abs_load_stored:
  assumes "\<forall>i < length bs. f (a + of_nat i) \<noteq> None" "length bs < 2 ^ 64"
  shows "abs_load (abs_store a (length bs) bs f) a (length bs) = bs"
proof (rule nth_equalityI)
  fix i assume "i < length (abs_load (abs_store a (length bs) bs f) a (length bs))"
  then have i: "i < length bs" by simp
  then have "unat (of_nat i :: u64) = i" using assms(2) by (intro unat_of_nat_small) simp
  with i assms(1) show "abs_load (abs_store a (length bs) bs f) a (length bs) ! i = bs ! i"
    by (auto simp: abs_load_def abs_store_def)
qed simp

lemma abs_load_elsewhere:
  assumes "disjoint_ranges a n b k"
  shows "abs_load (abs_store a n bs f) b k = abs_load f b k"
proof -
  have "\<not> unat (b + of_nat j - a) < n" if "j < k" for j
  proof
    assume "unat (b + of_nat j - a) < n"
    moreover have "a + of_nat (unat (b + of_nat j - a)) = b + of_nat j" by simp
    ultimately show False using assms that unfolding disjoint_ranges_def by blast
  qed
  then show ?thesis by (simp add: abs_load_def abs_store_def)
qed

lemma access_ok_abs:
  "access_ok perm m a n \<Longrightarrow> i < unat n \<Longrightarrow> gm_abs m (a + of_nat i) \<noteq> None"
  by (cases "n = 0") (auto simp: access_ok_def accessible_abs split: option.splits)

interpretation gm: byte_memory gm_load gm_store
proof
  fix m m' :: GuestMemory and a b :: u64 and n :: nat and bs cs :: "u8 list"
  show "gm_load m a n = Some bs \<Longrightarrow> n < 2 ^ 64 \<Longrightarrow> length bs = n"
    by (auto simp: gm_load_eq split: if_splits)
  assume st: "gm_store m a bs = Some m'" and len: "length bs < 2 ^ 64"
  note abs = gm_store_eq(2) [OF len st]
  note perm = write_keeps_access [OF abs]
  show "gm_load m a (length bs) \<noteq> None \<Longrightarrow> gm_load m' a (length bs) = Some bs"
    using len access_ok_abs [of PermRead m a "of_nat (length bs)"]
    by (auto simp: gm_load_eq perm abs abs_load_stored unat_of_nat_small split: if_splits)
  show "n < 2 ^ 64 \<Longrightarrow> disjoint_ranges a (length bs) b n \<Longrightarrow> gm_load m' b n = gm_load m b n"
    by (simp add: gm_load_eq perm abs abs_load_elsewhere)
  show "n < 2 ^ 64 \<Longrightarrow> (gm_load m' b n = None) = (gm_load m b n = None)"
    by (simp add: gm_load_eq perm)
  show "length cs < 2 ^ 64 \<Longrightarrow> (gm_store m' b cs = None) = (gm_store m b cs = None)"
    by (simp add: gm_store_eq(1) perm)
next
  fix m m' :: GuestMemory and a b :: u64 and n :: nat and bs cs :: "u8 list"
  show "length cs = length bs \<Longrightarrow> length bs < 2 ^ 64 \<Longrightarrow>
        (gm_store m a cs = None) = (gm_store m a bs = None)"
    by (simp add: gm_store_eq(1))
qed
section \<open>Little-endian words\<close>

lemma small_sizes:
  assumes "LENGTH('a::len) \<le> 64"
  shows "unat (of_nat (LENGTH('a) div 8) :: u64) = LENGTH('a) div 8" "LENGTH('a) div 8 < 2 ^ 64"
proof -
  show "LENGTH('a) div 8 < 2 ^ 64" using assms by simp
  then show "unat (of_nat (LENGTH('a) div 8) :: u64) = LENGTH('a) div 8"
    by (intro unat_of_nat_small) simp
qed

lemma ReadLittleEndian_cases:
  assumes "LENGTH('a) \<le> 64"
  obtains v where "load_word gm_load m a = Some v"
      "ReadLittleEndian m a = Inr (True, v :: 'a::len word, m)"
  | m' where "(load_word gm_load m a :: 'a word option) = None"
      "ReadLittleEndian m a = Inr (False, 0 :: 'a word, m')" "only_fault m m'" "last_fault m' \<noteq> None"
proof (cases "access_ok PermRead m a (of_nat (LENGTH('a) div 8))")
  case True
  let ?bs = "abs_load (gm_abs m) a (LENGTH('a) div 8)"
  have "load_word gm_load m a = Some (le_word ?bs :: 'a word)"
    using True by (simp add: load_word_def gm_load_eq [OF small_sizes(2) [OF assms]])
  moreover have "ReadLittleEndian m a = Inr (True, le_word ?bs :: 'a word, m)"
    using Read_ok [OF _ True, of "replicate (LENGTH('a) div 8) 0"]
    by (simp add: ReadLittleEndian_def small_sizes [OF assms])
  ultimately show thesis by (rule that(1))
next
  case False
  have "(load_word gm_load m a :: 'a word option) = None"
    using False by (simp add: load_word_def gm_load_eq [OF small_sizes(2) [OF assms]])
  moreover obtain m' where m': "ReadLittleEndian m a = Inr (False, 0 :: 'a word, m')"
    "only_fault m m'" "last_fault m' \<noteq> None"
    using Read_refused [OF _ False, of "replicate (LENGTH('a) div 8) 0"]
    by (auto simp: ReadLittleEndian_def small_sizes [OF assms])
  ultimately show thesis by (rule that(2))
qed

lemma WriteLittleEndian_cases:
  fixes v :: "'a::len word"
  assumes "LENGTH('a) \<le> 64"
  obtains m' where "store_word gm_store m a v = Some m'" "WriteLittleEndian m a v = Inr (True, m')"
      "last_fault m' = last_fault m"
  | m' where "store_word gm_store m a v = None" "WriteLittleEndian m a v = Inr (False, m')"
      "only_fault m m'" "last_fault m' \<noteq> None"
proof (cases "access_ok PermWrite m a (of_nat (LENGTH('a) div 8))")
  case True
  obtain m' where m': "GuestMemory_Write m a (Some (le_bytes v)) (of_nat (LENGTH('a) div 8)) = Inr (True, m')"
    "last_fault m' = last_fault m"
    using Write_ok [OF _ True, of "le_bytes v"] by (auto simp: small_sizes [OF assms])
  show thesis
    by (rule that(1) [of m'])
       (simp_all add: store_word_def gm_store_def GuestMemory_Write_vector_def WriteLittleEndian_def m')
next
  case False
  obtain m' where m': "GuestMemory_Write m a (Some (le_bytes v)) (of_nat (LENGTH('a) div 8)) = Inr (False, m')"
    "only_fault m m'" "last_fault m' \<noteq> None"
    using Write_refused [OF False, of "le_bytes v"] by auto
  show thesis
    by (rule that(2) [of m'])
       (simp_all add: store_word_def gm_store_def GuestMemory_Write_vector_def WriteLittleEndian_def m')
qed

lemma ReadLittleEndian_load:
  fixes v :: "'a::len word"
  assumes "LENGTH('a) \<le> 64"
  shows "ReadLittleEndian m a = Inr (True, v, m') \<longleftrightarrow> load_word gm_load m a = Some v \<and> m' = m"
  by (rule ReadLittleEndian_cases [OF assms, of m a]) auto

lemma WriteLittleEndian_store:
  fixes v :: "'a::len word"
  assumes "LENGTH('a) \<le> 64"
  shows "WriteLittleEndian m a v = Inr (True, m') \<longleftrightarrow> store_word gm_store m a v = Some m'"
  by (rule WriteLittleEndian_cases [OF assms, of m a v]) auto

lemma perm_weaken:
  "p AND PermReadWrite = PermReadWrite \<Longrightarrow> p AND PermRead = PermRead \<and> p AND PermWrite = PermWrite"
proof -
  assume "p AND PermReadWrite = PermReadWrite"
  then have "(p AND PermReadWrite) AND PermRead = PermReadWrite AND PermRead"
    "(p AND PermReadWrite) AND PermWrite = PermReadWrite AND PermWrite" by simp_all
  then show ?thesis by (simp add: perm_defs and.assoc)
qed

lemma access_ok_weaken:
  assumes "access_ok PermReadWrite m a n"
  shows "access_ok PermRead m a n" "access_ok PermWrite m a n"
  using assms by (auto simp: access_ok_def accessible_def dest: perm_weaken split: option.splits)

text \<open>
  C24. A little-endian write of an 8-, 16-, 32- or 64-bit value to a readable and writable
  range succeeds, and the read that follows returns the value written, with no new fault,
  also when the value straddles a page boundary.
\<close>

theorem little_endian_roundtrip:
  fixes v :: "'a::len word"
  assumes "8 dvd LENGTH('a)" "LENGTH('a) \<le> 64"
    and "access_ok PermReadWrite m a (of_nat (LENGTH('a) div 8))"
  shows "\<exists>m'. WriteLittleEndian m a v = Inr (True, m') \<and> last_fault m' = last_fault m \<and>
              ReadLittleEndian m' a = Inr (True, v, m')"
proof -
  note ok = access_ok_weaken [OF assms(3)]
  have "store_word gm_store m a v \<noteq> None"
    using ok(2) assms(2) by (simp add: store_word_def gm_store_eq(1))
  then obtain m' where m': "store_word gm_store m a v = Some m'"
    "WriteLittleEndian m a v = Inr (True, m')" "last_fault m' = last_fault m"
    by (cases rule: WriteLittleEndian_cases [OF assms(2), of m a v]) auto
  have "(load_word gm_load m a :: 'a word option) \<noteq> None"
    using ok(1) by (simp add: load_word_def gm_load_eq [OF small_sizes(2) [OF assms(2)]])
  from gm.word_stored [OF m'(1) assms(1,2) this] m' show ?thesis
    by (auto simp: ReadLittleEndian_load [OF assms(2)])
qed

text \<open>
  C25. A successful little-endian write changes no word, of any width, that is read from
  addresses outside the written range: the read there gives the same value before and
  after, and is refused after exactly when it was refused before.
\<close>

theorem little_endian_frame:
  fixes v :: "'a::len word" and w :: "'b::len word"
  assumes "LENGTH('a) \<le> 64" "LENGTH('b) \<le> 64"
    and "WriteLittleEndian m a v = Inr (True, m')"
    and "disjoint_ranges a (LENGTH('a) div 8) b (LENGTH('b) div 8)"
  shows "ReadLittleEndian m' b = Inr (True, w, m') \<longleftrightarrow> ReadLittleEndian m b = Inr (True, w, m)"
  using gm.word_elsewhere [OF _ assms(1,2,4), of m v m'] assms(3)
  by (simp add: ReadLittleEndian_load [OF assms(2)] WriteLittleEndian_store [OF assms(1)])

section \<open>Witnesses\<close>

text \<open>The two pages the self-test of \<^verbatim>\<open>tester_main.cpp\<close> maps, with its cross-page access.\<close>

definition demo_memory :: GuestMemory where
  "demo_memory = \<lparr>pages = Map.empty(0x1000 \<mapsto> new_page\<lparr>page_permissions := PermReadWrite\<rparr>,
                                   0x2000 \<mapsto> new_page\<lparr>page_permissions := PermReadWrite\<rparr>),
                  last_fault = None\<rparr>"

lemma demo_mapped: "GuestMemory_Map new_memory 0x1000 0x2000 PermReadWrite = Inr (True, demo_memory)"
  by (simp add: GuestMemory_Map_def new_memory_def PageBase_def kPageSize_def kUint64Max_def
      Map_loop.simps map_page_def demo_memory_def)

lemma demo_abs:
  "gm_abs demo_memory x =
     (if PageBase x = 0x1000 \<or> PageBase x = 0x2000 then Some (PermReadWrite, 0) else None)"
  by (simp add: gm_abs_def FindPage_def demo_memory_def new_page_def)

lemma all_less_4: "(\<forall>i < (4 :: nat). P i) \<longleftrightarrow> P 0 \<and> P 1 \<and> P 2 \<and> P 3"
  by (auto simp: less_Suc_eq numeral_eq_Suc)

lemma all_less_2: "(\<forall>i < (2 :: nat). P i) \<longleftrightarrow> P 0 \<and> P 1"
  by (auto simp: less_Suc_eq numeral_eq_Suc)

lemma demo_access: "access_ok PermReadWrite demo_memory 0x1FFE 4"
  by (simp add: access_ok_def accessible_def FindPage_def PageBase_def kPageSize_def demo_memory_def
     all_less_4)

lemma demo_write: "\<exists>m'. GuestMemory_Write demo_memory 0x1FFE (Some [0xDD, 0xCC, 0xBB, 0xAA]) 4 = Inr (True, m')"
  using Write_ok [of 4 "[0xDD, 0xCC, 0xBB, 0xAA]", OF _ access_ok_weaken(2) [OF demo_access]] by auto

theorem write_refines_store_witness:
  "\<exists>m'. GuestMemory_Write demo_memory 0x1FFE (Some [0xDD, 0xCC, 0xBB, 0xAA]) 4 = Inr (True, m') \<and>
        gm_abs m' 0x2000 = Some (PermReadWrite, 0xBB) \<and> gm_abs m' 0x2002 = Some (PermReadWrite, 0)"
proof -
  obtain m' where w: "GuestMemory_Write demo_memory 0x1FFE (Some [0xDD, 0xCC, 0xBB, 0xAA]) 4 = Inr (True, m')"
    using demo_write by blast
  with write_refines_store [of 4 "[0xDD, 0xCC, 0xBB, 0xAA]" demo_memory "0x1FFE"]
  have "gm_abs m' = abs_store 0x1FFE 4 [0xDD, 0xCC, 0xBB, 0xAA] (gm_abs demo_memory)" by auto
  then have "gm_abs m' 0x2000 = Some (PermReadWrite, 0xBB)" "gm_abs m' 0x2002 = Some (PermReadWrite, 0)"
    by (simp_all only: abs_store_def demo_abs) (simp_all add: PageBase_def kPageSize_def)
  with w show ?thesis by blast
qed

theorem read_returns_memory_witness:
  "GuestMemory_Read demo_memory 0x1FFE (Some [7, 7, 7, 7, 9]) 4 = Inr (True, Some [0, 0, 0, 0, 9], demo_memory)"
proof -
  obtain ok bs m' where r: "GuestMemory_Read demo_memory 0x1FFE (Some [7, 7, 7, 7, 9]) 4 = Inr (ok, Some (bs @ [9]), m')"
    "ok" "bs = abs_load (gm_abs demo_memory) 0x1FFE 4 \<and> m' = demo_memory"
    using read_returns_memory [of 4 "[7, 7, 7, 7, 9]" demo_memory "0x1FFE"]
      access_ok_weaken(1) [OF demo_access] by auto
  have "abs_load (gm_abs demo_memory) 0x1FFE 4 = [0, 0, 0, 0]"
    by (simp add: abs_load_def demo_abs PageBase_def kPageSize_def upt_rec)
  with r show ?thesis by simp
qed

theorem write_fault_is_first_bad_address_witness:
  "\<exists>m' f. GuestMemory_Write demo_memory 0x2FFE (Some [1, 2, 3, 4]) 4 = Inr (False, m') \<and>
     last_fault m' = Some f \<and> access_fault demo_memory PermWrite ''write'' 0x2FFE 4 f"
proof -
  have "\<not> access_ok PermWrite demo_memory 0x2FFE 4"
    by (simp add: access_ok_def accessible_def FindPage_def PageBase_def kPageSize_def
        demo_memory_def all_less_4)
  from Write_refused [OF this] obtain m' where w:
    "GuestMemory_Write demo_memory 0x2FFE (Some [1, 2, 3, 4]) 4 = Inr (False, m')" by blast
  have "last_fault demo_memory = None" by (simp add: demo_memory_def)
  from write_fault_is_first_bad_address [OF this w] obtain f where
    "last_fault m' = Some f" "access_fault demo_memory PermWrite ''write'' 0x2FFE 4 f" by auto
  with w show ?thesis by blast
qed

theorem first_fault_is_sticky_witness:
  "last_fault (GuestMemory_SetBackendError (GuestMemory_SetUnsupported demo_memory 0x10 ''a'') ''b'') =
     last_fault (GuestMemory_SetUnsupported demo_memory 0x10 ''a'')"
proof -
  let ?m = "GuestMemory_SetUnsupported demo_memory 0x10 ''a''"
  have fault: "last_fault ?m = Some \<lparr>fault_kind = FaultUnsupported, fault_address = 0x10, fault_size = 0,
      fault_operation = ''unsupported'', fault_detail = ''a''\<rparr>"
    by (simp add: GuestMemory_SetUnsupported_def SetFault_def demo_memory_def)
  have "gm_step\<^sup>*\<^sup>* ?m (GuestMemory_SetBackendError ?m ''b'')"
    by (rule r_into_rtranclp) (rule step_backend_error)
  from first_fault_is_sticky [OF this fault] fault show ?thesis by simp
qed

theorem reachable_pages_aligned_witness: "pages_aligned demo_memory"
  by (rule reachable_pages_aligned)
     (rule reach_step [OF reach_new step_map [OF demo_mapped]])

theorem little_endian_roundtrip_witness:
  "\<exists>m'. WriteLittleEndian demo_memory 0x1FFE (0xAABBCCDD :: u32) = Inr (True, m') \<and>
        ReadLittleEndian m' 0x1FFE = Inr (True, 0xAABBCCDD :: u32, m')"
  using little_endian_roundtrip [of demo_memory "0x1FFE" "0xAABBCCDD :: u32"] demo_access by auto

theorem little_endian_frame_witness:
  "\<exists>m'. WriteLittleEndian demo_memory 0x1FFE (0xAABBCCDD :: u32) = Inr (True, m') \<and>
        ReadLittleEndian m' 0x2002 = Inr (True, 0 :: u16, m')"
proof -
  have "store_word gm_store demo_memory 0x1FFE (0xAABBCCDD :: u32) \<noteq> None"
    using access_ok_weaken(2) [OF demo_access] by (simp add: store_word_def gm_store_eq(1))
  then obtain m' where w: "WriteLittleEndian demo_memory 0x1FFE (0xAABBCCDD :: u32) = Inr (True, m')"
    by (auto simp: WriteLittleEndian_store)
  have "disjoint_ranges 0x1FFE 4 0x2002 2"
    by (simp add: disjoint_ranges_def all_less_4 all_less_2)
  moreover have "ReadLittleEndian demo_memory 0x2002 = Inr (True, 0 :: u16, demo_memory)"
  proof -
    have "access_ok PermRead demo_memory 0x2002 2"
      by (simp add: access_ok_def accessible_def FindPage_def PageBase_def kPageSize_def
          demo_memory_def perm_defs all_less_2)
    then have "gm_load demo_memory 0x2002 2 = Some (abs_load (gm_abs demo_memory) 0x2002 2)"
      by (simp add: gm_load_eq)
    also have "abs_load (gm_abs demo_memory) 0x2002 2 = [0, 0]"
      by (simp add: abs_load_def demo_abs PageBase_def kPageSize_def upt_rec)
    finally show ?thesis by (simp add: ReadLittleEndian_load load_word_def le_word_def)
  qed
  ultimately show ?thesis using little_endian_frame [OF _ _ w, where ?'b = 16] w by auto
qed

end
