(* ===== verification/Intrinsics.thy ===== *)
theory Intrinsics
  imports Guest_Memory State_Bridge
begin

text \<open>
  \<^verbatim>\<open>src/src/remill_intrinsics.cpp\<close>: the functions that lifted code calls for memory, atomics,
  control flow, hyper calls and port input and output.

  \<open>Memory *\<close> is a guest memory or null, \<open>GuestMemory option\<close>; a function that returns it gives
  back the memory it leaves. A reference parameter is a value in and a value out. The
  hyper call numbers are parameters, Remill defines them; so is the assignment to the
  \<open>zf\<close> bit-field of \<open>rflag\<close>.
\<close>

section \<open>Memory accesses\<close>

type_synonym memory_ptr = "GuestMemory option"

definition ReadMemory :: "memory_ptr \<Rightarrow> u64 \<Rightarrow> ('a::len word \<times> memory_ptr) res" where
  "ReadMemory memory address =
     (case memory of
        None \<Rightarrow> Inr (0, None)
      | Some m \<Rightarrow> res_bind (ReadLittleEndian m address) (\<lambda>(ok, v, m'). Inr (v, Some m')))"

definition WriteMemory :: "memory_ptr \<Rightarrow> u64 \<Rightarrow> 'a::len word \<Rightarrow> memory_ptr res" where
  "WriteMemory memory address v =
     (case memory of
        None \<Rightarrow> Inr None
      | Some m \<Rightarrow> res_bind (WriteLittleEndian m address v) (\<lambda>(ok, m'). Inr (Some m')))"

definition FetchAndOp ::
  "('a::len word \<Rightarrow> 'a word \<Rightarrow> 'a word) \<Rightarrow> memory_ptr \<Rightarrow> u64 \<Rightarrow> 'a word \<Rightarrow> ('a word \<times> memory_ptr) res" where
  "FetchAndOp operation memory address v =
     (case memory of
        None \<Rightarrow> Inr (v, None)
      | Some m \<Rightarrow> res_bind (ReadLittleEndian m address) (\<lambda>(ok, current, m1).
          if ok then
            let input = v in
            res_bind (WriteLittleEndian m1 address (operation current input)) (\<lambda>(ok', m2).
              Inr (current, Some m2))
          else Inr (v, Some m1)))"

definition CompareExchange ::
  "memory_ptr \<Rightarrow> u64 \<Rightarrow> 'a::len word \<Rightarrow> 'a word \<Rightarrow> ('a word \<times> memory_ptr) res" where
  "CompareExchange memory address expected desired =
     (case memory of
        None \<Rightarrow> Inr (expected, None)
      | Some m \<Rightarrow> res_bind (ReadLittleEndian m address) (\<lambda>(ok, current, m1).
          if ok then
            if current = expected then
              res_bind (WriteLittleEndian m1 address desired) (\<lambda>(ok', m2). Inr (expected, Some m2))
            else Inr (current, Some m1)
          else Inr (expected, Some m1)))"

definition MarkUnsupported :: "memory_ptr \<Rightarrow> u64 \<Rightarrow> string \<Rightarrow> memory_ptr" where
  "MarkUnsupported memory address detail =
     (case memory of None \<Rightarrow> None | Some m \<Rightarrow> Some (GuestMemory_SetUnsupported m address detail))"

section \<open>The intrinsics\<close>

definition remill_read_memory_8 :: "memory_ptr \<Rightarrow> u64 \<Rightarrow> (u8 \<times> memory_ptr) res" where
  "remill_read_memory_8 memory address = ReadMemory memory address"
definition remill_read_memory_16 :: "memory_ptr \<Rightarrow> u64 \<Rightarrow> (u16 \<times> memory_ptr) res" where
  "remill_read_memory_16 memory address = ReadMemory memory address"
definition remill_read_memory_32 :: "memory_ptr \<Rightarrow> u64 \<Rightarrow> (u32 \<times> memory_ptr) res" where
  "remill_read_memory_32 memory address = ReadMemory memory address"
definition remill_read_memory_64 :: "memory_ptr \<Rightarrow> u64 \<Rightarrow> (u64 \<times> memory_ptr) res" where
  "remill_read_memory_64 memory address = ReadMemory memory address"

definition remill_write_memory_8 :: "memory_ptr \<Rightarrow> u64 \<Rightarrow> u8 \<Rightarrow> memory_ptr res" where
  "remill_write_memory_8 memory address v = WriteMemory memory address v"
definition remill_write_memory_16 :: "memory_ptr \<Rightarrow> u64 \<Rightarrow> u16 \<Rightarrow> memory_ptr res" where
  "remill_write_memory_16 memory address v = WriteMemory memory address v"
definition remill_write_memory_32 :: "memory_ptr \<Rightarrow> u64 \<Rightarrow> u32 \<Rightarrow> memory_ptr res" where
  "remill_write_memory_32 memory address v = WriteMemory memory address v"
definition remill_write_memory_64 :: "memory_ptr \<Rightarrow> u64 \<Rightarrow> u64 \<Rightarrow> memory_ptr res" where
  "remill_write_memory_64 memory address v = WriteMemory memory address v"

text \<open>The families that exist once for each width are polymorphic in it.\<close>

definition remill_undefined :: "'a::len word" where
  "remill_undefined = 0"

definition remill_compare_exchange_memory ::
  "memory_ptr \<Rightarrow> u64 \<Rightarrow> 'a::len word \<Rightarrow> 'a word \<Rightarrow> ('a word \<times> memory_ptr) res" where
  "remill_compare_exchange_memory memory address expected desired =
     CompareExchange memory address expected desired"

datatype FetchOp = FetchAdd | FetchSub | FetchAnd | FetchOr | FetchXor | FetchNand

definition fetch_operation :: "FetchOp \<Rightarrow> 'a::len word \<Rightarrow> 'a word \<Rightarrow> 'a word" where
  "fetch_operation op current v =
     (case op of
        FetchAdd \<Rightarrow> current + v
      | FetchSub \<Rightarrow> current - v
      | FetchAnd \<Rightarrow> current AND v
      | FetchOr \<Rightarrow> current OR v
      | FetchXor \<Rightarrow> current XOR v
      | FetchNand \<Rightarrow> NOT (current AND v))"

definition remill_fetch_and ::
  "FetchOp \<Rightarrow> memory_ptr \<Rightarrow> u64 \<Rightarrow> 'a::len word \<Rightarrow> ('a word \<times> memory_ptr) res" where
  "remill_fetch_and op memory address v = FetchAndOp (fetch_operation op) memory address v"

datatype Barrier = BarrierLoadLoad | BarrierLoadStore | BarrierStoreLoad | BarrierStoreStore
  | AtomicBegin | AtomicEnd | DelaySlotBegin | DelaySlotEnd

definition remill_barrier :: "Barrier \<Rightarrow> memory_ptr \<Rightarrow> memory_ptr" where
  "remill_barrier b memory = memory"

datatype FlagComputation = FlagZero | FlagSign | FlagOverflow | FlagCarry

definition remill_flag_computation :: "FlagComputation \<Rightarrow> bool \<Rightarrow> bool" where
  "remill_flag_computation f result = result"

datatype Comparison = Sle | Slt | Sge | Sgt | Ule | Ult | Ugt | Uge | Eq | Neq

definition remill_compare :: "Comparison \<Rightarrow> bool \<Rightarrow> bool" where
  "remill_compare c result = result"

definition remill_fpu_exception_test :: "32 word \<Rightarrow> 32 word" where
  "remill_fpu_exception_test exceptions = 0"

definition remill_fpu_get_rounding :: "32 word" where
  "remill_fpu_get_rounding = 0"

definition remill_error :: "State option \<Rightarrow> u64 \<Rightarrow> memory_ptr \<Rightarrow> memory_ptr" where
  "remill_error s address memory = MarkUnsupported memory address ''__remill_error''"

definition remill_missing_block :: "State option \<Rightarrow> u64 \<Rightarrow> memory_ptr \<Rightarrow> memory_ptr" where
  "remill_missing_block s address memory = MarkUnsupported memory address ''__remill_missing_block''"

definition remill_function_call :: "State option \<Rightarrow> u64 \<Rightarrow> memory_ptr \<Rightarrow> memory_ptr" where
  "remill_function_call s address memory = memory"

definition remill_function_return :: "State option \<Rightarrow> u64 \<Rightarrow> memory_ptr \<Rightarrow> memory_ptr" where
  "remill_function_return s address memory = memory"

definition remill_jump :: "State option \<Rightarrow> u64 \<Rightarrow> memory_ptr \<Rightarrow> memory_ptr" where
  "remill_jump s address memory = memory"

definition remill_async_hyper_call :: "State option \<Rightarrow> u64 \<Rightarrow> memory_ptr \<Rightarrow> memory_ptr" where
  "remill_async_hyper_call s address memory =
     MarkUnsupported memory address ''__remill_async_hyper_call''"

text \<open>Remill's names of the two calls, and its assignment \<open>rflag.zf = b\<close>.\<close>

record HyperCalls =
  kX86VerifySegmentReadable :: u32
  kX86VerifySegmentWritable :: u32
  assign_rflag_zf :: "bool \<Rightarrow> u64 \<Rightarrow> u64"

definition set_zf :: "HyperCalls \<Rightarrow> bool \<Rightarrow> State \<Rightarrow> State" where
  "set_zf hc b s = s\<lparr>rflag := assign_rflag_zf hc b (rflag s), aflag := (aflag s)\<lparr>zf := bool_u8 b\<rparr>\<rparr>"

definition remill_sync_hyper_call ::
  "HyperCalls \<Rightarrow> State option \<Rightarrow> memory_ptr \<Rightarrow> u32 \<Rightarrow> State option \<times> memory_ptr" where
  "remill_sync_hyper_call hc state_ptr memory call =
     (case state_ptr of
        None \<Rightarrow> (None, MarkUnsupported memory 0 ''__remill_sync_hyper_call'')
      | Some s \<Rightarrow>
          let selector = ucast (addr_to_load s) :: u16 in
          if call = kX86VerifySegmentReadable hc then (Some (set_zf hc (selector = 0x20) s), memory)
          else if call = kX86VerifySegmentWritable hc then (Some (set_zf hc (selector = 0x28) s), memory)
          else (Some s, MarkUnsupported memory (ucast selector) ''__remill_sync_hyper_call''))"

text \<open>Port accesses, with the decimal width that ends the function's name.\<close>

definition remill_read_io_port :: "string \<Rightarrow> memory_ptr \<Rightarrow> u64 \<Rightarrow> 'a::len word \<times> memory_ptr" where
  "remill_read_io_port width memory address =
     (0, MarkUnsupported memory address (''__remill_read_io_port_'' @ width))"

definition remill_write_io_port :: "string \<Rightarrow> memory_ptr \<Rightarrow> u64 \<Rightarrow> 'a::len word \<Rightarrow> memory_ptr" where
  "remill_write_io_port width memory address v =
     MarkUnsupported memory address (''__remill_write_io_port_'' @ width)"

section \<open>Read, modify, write\<close>

lemma ReadMemory_null [simp]: "ReadMemory None a = Inr (0, None)" "WriteMemory None a v = Inr None"
  by (simp_all add: ReadMemory_def WriteMemory_def)

text \<open>What a word access can do to a memory: a load, a refused access, a store.\<close>

lemma FetchAndOp_cases:
  fixes v :: "'a::len word"
  assumes "LENGTH('a) \<le> 64"
  obtains (fetched) c m' where "load_word gm_load m a = Some c" "store_word gm_store m a (f c v) = Some m'"
      "FetchAndOp f (Some m) a v = Inr (c, Some m')" "last_fault m' = last_fault m"
  | (no_store) c m' where "load_word gm_load m a = Some c" "store_word gm_store m a (f c v) = None"
      "FetchAndOp f (Some m) a v = Inr (c, Some m')" "only_fault m m'" "last_fault m' \<noteq> None"
  | (no_load) m' where "(load_word gm_load m a :: 'a word option) = None"
      "FetchAndOp f (Some m) a v = Inr (v, Some m')" "only_fault m m'" "last_fault m' \<noteq> None"
proof (cases rule: ReadLittleEndian_cases [OF assms, of m a])
  case (1 c)
  note load = 1
  show ?thesis
  proof (cases rule: WriteLittleEndian_cases [OF assms, of m a "f c v"])
    case (1 m')
    with load show ?thesis by (intro fetched [of c m']) (simp_all add: FetchAndOp_def)
  next
    case (2 m')
    with load show ?thesis by (intro no_store [of c m']) (simp_all add: FetchAndOp_def)
  qed
next
  case (2 m')
  then show ?thesis by (intro no_load [of m']) (simp_all add: FetchAndOp_def)
qed

lemma CompareExchange_cases:
  fixes expected desired :: "'a::len word"
  assumes "LENGTH('a) \<le> 64"
  obtains (swapped) m' where "load_word gm_load m a = Some expected"
      "store_word gm_store m a desired = Some m'"
      "CompareExchange (Some m) a expected desired = Inr (expected, Some m')" "last_fault m' = last_fault m"
  | (no_store) m' where "load_word gm_load m a = Some expected" "store_word gm_store m a desired = None"
      "CompareExchange (Some m) a expected desired = Inr (expected, Some m')" "only_fault m m'"
      "last_fault m' \<noteq> None"
  | (kept) c where "load_word gm_load m a = Some c" "c \<noteq> expected"
      "CompareExchange (Some m) a expected desired = Inr (c, Some m)"
  | (no_load) m' where "(load_word gm_load m a :: 'a word option) = None"
      "CompareExchange (Some m) a expected desired = Inr (expected, Some m')" "only_fault m m'"
      "last_fault m' \<noteq> None"
proof (cases rule: ReadLittleEndian_cases [OF assms, of m a])
  case (1 c)
  note load = 1
  show ?thesis
  proof (cases "c = expected")
    case True
    show ?thesis
    proof (cases rule: WriteLittleEndian_cases [OF assms, of m a desired])
      case (1 m')
      with load True show ?thesis by (intro swapped [of m']) (simp_all add: CompareExchange_def)
    next
      case (2 m')
      with load True show ?thesis by (intro no_store [of m']) (simp_all add: CompareExchange_def)
    qed
  next
    case False
    with load show ?thesis by (intro kept [of c]) (simp_all add: CompareExchange_def)
  qed
next
  case (2 m')
  then show ?thesis by (intro no_load [of m']) (simp_all add: CompareExchange_def)
qed

section \<open>The symbol tables\<close>

text \<open>
  The names that \<open>RegisterRemillIntrinsicSymbols\<close> adds to the process symbols and those that
  \<open>DefineRemillIntrinsicSymbols\<close> defines in the JIT's main library, in the order of the
  source, and the names the file implements, in the same order.
\<close>

definition registered_symbols :: "string list" where
  "registered_symbols =
     [''__remill_read_memory_8'', ''__remill_read_memory_16'', ''__remill_read_memory_32'',
      ''__remill_read_memory_64'', ''__remill_write_memory_8'', ''__remill_write_memory_16'',
      ''__remill_write_memory_32'', ''__remill_write_memory_64'', ''__remill_undefined_8'',
      ''__remill_undefined_16'', ''__remill_undefined_32'', ''__remill_undefined_64'',
      ''__remill_compare_exchange_memory_8'', ''__remill_compare_exchange_memory_16'',
      ''__remill_compare_exchange_memory_32'', ''__remill_compare_exchange_memory_64'',
      ''__remill_fetch_and_add_8'', ''__remill_fetch_and_add_16'', ''__remill_fetch_and_add_32'',
      ''__remill_fetch_and_add_64'', ''__remill_fetch_and_sub_8'', ''__remill_fetch_and_sub_16'',
      ''__remill_fetch_and_sub_32'', ''__remill_fetch_and_sub_64'', ''__remill_fetch_and_and_8'',
      ''__remill_fetch_and_and_16'', ''__remill_fetch_and_and_32'',
      ''__remill_fetch_and_and_64'', ''__remill_fetch_and_or_8'', ''__remill_fetch_and_or_16'',
      ''__remill_fetch_and_or_32'', ''__remill_fetch_and_or_64'', ''__remill_fetch_and_xor_8'',
      ''__remill_fetch_and_xor_16'', ''__remill_fetch_and_xor_32'',
      ''__remill_fetch_and_xor_64'', ''__remill_fetch_and_nand_8'',
      ''__remill_fetch_and_nand_16'', ''__remill_fetch_and_nand_32'',
      ''__remill_fetch_and_nand_64'', ''__remill_flag_computation_zero'',
      ''__remill_flag_computation_sign'', ''__remill_flag_computation_overflow'',
      ''__remill_flag_computation_carry'', ''__remill_compare_sle'', ''__remill_compare_slt'',
      ''__remill_compare_sge'', ''__remill_compare_sgt'', ''__remill_compare_ule'',
      ''__remill_compare_ult'', ''__remill_compare_ugt'', ''__remill_compare_uge'',
      ''__remill_compare_eq'', ''__remill_compare_neq'', ''__remill_fpu_exception_clear'',
      ''__remill_fpu_exception_test'', ''__remill_fpu_set_rounding'',
      ''__remill_fpu_get_rounding'', ''__remill_barrier_load_load'',
      ''__remill_barrier_load_store'', ''__remill_barrier_store_load'',
      ''__remill_barrier_store_store'', ''__remill_atomic_begin'', ''__remill_atomic_end'',
      ''__remill_delay_slot_begin'', ''__remill_delay_slot_end'', ''__remill_error'',
      ''__remill_missing_block'', ''__remill_function_call'', ''__remill_function_return'',
      ''__remill_jump'', ''__remill_async_hyper_call'', ''__remill_sync_hyper_call'',
      ''__remill_read_io_port_8'', ''__remill_read_io_port_16'', ''__remill_read_io_port_32'',
      ''__remill_write_io_port_8'', ''__remill_write_io_port_16'', ''__remill_write_io_port_32'']"

definition defined_symbols :: "string list" where
  "defined_symbols =
     [''__remill_read_memory_8'', ''__remill_read_memory_16'', ''__remill_read_memory_32'',
      ''__remill_read_memory_64'', ''__remill_write_memory_8'', ''__remill_write_memory_16'',
      ''__remill_write_memory_32'', ''__remill_write_memory_64'', ''__remill_undefined_8'',
      ''__remill_undefined_16'', ''__remill_undefined_32'', ''__remill_undefined_64'',
      ''__remill_compare_exchange_memory_8'', ''__remill_compare_exchange_memory_16'',
      ''__remill_compare_exchange_memory_32'', ''__remill_compare_exchange_memory_64'',
      ''__remill_fetch_and_add_8'', ''__remill_fetch_and_add_16'', ''__remill_fetch_and_add_32'',
      ''__remill_fetch_and_add_64'', ''__remill_fetch_and_sub_8'', ''__remill_fetch_and_sub_16'',
      ''__remill_fetch_and_sub_32'', ''__remill_fetch_and_sub_64'', ''__remill_fetch_and_and_8'',
      ''__remill_fetch_and_and_16'', ''__remill_fetch_and_and_32'',
      ''__remill_fetch_and_and_64'', ''__remill_fetch_and_or_8'', ''__remill_fetch_and_or_16'',
      ''__remill_fetch_and_or_32'', ''__remill_fetch_and_or_64'', ''__remill_fetch_and_xor_8'',
      ''__remill_fetch_and_xor_16'', ''__remill_fetch_and_xor_32'',
      ''__remill_fetch_and_xor_64'', ''__remill_fetch_and_nand_8'',
      ''__remill_fetch_and_nand_16'', ''__remill_fetch_and_nand_32'',
      ''__remill_fetch_and_nand_64'', ''__remill_flag_computation_zero'',
      ''__remill_flag_computation_sign'', ''__remill_flag_computation_overflow'',
      ''__remill_flag_computation_carry'', ''__remill_compare_sle'', ''__remill_compare_slt'',
      ''__remill_compare_sge'', ''__remill_compare_sgt'', ''__remill_compare_ule'',
      ''__remill_compare_ult'', ''__remill_compare_ugt'', ''__remill_compare_uge'',
      ''__remill_compare_eq'', ''__remill_compare_neq'', ''__remill_fpu_exception_clear'',
      ''__remill_fpu_exception_test'', ''__remill_fpu_set_rounding'',
      ''__remill_fpu_get_rounding'', ''__remill_barrier_load_load'',
      ''__remill_barrier_load_store'', ''__remill_barrier_store_load'',
      ''__remill_barrier_store_store'', ''__remill_atomic_begin'', ''__remill_atomic_end'',
      ''__remill_delay_slot_begin'', ''__remill_delay_slot_end'', ''__remill_error'',
      ''__remill_missing_block'', ''__remill_function_call'', ''__remill_function_return'',
      ''__remill_jump'', ''__remill_async_hyper_call'', ''__remill_sync_hyper_call'',
      ''__remill_read_io_port_8'', ''__remill_read_io_port_16'', ''__remill_read_io_port_32'',
      ''__remill_write_io_port_8'', ''__remill_write_io_port_16'', ''__remill_write_io_port_32'']"

text \<open>The JIT's \<open>define\<close> reports an error text or succeeds; names are mangled first.\<close>

definition DefineRemillIntrinsicSymbols ::
  "(string \<Rightarrow> string) \<Rightarrow> (string list \<Rightarrow> string option) \<Rightarrow> string \<Rightarrow> bool \<times> string" where
  "DefineRemillIntrinsicSymbols mangle define_symbols error =
     (case define_symbols (map mangle defined_symbols) of
        Some message \<Rightarrow> (False, message)
      | None \<Rightarrow> (True, error))"

definition with_widths :: "string list \<Rightarrow> string list \<Rightarrow> string list" where
  "with_widths prefixes widths = concat (map (\<lambda>p. map (\<lambda>w. p @ w) widths) prefixes)"

definition implemented_symbols :: "string list" where
  "implemented_symbols =
     with_widths [''__remill_read_memory_'', ''__remill_write_memory_'', ''__remill_undefined_'',
        ''__remill_compare_exchange_memory_'', ''__remill_fetch_and_add_'', ''__remill_fetch_and_sub_'',
        ''__remill_fetch_and_and_'', ''__remill_fetch_and_or_'', ''__remill_fetch_and_xor_'',
        ''__remill_fetch_and_nand_''] [''8'', ''16'', ''32'', ''64''] @
     with_widths [''__remill_flag_computation_''] [''zero'', ''sign'', ''overflow'', ''carry''] @
     with_widths [''__remill_compare_''] [''sle'', ''slt'', ''sge'', ''sgt'', ''ule'', ''ult'', ''ugt'',
        ''uge'', ''eq'', ''neq''] @
     with_widths [''__remill_fpu_''] [''exception_clear'', ''exception_test'', ''set_rounding'', ''get_rounding''] @
     with_widths [''__remill_''] [''barrier_load_load'', ''barrier_load_store'', ''barrier_store_load'',
        ''barrier_store_store'', ''atomic_begin'', ''atomic_end'', ''delay_slot_begin'', ''delay_slot_end'',
        ''error'', ''missing_block'', ''function_call'', ''function_return'', ''jump'', ''async_hyper_call'',
        ''sync_hyper_call''] @
     with_widths [''__remill_read_io_port_'', ''__remill_write_io_port_''] [''8'', ''16'', ''32'']"

text \<open>
  Every intrinsic the file implements can be resolved by the JIT, under its own name and
  once: the two symbol tables hold the same names without repetition, and they are exactly
  the implemented ones; defining them reports an error exactly when the JIT does.
\<close>

lemma symbol_tables_complete:
  "registered_symbols = defined_symbols \<and> distinct defined_symbols \<and>
   defined_symbols = implemented_symbols \<and>
   fst (DefineRemillIntrinsicSymbols mangle define_symbols error) =
     (define_symbols (map mangle defined_symbols) = None)"
proof (intro conjI)
  show "registered_symbols = defined_symbols"
    by (simp only: registered_symbols_def defined_symbols_def)
  show "distinct defined_symbols" by code_simp
  show "defined_symbols = implemented_symbols"
    by (simp add: defined_symbols_def implemented_symbols_def with_widths_def)
  show "fst (DefineRemillIntrinsicSymbols mangle define_symbols error) =
     (define_symbols (map mangle defined_symbols) = None)"
    by (simp add: DefineRemillIntrinsicSymbols_def split: option.splits)
qed

text \<open>
  C21. The atomic operations read, modify and write: on a guest memory they always return; when
  the word can be read the caller gets the old word; when it can also be written the memory
  then holds the operation's result there, no word outside of the range changes and no fault
  is added; and when either access is refused no byte changes and a fault is on record.
\<close>

theorem fetch_and_op_spec:
  fixes v :: "'a::len word" and w :: "'b::len word"
  assumes "8 dvd LENGTH('a)" "LENGTH('a) \<le> 64" "LENGTH('b) \<le> 64"
    and "disjoint_ranges a (LENGTH('a) div 8) b (LENGTH('b) div 8)"
  shows "\<exists>out m'. remill_fetch_and op (Some m) a v = Inr (out, Some m') \<and>
    (case load_word gm_load m a of
       None \<Rightarrow> out = v \<and> only_fault m m' \<and> last_fault m' \<noteq> None
     | Some c \<Rightarrow> out = c \<and>
         (if store_word gm_store m a (fetch_operation op c v) \<noteq> None
          then load_word gm_load m' a = Some (fetch_operation op c v) \<and>
            (load_word gm_load m' b :: 'b word option) = load_word gm_load m b \<and> last_fault m' = last_fault m
          else only_fault m m' \<and> last_fault m' \<noteq> None))"
proof (cases rule: FetchAndOp_cases [OF assms(2), of m a "fetch_operation op" v])
  case (1 c m')
  note fetched = this
  from gm.word_stored [OF fetched(2) assms(1,2)] gm.word_elsewhere [OF fetched(2) assms(2-4)] fetched
  show ?thesis by (auto simp: remill_fetch_and_def)
qed (auto simp: remill_fetch_and_def)

text \<open>
  C37. Compare-and-exchange: when the word read equals the expected one the desired word is
  stored, otherwise the memory is unchanged and the caller gets the word read; a refused
  access changes no byte, keeps the expected word and records a fault.
\<close>

theorem compare_exchange_spec:
  fixes expected desired :: "'a::len word"
  assumes "8 dvd LENGTH('a)" "LENGTH('a) \<le> 64"
  shows "\<exists>out m'. remill_compare_exchange_memory (Some m) a expected desired = Inr (out, Some m') \<and>
    (case load_word gm_load m a of
       None \<Rightarrow> out = expected \<and> only_fault m m' \<and> last_fault m' \<noteq> None
     | Some c \<Rightarrow> out = c \<and>
         (if c \<noteq> expected then m' = m
          else if store_word gm_store m a desired \<noteq> None
          then load_word gm_load m' a = Some desired \<and> last_fault m' = last_fault m
          else only_fault m m' \<and> last_fault m' \<noteq> None))"
proof (cases rule: CompareExchange_cases [OF assms(2), of m a expected desired])
  case (1 m')
  note swapped = this
  from gm.word_stored [OF swapped(2) assms] swapped show ?thesis
    by (auto simp: remill_compare_exchange_memory_def)
qed (auto simp: remill_compare_exchange_memory_def)

section \<open>What lifted code can do to a memory\<close>

text \<open>One call of an intrinsic that takes the memory, from the memory before to the one after.\<close>

inductive intrinsic_step :: "GuestMemory \<Rightarrow> GuestMemory \<Rightarrow> bool" where
  read8: "remill_read_memory_8 (Some m) a = Inr (v8, Some m') \<Longrightarrow> intrinsic_step m m'"
| read16: "remill_read_memory_16 (Some m) a = Inr (v16, Some m') \<Longrightarrow> intrinsic_step m m'"
| read32: "remill_read_memory_32 (Some m) a = Inr (v32, Some m') \<Longrightarrow> intrinsic_step m m'"
| read64: "remill_read_memory_64 (Some m) a = Inr (v64, Some m') \<Longrightarrow> intrinsic_step m m'"
| write8: "remill_write_memory_8 (Some m) a v8 = Inr (Some m') \<Longrightarrow> intrinsic_step m m'"
| write16: "remill_write_memory_16 (Some m) a v16 = Inr (Some m') \<Longrightarrow> intrinsic_step m m'"
| write32: "remill_write_memory_32 (Some m) a v32 = Inr (Some m') \<Longrightarrow> intrinsic_step m m'"
| write64: "remill_write_memory_64 (Some m) a v64 = Inr (Some m') \<Longrightarrow> intrinsic_step m m'"
| fetch8: "remill_fetch_and op (Some m) a (v8 :: u8) = Inr (r8, Some m') \<Longrightarrow> intrinsic_step m m'"
| fetch16: "remill_fetch_and op (Some m) a (v16 :: u16) = Inr (r16, Some m') \<Longrightarrow> intrinsic_step m m'"
| fetch32: "remill_fetch_and op (Some m) a (v32 :: u32) = Inr (r32, Some m') \<Longrightarrow> intrinsic_step m m'"
| fetch64: "remill_fetch_and op (Some m) a (v64 :: u64) = Inr (r64, Some m') \<Longrightarrow> intrinsic_step m m'"
| cas8: "remill_compare_exchange_memory (Some m) a (e8 :: u8) d8 = Inr (r8, Some m') \<Longrightarrow> intrinsic_step m m'"
| cas16: "remill_compare_exchange_memory (Some m) a (e16 :: u16) d16 = Inr (r16, Some m') \<Longrightarrow> intrinsic_step m m'"
| cas32: "remill_compare_exchange_memory (Some m) a (e32 :: u32) d32 = Inr (r32, Some m') \<Longrightarrow> intrinsic_step m m'"
| cas64: "remill_compare_exchange_memory (Some m) a (e64 :: u64) d64 = Inr (r64, Some m') \<Longrightarrow> intrinsic_step m m'"
| error: "remill_error s a (Some m) = Some m' \<Longrightarrow> intrinsic_step m m'"
| missing: "remill_missing_block s a (Some m) = Some m' \<Longrightarrow> intrinsic_step m m'"
| async: "remill_async_hyper_call s a (Some m) = Some m' \<Longrightarrow> intrinsic_step m m'"
| sync: "remill_sync_hyper_call hc s (Some m) call = (s', Some m') \<Longrightarrow> intrinsic_step m m'"
| io_read: "remill_read_io_port w (Some m) a = (v64 :: u64, Some m') \<Longrightarrow> intrinsic_step m m'"
| io_write: "remill_write_io_port w (Some m) a (v64 :: u64) = Some m' \<Longrightarrow> intrinsic_step m m'"
| barrier: "remill_barrier b (Some m) = Some m' \<Longrightarrow> intrinsic_step m m'"

text \<open>
  What every such call keeps: the permission of every address, the bytes that may not be
  written, and a fault on record.
\<close>

definition safe_step :: "GuestMemory \<Rightarrow> GuestMemory \<Rightarrow> bool" where
  "safe_step m m' \<longleftrightarrow>
     (\<forall>x. map_option fst (gm_abs m' x) = map_option fst (gm_abs m x)) \<and>
     (\<forall>x. \<not> accessible PermWrite m x \<longrightarrow> gm_abs m' x = gm_abs m x) \<and>
     (\<forall>f. last_fault m = Some f \<longrightarrow> last_fault m' = Some f)"

lemma safe_step_refl [simp, intro]: "safe_step m m"
  by (simp add: safe_step_def)

lemma accessible_same_perms:
  "map_option fst (gm_abs m' x) = map_option fst (gm_abs m x) \<Longrightarrow> accessible p m' x = accessible p m x"
  by (auto simp: accessible_abs split: option.splits)

lemma safe_step_trans: "safe_step m m1 \<Longrightarrow> safe_step m1 m2 \<Longrightarrow> safe_step m m2"
  using accessible_same_perms [of m1 _ m PermWrite] by (auto simp: safe_step_def)

lemma safe_step_fault:
  assumes "gm_abs m' = gm_abs m" "\<And>f. last_fault m = Some f \<Longrightarrow> last_fault m' = Some f"
  shows "safe_step m m'"
  using assms by (simp add: safe_step_def)

lemma safe_step_unsupported: "safe_step m (GuestMemory_SetUnsupported m a d)"
  by (rule safe_step_fault)
     (simp_all add: GuestMemory_SetUnsupported_def SetFault_def gm_abs_def FindPage_def)

lemma only_fault_safe: "gm_step m m' \<Longrightarrow> only_fault m m' \<Longrightarrow> safe_step m m'"
  by (rule safe_step_fault) (simp_all add: only_fault_abs gm_step_sticky)

lemma safe_step_read:
  assumes "GuestMemory_Read m a out n = Inr (ok, out', m')"
  shows "safe_step m m'"
  using Read_frame [OF assms] by (intro safe_step_fault) (simp_all add: gm_abs_def FindPage_def)

lemma safe_step_write:
  assumes "GuestMemory_Write m a (Some src) n = Inr (ok, m')" "unat n \<le> length src"
  shows "safe_step m m'"
proof (cases "access_ok PermWrite m a n")
  case True
  with Write_ok [OF assms(2) True] assms(1) have m': "gm_abs m' = abs_store a (unat n) src (gm_abs m)"
    "last_fault m' = last_fault m" by auto
  have "accessible PermWrite m x" if "unat (x - a) < unat n" for x
  proof -
    have "n \<noteq> 0" using that by auto
    with True that have "accessible PermWrite m (a + of_nat (unat (x - a)))"
      unfolding access_ok_def by blast
    then show ?thesis by simp
  qed
  then have "\<not> accessible PermWrite m x \<Longrightarrow> gm_abs m' x = gm_abs m x" for x
    unfolding m'(1) abs_store_def by auto
  then show ?thesis
    using m' by (simp add: safe_step_def perms_abs_store)
next
  case False
  from Write_refused [OF this, of src] assms(1) have "only_fault m m'" by auto
  moreover have "gm_step m m'" using assms(1) by (rule gm_step.step_write)
  ultimately show ?thesis by (intro only_fault_safe)
qed

lemma safe_step_ReadLittleEndian:
  "ReadLittleEndian m a = Inr (ok, v :: 'a::len word, m') \<Longrightarrow> safe_step m m'"
  by (auto simp: ReadLittleEndian_def res_simps split: if_splits option.splits dest: safe_step_read)

lemma safe_step_WriteLittleEndian:
  fixes v :: "'a::len word"
  assumes "WriteLittleEndian m a v = Inr (ok, m')" "LENGTH('a) \<le> 64"
  shows "safe_step m m'"
  using assms(1) small_sizes(1) [OF assms(2)]
  by (intro safe_step_write [of m a "le_bytes v" "of_nat (length (le_bytes v))" ok])
     (simp_all add: WriteLittleEndian_def)

lemma safe_step_ReadMemory:
  "ReadMemory (Some m) a = Inr (v :: 'a::len word, Some m') \<Longrightarrow> safe_step m m'"
  by (auto simp: ReadMemory_def res_simps dest: safe_step_ReadLittleEndian)

lemma safe_step_WriteMemory:
  fixes v :: "'a::len word"
  shows "WriteMemory (Some m) a v = Inr (Some m') \<Longrightarrow> LENGTH('a) \<le> 64 \<Longrightarrow> safe_step m m'"
  by (auto simp: WriteMemory_def res_simps dest: safe_step_WriteLittleEndian)

lemma safe_step_FetchAndOp:
  fixes v :: "'a::len word"
  shows "FetchAndOp f (Some m) a v = Inr (r, Some m') \<Longrightarrow> LENGTH('a) \<le> 64 \<Longrightarrow> safe_step m m'"
  by (auto simp: FetchAndOp_def res_simps split: if_splits
      dest!: safe_step_ReadLittleEndian safe_step_WriteLittleEndian intro: safe_step_trans)

lemma safe_step_CompareExchange:
  fixes e :: "'a::len word"
  shows "CompareExchange (Some m) a e d = Inr (r, Some m') \<Longrightarrow> LENGTH('a) \<le> 64 \<Longrightarrow> safe_step m m'"
  by (auto simp: CompareExchange_def res_simps split: if_splits
      dest!: safe_step_ReadLittleEndian safe_step_WriteLittleEndian intro: safe_step_trans)

lemmas intrinsic_defs = remill_read_memory_8_def remill_read_memory_16_def remill_read_memory_32_def
  remill_read_memory_64_def remill_write_memory_8_def remill_write_memory_16_def
  remill_write_memory_32_def remill_write_memory_64_def remill_fetch_and_def
  remill_compare_exchange_memory_def remill_error_def remill_missing_block_def
  remill_async_hyper_call_def remill_read_io_port_def remill_write_io_port_def remill_barrier_def
  MarkUnsupported_def

lemma safe_step_sync:
  "remill_sync_hyper_call hc s (Some m) call = (s', Some m') \<Longrightarrow> safe_step m m'"
  by (auto simp: remill_sync_hyper_call_def MarkUnsupported_def Let_def safe_step_unsupported
      split: option.splits if_splits)

lemma intrinsic_step_safe: "intrinsic_step m m' \<Longrightarrow> safe_step m m'"
  by (induction rule: intrinsic_step.induct)
     (auto simp: intrinsic_defs safe_step_unsupported safe_step_sync dest: safe_step_ReadMemory safe_step_WriteMemory
       safe_step_FetchAndOp safe_step_CompareExchange)

text \<open>
  C11. The lifted code is confined: whatever sequence of intrinsics it calls, it neither maps an
  address nor changes a permission, it changes no byte it may not write, and it cannot lose a
  fault or an unsupported operation that was recorded, so an execution that met one is never
  taken for a normal one.
\<close>

theorem lifted_code_is_confined:
  assumes "intrinsic_step\<^sup>*\<^sup>* m m'"
  shows "map_option fst (gm_abs m' x) = map_option fst (gm_abs m x) \<and>
    (accessible PermWrite m x \<or> gm_abs m' x = gm_abs m x) \<and>
    (last_fault m = None \<or> last_fault m' = last_fault m)"
proof -
  from assms have "safe_step m m'"
    by (induction rule: rtranclp_induct) (auto dest: intrinsic_step_safe intro: safe_step_trans)
  then show ?thesis by (cases "last_fault m") (auto simp: safe_step_def)
qed

text \<open>
  C38. The two segment-verification hyper calls answer through the zero flag that a snapshot
  reads: readable exactly for selector 0x20, writable exactly for 0x28, with every other
  reported flag and the memory unchanged; any other hyper call records an unsupported
  operation.
\<close>

theorem sync_hyper_call_sets_zero_flag:
  assumes "kX86VerifySegmentReadable hc \<noteq> kX86VerifySegmentWritable hc"
    and "\<And>b w n. n \<noteq> 6 \<Longrightarrow> bit (assign_rflag_zf hc b w) n = bit w n"
  shows "case remill_sync_hyper_call hc (Some s) (Some m) call of (s', m') \<Rightarrow>
    if call = kX86VerifySegmentReadable hc \<or> call = kX86VerifySegmentWritable hc
    then m' = Some m \<and>
      map_option GetFlags s' = Some (set_or_clear (ucast kFlagZF)
        (ucast (addr_to_load s) = (if call = kX86VerifySegmentReadable hc then 0x20 else 0x28 :: u16)) (GetFlags s))
    else s' = Some s \<and> map_option GuestMemory_ok m' = Some False"
proof -
  have flags: "GetFlags (set_zf hc b s) = set_or_clear (ucast kFlagZF) b (GetFlags s)" for b
  proof (rule bit_word_eqI)
    fix n assume "n < LENGTH(64)"
    then show "bit (GetFlags (set_zf hc b s)) n = bit (set_or_clear (ucast kFlagZF) b (GetFlags s)) n"
      using assms(2)
      by (simp add: bit_GetFlags set_zf_def flag_words bit_set_or_clear_flags bit_or_iff bool_u8_eq_0)
  qed
  show ?thesis
    using assms(1)
    by (auto simp: remill_sync_hyper_call_def Let_def flags MarkUnsupported_def GuestMemory_ok_def
        GuestMemory_SetUnsupported_def SetFault_def)
qed

section \<open>Witnesses\<close>

definition demo_hyper_calls :: HyperCalls where
  "demo_hyper_calls = \<lparr>kX86VerifySegmentReadable = 1, kX86VerifySegmentWritable = 2,
     assign_rflag_zf = (\<lambda>b w. set_or_clear 64 b w)\<rparr>"

theorem sync_hyper_call_sets_zero_flag_witness:
  "case remill_sync_hyper_call demo_hyper_calls (Some (demo_state\<lparr>addr_to_load := 0x28\<rparr>)) (Some demo_memory) 2 of
     (s', m') \<Rightarrow> m' = Some demo_memory \<and>
       map_option GetFlags s' = Some (set_or_clear (ucast kFlagZF) True (GetFlags (demo_state\<lparr>addr_to_load := 0x28\<rparr>)))"
proof -
  have "bit (assign_rflag_zf demo_hyper_calls b w) n = bit w n" if "n \<noteq> 6" for b w n
    using that by (auto simp: demo_hyper_calls_def bit_set_or_clear_flags dest: bit_imp_le_length)
  from sync_hyper_call_sets_zero_flag [OF _ this, where s = "demo_state\<lparr>addr_to_load := 0x28\<rparr>" and m = demo_memory and call = 2]
  show ?thesis by (simp add: demo_hyper_calls_def split: prod.splits)
qed

lemma demo_load: "\<exists>c. load_word gm_load demo_memory 0x1FFE = Some (c :: u32)"
  "\<exists>m'. store_word gm_store demo_memory 0x1FFE (v :: u32) = Some m'"
proof -
  note ok = access_ok_weaken [OF demo_access]
  show "\<exists>c. load_word gm_load demo_memory 0x1FFE = Some (c :: u32)"
    using ok(1) by (simp add: load_word_def gm_load_eq)
  show "\<exists>m'. store_word gm_store demo_memory 0x1FFE v = Some m'"
    using gm_store_eq(1) [of "le_bytes v" demo_memory "0x1FFE"] ok(2) by (auto simp: store_word_def)
qed

theorem fetch_and_op_spec_witness:
  "\<exists>out m'. remill_fetch_and FetchAdd (Some demo_memory) 0x1FFE (5 :: u32) = Inr (out, Some m') \<and>
     load_word gm_load m' 0x1FFE = Some (out + 5) \<and>
     (load_word gm_load m' 0x1FF0 :: u8 option) = load_word gm_load demo_memory 0x1FF0"
proof -
  have "disjoint_ranges 0x1FFE (LENGTH(32) div 8) 0x1FF0 (LENGTH(8) div 8)"
    by (simp add: disjoint_ranges_def all_less_4)
  moreover obtain c where "load_word gm_load demo_memory 0x1FFE = Some (c :: u32)" using demo_load(1) by blast
  ultimately show ?thesis
    using fetch_and_op_spec [where 'a = 32 and 'b = 8, of "0x1FFE" "0x1FF0" FetchAdd demo_memory 5]
      demo_load(2) [of "c + 5"]
    by (auto simp: fetch_operation_def)
qed

theorem compare_exchange_spec_witness:
  "\<exists>c m'. remill_compare_exchange_memory (Some demo_memory) 0x1FFE c (7 :: u32) = Inr (c, Some m') \<and>
     load_word gm_load m' 0x1FFE = Some (7 :: u32)"
proof -
  obtain c where "load_word gm_load demo_memory 0x1FFE = Some (c :: u32)" using demo_load(1) by blast
  then show ?thesis
    using compare_exchange_spec [where 'a = 32, of demo_memory "0x1FFE" c 7] demo_load(2) [of 7]
    by auto
qed

theorem lifted_code_is_confined_witness:
  "\<exists>m'. intrinsic_step\<^sup>*\<^sup>* demo_memory m' \<and> last_fault m' \<noteq> None \<and> gm_abs m' 0 = gm_abs demo_memory 0"
proof -
  let ?m = "GuestMemory_SetUnsupported demo_memory 0 ''__remill_error''"
  have "intrinsic_step demo_memory ?m"
    by (rule intrinsic_step.error [of None 0]) (simp add: intrinsic_defs)
  then have steps: "intrinsic_step\<^sup>*\<^sup>* demo_memory ?m" by (rule r_into_rtranclp)
  moreover have "\<not> accessible PermWrite demo_memory 0"
    by (simp add: accessible_abs demo_abs PageBase_def kPageSize_def)
  ultimately show ?thesis
    using lifted_code_is_confined [OF steps, of 0]
    by (intro exI [of _ ?m]) (auto simp: GuestMemory_SetUnsupported_def SetFault_def)
qed

end
