(* ===== verification/Backend.thy ===== *)
theory Backend
  imports Intrinsics
begin

text \<open>
  \<^verbatim>\<open>src/src/remill_backend.hpp\<close> and \<^verbatim>\<open>src/src/remill_backend.cpp\<close>: compiling the opcode of a row
  with Remill and LLVM, and executing the row on the compiled code.

  LLVM and Remill are the parameter \<open>lib\<close>, whose own mutable state (context, architecture, JIT)
  is a value \<open>world\<close> that its operations pass on. What the code itself does with them is
  modelled: the two caches, the pending module with its functions and linkage, the list of
  compiled instructions that wait for the JIT, the names of the functions, every error text and
  the execution of a row from its registers and memory to the observed result. A pointer to a
  \<open>CompiledInstruction\<close> is the cache key of the object, which the cache never replaces; the
  value of such a pointer outside of the cache is \<open>UndefinedBehaviour\<close>.
\<close>

section \<open>Modules\<close>

datatype Linkage = ExternalLinkage | InternalLinkage | OtherLinkage nat

text \<open>A function, global or alias of a module: a declaration has no body.\<close>

record 'b LlvmValue =
  val_name :: string
  val_linkage :: Linkage
  val_body :: "'b option"

record 'b Module =
  module_functions :: "(nat \<times> 'b LlvmValue) list"  \<comment> \<open>by their address\<close>
  module_globals :: "'b LlvmValue list"
  module_aliases :: "'b LlvmValue list"

definition is_declaration :: "'b LlvmValue \<Rightarrow> bool" where
  "is_declaration v \<longleftrightarrow> val_body v = None"

text \<open>\<open>getFunction\<close> finds the first function of a name; \<open>deleteBody\<close> makes it a declaration.\<close>

fun externalize_first :: "string \<Rightarrow> (nat \<times> 'b LlvmValue) list \<Rightarrow> (nat \<times> 'b LlvmValue) list" where
  "externalize_first name [] = []"
| "externalize_first name ((p, f) # fs) =
     (if val_name f = name
      then (p, (if is_declaration f then f else f\<lparr>val_body := None\<rparr>)\<lparr>val_linkage := ExternalLinkage\<rparr>) # fs
      else (p, f) # externalize_first name fs)"

definition ExternalizeSyncHyperCall :: "'b Module \<Rightarrow> 'b Module" where
  "ExternalizeSyncHyperCall module =
     module\<lparr>module_functions := externalize_first ''__remill_sync_hyper_call'' (module_functions module)\<rparr>"

definition internalize :: "'b LlvmValue \<Rightarrow> 'b LlvmValue" where
  "internalize v = v\<lparr>val_linkage := InternalLinkage\<rparr>"

text \<open>\<open>global_dce\<close> is LLVM's pass of that name.\<close>

definition PruneModuleForJit :: "('b Module \<Rightarrow> 'b Module) \<Rightarrow> nat set \<Rightarrow> 'b Module \<Rightarrow> 'b Module" where
  "PruneModuleForJit global_dce entry_functions module =
     (let module = module\<lparr>module_functions := map (\<lambda>(p, f).
            (p, if p \<notin> entry_functions \<and> \<not> is_declaration f then internalize f else f)) (module_functions module)\<rparr>;
          module = module\<lparr>module_globals := map (\<lambda>g. if \<not> is_declaration g then internalize g else g)
            (module_globals module)\<rparr>;
          module = module\<lparr>module_aliases := map internalize (module_aliases module)\<rparr>
      in global_dce module)"

section \<open>The state of the backend and the library\<close>

text \<open>
  Compiled code runs on a state, the address of the instruction and the guest memory, and
  leaves a state and a memory, or does not return.
\<close>

type_synonym LiftedFunction = "State \<Rightarrow> u64 \<Rightarrow> GuestMemory \<Rightarrow> (State \<times> GuestMemory) res"

record CompiledInstruction =
  ci_name :: string
  ci_function :: "LiftedFunction option"
  ir_function :: nat

text \<open>A table of intrinsics, by the number of arguments of its \<open>async_hyper_call\<close> when it has one.\<close>

type_synonym intrinsic_table = "u64 option"

record ('b, 'w) RemillBackend =
  initialized :: bool
  next_function_id :: u64
  pending_module :: "'b Module option"
  pending_intrinsics :: "intrinsic_table option"
  pending_compiled :: "string list"
  cache :: "(string, CompiledInstruction) omap"
  failed_compile_cache :: "(string, string) omap"
  world :: 'w

definition new_backend :: "'w \<Rightarrow> ('b, 'w) RemillBackend" where
  "new_backend w = \<lparr>initialized = False, next_function_id = 0, pending_module = None,
     pending_intrinsics = None, pending_compiled = [], cache = [], failed_compile_cache = [], world = w\<rparr>"

text \<open>
  The operations of LLVM and Remill that the backend calls. An optional string is the text of an
  error; \<open>lib_context\<close> and \<open>lib_arch_get\<close> say whether the pointer is not null.
\<close>

record ('b, 'i, 'w) RemillLib =
  lib_process_init :: "'w \<Rightarrow> 'w"
  lib_context :: "'w \<Rightarrow> bool \<times> 'w"
  lib_arch_get :: "'w \<Rightarrow> bool \<times> 'w"
  lib_detect_host :: "'w \<Rightarrow> string option \<times> 'w"
  lib_create_jit :: "'w \<Rightarrow> string option \<times> 'w"
  lib_mangle :: "'w \<Rightarrow> string \<Rightarrow> string"
  lib_define_symbols :: "string list \<Rightarrow> 'w \<Rightarrow> string option \<times> 'w"
  lib_add_generator :: "'w \<Rightarrow> string option \<times> 'w"
  lib_load_semantics :: "'w \<Rightarrow> 'b Module option \<times> 'w"
  lib_set_target :: "'w \<Rightarrow> 'b Module \<Rightarrow> 'b Module"
  lib_intrinsic_table :: "'b Module \<Rightarrow> intrinsic_table"
  lib_arch_intrinsics :: "'w \<Rightarrow> intrinsic_table option"
  lib_kPCArgNum :: u64
  lib_decode_instruction :: "'w \<Rightarrow> u64 \<Rightarrow> u8 list \<Rightarrow> 'i option"
  lib_define_function :: "string \<Rightarrow> 'b Module \<Rightarrow> nat \<times> 'b Module"
  lib_lift :: "'w \<Rightarrow> 'i \<Rightarrow> nat \<Rightarrow> 'b Module \<Rightarrow> bool \<times> 'b Module"
  lib_create_ret :: "nat \<Rightarrow> 'b Module \<Rightarrow> 'b Module"
  lib_global_dce :: "'b Module \<Rightarrow> 'b Module"
  lib_add_module :: "'b Module \<Rightarrow> 'w \<Rightarrow> string option \<times> 'w"
  lib_lookup :: "string \<Rightarrow> 'w \<Rightarrow> (string + LiftedFunction option) \<times> 'w"

section \<open>Names and errors\<close>

definition DecodeKey :: "ExpectationRow \<Rightarrow> string" where
  "DecodeKey row = to_string (row_address row) @ ''#'' @ row_opcode row"

definition FunctionName :: "u64 \<Rightarrow> ExpectationRow \<Rightarrow> string" where
  "FunctionName n row = ''lifted_'' @ to_string n @ ''_'' @ row_opcode row"

definition backend_PageBase :: "u64 \<Rightarrow> u64" where
  "backend_PageBase address = address AND NOT (kPageSize - 1)"

definition IsUnsupportedCompileError :: "string \<Rightarrow> bool" where
  "IsUnsupportedCompileError error \<longleftrightarrow>
     starts_with error ''Remill failed to decode'' \<or> starts_with error ''Remill failed to lift''"

definition SupportsCase :: "ExpectationRow \<Rightarrow> bool" where
  "SupportsCase row \<longleftrightarrow> row_opcode row \<noteq> []"

section \<open>Initialisation\<close>

text \<open>
  Steps that each answer an error text or nothing, and run until the first error; a null
  pointer gives the error of the code.
\<close>

fun and_then :: "string option \<times> 'w \<Rightarrow> ('w \<Rightarrow> string option \<times> 'w) \<Rightarrow> string option \<times> 'w" where
  "and_then (Some e, w) f = (Some e, w)"
| "and_then (None, w) f = f w"

fun require_pointer :: "string \<Rightarrow> bool \<times> 'w \<Rightarrow> string option \<times> 'w" where
  "require_pointer message (present, w) = (if present then None else Some message, w)"

definition acquire_arch :: "('b, 'i, 'w, 'x) RemillLib_scheme \<Rightarrow> 'w \<Rightarrow> string option \<times> 'w" where
  "acquire_arch lib w =
     and_then (require_pointer ''failed to create LLVM context'' (lib_context lib w)) (\<lambda>w.
       require_pointer ''failed to create Remill linux/amd64 architecture'' (lib_arch_get lib w))"

definition define_intrinsics :: "('b, 'i, 'w, 'x) RemillLib_scheme \<Rightarrow> 'w \<Rightarrow> string option \<times> 'w" where
  "define_intrinsics lib w =
     (let (ok, error) = DefineRemillIntrinsicSymbols (lib_mangle lib w)
            (\<lambda>symbols. fst (lib_define_symbols lib symbols w)) []
      in (if ok then None else Some error,
          snd (lib_define_symbols lib (map (lib_mangle lib w) defined_symbols) w)))"

definition EnsureInitialized ::
  "('b, 'i, 'w, 'x) RemillLib_scheme \<Rightarrow> ('b, 'w) RemillBackend \<Rightarrow> string \<Rightarrow>
   bool \<times> string \<times> ('b, 'w) RemillBackend" where
  "EnsureInitialized lib b error =
     (if initialized b then (True, error, b)
      else case and_then (and_then (and_then (and_then (acquire_arch lib (lib_process_init lib (world b)))
             (lib_detect_host lib)) (lib_create_jit lib)) (define_intrinsics lib)) (lib_add_generator lib) of
        (Some message, w) \<Rightarrow> (False, message, b\<lparr>world := w\<rparr>)
      | (None, w) \<Rightarrow> (True, error, b\<lparr>initialized := True, world := w\<rparr>))"

definition EnsurePendingModule ::
  "('b, 'i, 'w, 'x) RemillLib_scheme \<Rightarrow> ('b, 'w) RemillBackend \<Rightarrow> string \<Rightarrow>
   bool \<times> string \<times> ('b, 'w) RemillBackend" where
  "EnsurePendingModule lib b error =
     (if pending_module b \<noteq> None then (True, error, b)
      else case EnsureInitialized lib b error of
        (ok, error, b) \<Rightarrow>
          if \<not> ok then (False, error, b)
          else case acquire_arch lib (world b) of
            (Some message, w) \<Rightarrow> (False, message, b\<lparr>world := w\<rparr>)
          | (None, w) \<Rightarrow>
              (case lib_load_semantics lib w of
                 (None, w) \<Rightarrow> (False, ''failed to load Remill semantics'', b\<lparr>world := w\<rparr>)
               | (Some module, w) \<Rightarrow>
                   let module = ExternalizeSyncHyperCall (lib_set_target lib w module) in
                   (True, error, b\<lparr>pending_module := Some module,
                      pending_intrinsics := Some (lib_intrinsic_table lib module), world := w\<rparr>)))"

section \<open>Handing the pending module to the JIT\<close>

definition deref :: "('b, 'w) RemillBackend \<Rightarrow> string \<Rightarrow> CompiledInstruction res" where
  "deref b key = (case map_of (cache b) key of None \<Rightarrow> Inl UndefinedBehaviour | Some c \<Rightarrow> Inr c)"

fun resolve_symbols ::
  "('b, 'i, 'w, 'x) RemillLib_scheme \<Rightarrow> string list \<Rightarrow> ('b, 'w) RemillBackend \<Rightarrow> string \<Rightarrow>
   (bool \<times> string \<times> ('b, 'w) RemillBackend) res" where
  "resolve_symbols lib [] b error = Inr (True, error, b)"
| "resolve_symbols lib (key # keys) b error =
     res_bind (deref b key) (\<lambda>compiled.
       case lib_lookup lib (ci_name compiled) (world b) of
         (Inl message, w) \<Rightarrow> Inr (False, message, b\<lparr>world := w\<rparr>)
       | (Inr function, w) \<Rightarrow>
           resolve_symbols lib keys
             (b\<lparr>cache := omap_put key (compiled\<lparr>ci_function := function\<rparr>) (cache b), world := w\<rparr>) error)"

definition FinalizePendingModule ::
  "('b, 'i, 'w, 'x) RemillLib_scheme \<Rightarrow> ('b, 'w) RemillBackend \<Rightarrow> string \<Rightarrow>
   (bool \<times> string \<times> ('b, 'w) RemillBackend) res" where
  "FinalizePendingModule lib b error =
     (case pending_module b of
        None \<Rightarrow> Inr (True, error, b)
      | Some module \<Rightarrow>
          if pending_compiled b = []
          then Inr (True, error, b\<lparr>pending_module := None, pending_intrinsics := None\<rparr>)
          else res_bind (res_map (\<lambda>key. res_bind (deref b key) (\<lambda>c. Inr (ir_function c))) (pending_compiled b))
            (\<lambda>entry_functions.
              let module = PruneModuleForJit (lib_global_dce lib) (set entry_functions) module in
              case lib_add_module lib module (world b) of
                (Some message, w) \<Rightarrow> Inr (False, message, b\<lparr>pending_module := None, world := w\<rparr>)
              | (None, w) \<Rightarrow>
                  res_bind (resolve_symbols lib (pending_compiled b) (b\<lparr>pending_module := None, world := w\<rparr>) error)
                    (\<lambda>(ok, error, b).
                      if ok then Inr (True, error, b\<lparr>pending_compiled := [], pending_intrinsics := None\<rparr>)
                      else Inr (False, error, b))))"
section \<open>Compiling a row\<close>

definition erase_function :: "nat \<Rightarrow> 'b Module \<Rightarrow> 'b Module" where
  "erase_function p module =
     module\<lparr>module_functions := filter (\<lambda>(q, f). q \<noteq> p) (module_functions module)\<rparr>"

definition usable_table :: "u64 \<Rightarrow> intrinsic_table option \<Rightarrow> bool" where
  "usable_table pc_arg table =
     (case table of Some (Some arg_size) \<Rightarrow> pc_arg < arg_size | _ \<Rightarrow> False)"

definition fail ::
  "string \<Rightarrow> ('b, 'w) RemillBackend \<Rightarrow> string \<Rightarrow> (string option \<times> string \<times> ('b, 'w) RemillBackend) res" where
  "fail key b message =
     Inr (None, message, b\<lparr>failed_compile_cache := omap_put key message (failed_compile_cache b)\<rparr>)"

definition DefineInPendingModule ::
  "('b, 'i, 'w, 'x) RemillLib_scheme \<Rightarrow> ('b, 'w) RemillBackend \<Rightarrow> ExpectationRow \<Rightarrow> string \<Rightarrow>
   (string option \<times> string \<times> ('b, 'w) RemillBackend) res" where
  "DefineInPendingModule lib b row error =
     (let key = DecodeKey row in
      if map_of (cache b) key \<noteq> None then Inr (Some key, error, b)
      else case map_of (failed_compile_cache b) key of
        Some message \<Rightarrow> Inr (None, message, b)
      | None \<Rightarrow>
          (case EnsurePendingModule lib b error of
             (ok, error, b) \<Rightarrow>
               if \<not> ok then Inr (None, error, b)
               else res_bind (ParseHexBytes (row_opcode row)) (\<lambda>opcode_bytes.
                 if \<not> usable_table (lib_kPCArgNum lib) (lib_arch_intrinsics lib (world b))
                 then fail key b ''failed to create Remill intrinsic table for decoder''
                 else case lib_decode_instruction lib (world b) (row_address row) opcode_bytes of
                   None \<Rightarrow> fail key b (''Remill failed to decode opcode '' @ row_opcode row)
                 | Some instruction \<Rightarrow>
                     if \<not> usable_table (lib_kPCArgNum lib) (pending_intrinsics b)
                     then fail key b ''failed to create Remill intrinsic table for lifter''
                     else
                       let function_name = FunctionName (next_function_id b) row;
                           b = b\<lparr>next_function_id := next_function_id b + 1\<rparr>
                       in case pending_module b of
                         None \<Rightarrow> Inl UndefinedBehaviour
                       | Some module \<Rightarrow>
                           let (function, module) = lib_define_function lib function_name module;
                               (lifted, module) = lib_lift lib (world b) instruction function module
                           in if \<not> lifted
                              then fail key (b\<lparr>pending_module := Some (erase_function function module)\<rparr>)
                                     (''Remill failed to lift opcode '' @ row_opcode row)
                              else Inr (Some key, error,
                                b\<lparr>pending_module := Some (lib_create_ret lib function module),
                                  cache := omap_put key \<lparr>ci_name = function_name, ci_function = None,
                                    ir_function = function\<rparr> (cache b),
                                  pending_compiled := pending_compiled b @ [key]\<rparr>))))"

text \<open>A null row pointer is \<open>None\<close>.\<close>

fun prepare_rows ::
  "('b, 'i, 'w, 'x) RemillLib_scheme \<Rightarrow> ExpectationRow option list \<Rightarrow> ('b, 'w) RemillBackend \<Rightarrow> string \<Rightarrow>
   (bool \<times> string \<times> ('b, 'w) RemillBackend) res" where
  "prepare_rows lib [] b error = Inr (True, error, b)"
| "prepare_rows lib (entry # rows) b error =
     (case entry of
        None \<Rightarrow> prepare_rows lib rows b error
      | Some row \<Rightarrow>
          if \<not> SupportsCase row then prepare_rows lib rows b error
          else res_bind (DefineInPendingModule lib b row error) (\<lambda>(compiled, error, b).
            if compiled = None \<and> \<not> IsUnsupportedCompileError error then Inr (False, error, b)
            else prepare_rows lib rows b error))"

definition PrepareCases ::
  "('b, 'i, 'w, 'x) RemillLib_scheme \<Rightarrow> ('b, 'w) RemillBackend \<Rightarrow> ExpectationRow option list \<Rightarrow> string \<Rightarrow>
   (bool \<times> string \<times> ('b, 'w) RemillBackend) res" where
  "PrepareCases lib b rows error =
     (case EnsureInitialized lib b error of
        (ok, error, b) \<Rightarrow>
          if \<not> ok then Inr (False, error, b)
          else res_bind (prepare_rows lib rows b error) (\<lambda>(ok, error, b).
            if \<not> ok then Inr (False, error, b) else FinalizePendingModule lib b error))"

definition finalize_and_check ::
  "('b, 'i, 'w, 'x) RemillLib_scheme \<Rightarrow> string \<Rightarrow> ('b, 'w) RemillBackend \<Rightarrow> string \<Rightarrow>
   (string option \<times> string \<times> ('b, 'w) RemillBackend) res" where
  "finalize_and_check lib key b error =
     res_bind (FinalizePendingModule lib b error) (\<lambda>(ok, error, b).
       if \<not> ok then Inr (None, error, b)
       else res_bind (deref b key) (\<lambda>compiled.
         Inr (if ci_function compiled = None then None else Some key, error, b)))"

definition Compile ::
  "('b, 'i, 'w, 'x) RemillLib_scheme \<Rightarrow> ('b, 'w) RemillBackend \<Rightarrow> ExpectationRow \<Rightarrow> string \<Rightarrow>
   (string option \<times> string \<times> ('b, 'w) RemillBackend) res" where
  "Compile lib b row error =
     (let key = DecodeKey row in
      case map_of (cache b) key of
        Some compiled \<Rightarrow>
          if ci_function compiled \<noteq> None then Inr (Some key, error, b)
          else finalize_and_check lib key b error
      | None \<Rightarrow>
          (case map_of (failed_compile_cache b) key of
             Some message \<Rightarrow> Inr (None, message, b)
           | None \<Rightarrow>
               res_bind (DefineInPendingModule lib b row error) (\<lambda>(compiled, error, b).
                 case compiled of
                   None \<Rightarrow> Inr (None, error, b)
                 | Some compiled \<Rightarrow> finalize_and_check lib compiled b error)))"

section \<open>Running a row\<close>

fun setup_cells :: "MemoryCell list \<Rightarrow> GuestMemory \<Rightarrow> GuestMemory res" where
  "setup_cells [] memory = Inr memory"
| "setup_cells (cell # cells) memory =
     (let perms = (if permissions cell = 0 then PermReadWrite else permissions cell) in
      res_bind (GuestMemory_Map memory (cell_address cell) (of_nat (length (cell_bytes cell))) perms) (\<lambda>(_, memory).
        res_bind (GuestMemory_Write_vector memory (cell_address cell) (cell_bytes cell)) (\<lambda>(_, memory).
          setup_cells cells memory)))"

definition setup_memory :: "ExpectationRow \<Rightarrow> u8 list \<Rightarrow> GuestMemory res" where
  "setup_memory row opcode_bytes =
     res_bind (GuestMemory_Map new_memory (backend_PageBase (row_address row)) kPageSize
         (PermReadExecute OR PermWrite)) (\<lambda>(_, memory).
       res_bind (GuestMemory_Write_vector memory (row_address row) opcode_bytes) (\<lambda>(_, memory).
         setup_cells (initial_memory row) memory))"

fun observe_memory ::
  "MemoryExpectation list \<Rightarrow> GuestMemory \<Rightarrow> MemoryExpectation list \<Rightarrow> (MemoryExpectation list \<times> GuestMemory) res" where
  "observe_memory [] memory out = Inr (out, memory)"
| "observe_memory (expectation # rest) memory out =
     (let n = length (exp_bytes expectation) in
      res_bind (GuestMemory_Read memory (exp_address expectation) (Some (replicate n 0)) (of_nat n))
        (\<lambda>(_, bytes, memory).
          observe_memory rest memory (out @ [\<lparr>exp_address = exp_address expectation,
            exp_bytes = (case bytes of Some bs \<Rightarrow> bs | None \<Rightarrow> []), exp_mask = exp_mask expectation\<rparr>])))"

definition fault_detail_text :: "MemoryFault \<Rightarrow> string" where
  "fault_detail_text fault = fault_operation fault @ '' fault at 0x'' @ hex_lower (fault_address fault) @
     '': '' @ fault_detail fault"

definition classify_fault :: "ExpectationRow \<Rightarrow> MemoryFault option \<Rightarrow> ExecutionResult \<Rightarrow> ExecutionResult" where
  "classify_fault row fault result =
     (let remill_error = (case fault of None \<Rightarrow> False
            | Some f \<Rightarrow> fault_kind f = FaultUnsupported \<and> fault_detail f = ''__remill_error'');
          result = result\<lparr>outcome_class :=
            (if remill_error \<and> expected_exception_kind row \<noteq> None then Exception
             else if (case fault of None \<Rightarrow> False | Some f \<Rightarrow> fault_kind f = FaultUnsupported)
             then Unsupported else Exception)\<rparr>
      in if remill_error \<and> expected_exception_kind row \<noteq> None
         then result\<lparr>exception_detail := expected_exception_kind row\<rparr>
         else (case fault of None \<Rightarrow> result
               | Some f \<Rightarrow> result\<lparr>exception_detail := Some (fault_detail_text f)\<rparr>))"

text \<open>A state without an instruction pointer gets the address of the row.\<close>

definition default_rip :: "ExpectationRow \<Rightarrow> State \<Rightarrow> State" where
  "default_rip row s =
     (if (case GetScalarRegister s ''rip'' of Some v \<Rightarrow> v | None \<Rightarrow> 0) = 0
      then snd (SetScalarRegister s ''rip'' (row_address row)) else s)"

text \<open>\<open>execute_row\<close> is the rest of \<open>RunCase\<close> once the row is compiled: \<open>stack\<close> is the uninitialised \<open>State\<close>.\<close>

definition execute_row ::
  "nat \<Rightarrow> State \<Rightarrow> LiftedFunction \<Rightarrow> ExpectationRow \<Rightarrow> string list \<Rightarrow> string \<Rightarrow> ExecutionResult \<Rightarrow> ExecutionResult res" where
  "execute_row nvec stack function row final_state_keys error result =
     (case ApplyInitialState nvec (ResetState stack) (initial_state row) (initial_bytes row) (Some error) of
        (ok, s, error') \<Rightarrow>
          if \<not> ok
          then Inr (result\<lparr>outcome_class := Unsupported, backend_error := error'\<rparr>)
          else
            let s = default_rip row s in
            res_bind (ParseHexBytes (row_opcode row)) (\<lambda>opcode_bytes.
            res_bind (setup_memory row opcode_bytes) (\<lambda>memory.
            res_bind (function s (row_address row) memory) (\<lambda>(s, memory).
            res_bind (if GuestMemory_ok memory then observe_memory (expected_memory row) memory []
                      else Inr ([], memory)) (\<lambda>(observed, memory).
              let result = result\<lparr>final_memory := observed\<rparr> in
              Inr (if \<not> GuestMemory_ok memory then classify_fault row (last_fault memory) result
                   else result\<lparr>outcome_class := Normal, final_state := SnapshotState s final_state_keys,
                     final_bytes := SnapshotBytes nvec s (map fst (expected_final_bytes row))\<rparr>))))))"

definition RunCase ::
  "('b, 'i, 'w, 'x) RemillLib_scheme \<Rightarrow> nat \<Rightarrow> State \<Rightarrow> ('b, 'w) RemillBackend \<Rightarrow> ExpectationRow \<Rightarrow> string list \<Rightarrow>
   (ExecutionResult \<times> ('b, 'w) RemillBackend) res" where
  "RunCase lib nvec stack b row final_state_keys =
     (let result = default_result in
      if \<not> SupportsCase row
      then Inr (result\<lparr>outcome_class := Unsupported, backend_error := Some ''row has no opcode''\<rparr>, b)
      else case EnsureInitialized lib b [] of
        (ok, error, b) \<Rightarrow>
          if \<not> ok
          then Inr (result\<lparr>outcome_class := BackendError, backend_error := Some error\<rparr>, b)
          else res_bind (Compile lib b row error) (\<lambda>(compiled, error, b).
            case compiled of
              None \<Rightarrow>
                Inr (result\<lparr>outcome_class :=
                    (if starts_with error ''Remill failed to decode'' \<or> starts_with error ''Remill failed to lift''
                     then Unsupported else BackendError), backend_error := Some error\<rparr>, b)
            | Some key \<Rightarrow>
                res_bind (deref b key) (\<lambda>c.
                  case ci_function c of
                    None \<Rightarrow> Inl UndefinedBehaviour
                  | Some function \<Rightarrow>
                      res_bind (execute_row nvec stack function row final_state_keys error result) (\<lambda>result.
                        Inr (result, b)))))"

section \<open>Keys and names are unique\<close>

lemma find_omap_put [simp]: "map_of (omap_put k v m) x = (if x = k then Some v else map_of m x)"
  by (induction k v m rule: omap_put.induct) auto

lemma to_string_chars: "c \<in> set (to_string v) \<Longrightarrow> c \<noteq> CHR ''#'' \<and> c \<noteq> CHR ''_''"
  using show_nat_base_digits [of 10 c True "unat v"]
  by (auto simp: to_string_def is_base_digit_def digit_value_def Let_def split: if_splits)

lemma to_string_inject [simp]: "to_string v = to_string w \<longleftrightarrow> v = w"
proof
  assume "to_string v = to_string w"
  then have "digits_value 10 (show_nat True 10 (unat v)) = digits_value 10 (show_nat True 10 (unat w))"
    by (simp add: to_string_def)
  then show "v = w" by (simp add: digits_value_show_nat word_unat_eq_iff)
qed simp

lemma DecodeKey_inject:
  "DecodeKey r = DecodeKey r' \<longleftrightarrow> row_address r = row_address r' \<and> row_opcode r = row_opcode r'"
proof -
  have "CHR ''#'' \<notin> set (to_string v)" for v using to_string_chars by blast
  then show ?thesis by (simp add: DecodeKey_def append_sep_eq)
qed

lemma FunctionName_inject:
  "FunctionName n r = FunctionName n' r' \<longleftrightarrow> n = n' \<and> row_opcode r = row_opcode r'"
proof -
  have "CHR ''_'' \<notin> set (to_string v)" for v using to_string_chars by blast
  then show ?thesis by (simp add: FunctionName_def append_sep_eq)
qed

section \<open>The invariant of the backend\<close>

definition same_tables :: "('b, 'w) RemillBackend \<Rightarrow> ('b, 'w) RemillBackend \<Rightarrow> bool" where
  "same_tables b b' \<longleftrightarrow> cache b' = cache b \<and> failed_compile_cache b' = failed_compile_cache b \<and>
     pending_compiled b' = pending_compiled b \<and> next_function_id b' = next_function_id b"

lemma same_tables_refl [simp, intro]: "same_tables b b"
  by (simp add: same_tables_def)

lemma same_tables_update [simp]:
  "same_tables b (c\<lparr>world := w\<rparr>) = same_tables b c"
  "same_tables b (c\<lparr>initialized := i\<rparr>) = same_tables b c"
  "same_tables b (c\<lparr>pending_module := m\<rparr>) = same_tables b c"
  "same_tables b (c\<lparr>pending_intrinsics := t\<rparr>) = same_tables b c"
  by (simp_all add: same_tables_def)

lemma EnsureInitialized_tables:
  "EnsureInitialized lib b error = (ok, error', b') \<Longrightarrow>
     same_tables b b' \<and> pending_module b' = pending_module b"
  by (auto simp: EnsureInitialized_def split: if_splits prod.splits option.splits)

lemma EnsurePendingModule_tables:
  assumes "EnsurePendingModule lib b error = (ok, error', b')"
  shows "same_tables b b' \<and> (ok \<longrightarrow> pending_module b' \<noteq> None)"
proof (cases "pending_module b = None")
  case True
  obtain i e1 b1 where init: "EnsureInitialized lib b error = (i, e1, b1)" by (metis prod_cases3)
  note EnsureInitialized_tables [OF init]
  then show ?thesis
    using assms True unfolding EnsurePendingModule_def init
    by (auto simp: Let_def split: if_splits prod.splits option.splits)
next
  case False
  then show ?thesis using assms by (simp add: EnsurePendingModule_def)
qed

text \<open>
  \<open>backend_inv n\<close>: no key is both compiled and failed, every pending pointer is an object of
  the cache, and the cached instructions carry names built from different values of the function
  counter, which has counted at most \<open>n\<close> functions.
\<close>

definition names_ok :: "nat \<Rightarrow> ('b, 'w) RemillBackend \<Rightarrow> bool" where
  "names_ok n b \<longleftrightarrow> (\<exists>N ids. N \<le> n \<and> next_function_id b = of_nat N \<and> inj_on ids (dom (map_of (cache b))) \<and>
     (\<forall>k c. map_of (cache b) k = Some c \<longrightarrow>
        ids k < N \<and> (\<exists>row. DecodeKey row = k \<and> ci_name c = FunctionName (of_nat (ids k :: nat)) row)))"

definition backend_inv :: "nat \<Rightarrow> ('b, 'w) RemillBackend \<Rightarrow> bool" where
  "backend_inv n b \<longleftrightarrow> names_ok n b \<and> set (pending_compiled b) \<subseteq> dom (map_of (cache b)) \<and>
     dom (map_of (cache b)) \<inter> dom (map_of (failed_compile_cache b)) = {}"

text \<open>\<open>evolves\<close>: what no operation takes back.\<close>

definition evolves :: "('b, 'w) RemillBackend \<Rightarrow> ('b, 'w) RemillBackend \<Rightarrow> bool" where
  "evolves b b' \<longleftrightarrow> map_of (failed_compile_cache b) \<subseteq>\<^sub>m map_of (failed_compile_cache b') \<and>
     (\<forall>k c. map_of (cache b) k = Some c \<longrightarrow> (\<exists>c'. map_of (cache b') k = Some c' \<and> ci_name c' = ci_name c \<and>
        (k \<notin> set (pending_compiled b) \<longrightarrow> c' = c \<and> k \<notin> set (pending_compiled b'))))"

lemma evolves_refl [simp, intro]: "evolves b b"
  by (simp add: evolves_def)

lemma evolves_trans [trans]: "evolves a b \<Longrightarrow> evolves b c \<Longrightarrow> evolves a c"
  unfolding evolves_def by (metis map_le_trans)

lemma same_tables_evolves: "same_tables b b' \<Longrightarrow> evolves b b'"
  by (simp add: same_tables_def evolves_def)

lemma same_tables_inv: "same_tables b b' \<Longrightarrow> backend_inv n b' = backend_inv n b"
  by (simp add: same_tables_def backend_inv_def names_ok_def)

lemma names_ok_mono: "names_ok n b \<Longrightarrow> n \<le> n' \<Longrightarrow> names_ok n' b"
  unfolding names_ok_def by (meson le_trans)

lemma backend_inv_mono: "backend_inv n b \<Longrightarrow> n \<le> n' \<Longrightarrow> backend_inv n' b"
  unfolding backend_inv_def using names_ok_mono by blast

lemma backend_inv_new [simp]: "backend_inv n (new_backend w)"
  by (auto simp: backend_inv_def names_ok_def new_backend_def)

text \<open>An operation that keeps the invariant and only adds to the tables.\<close>

definition keeps :: "nat \<Rightarrow> ('b, 'w) RemillBackend \<Rightarrow> nat \<Rightarrow> ('b, 'w) RemillBackend \<Rightarrow> bool" where
  "keeps n b n' b' \<longleftrightarrow> backend_inv n' b' \<and> evolves b b'"

lemma keeps_refl: "backend_inv n b \<Longrightarrow> keeps n b n b"
  by (simp add: keeps_def)

lemma keeps_trans: "keeps n a n1 b \<Longrightarrow> keeps n1 b n2 c \<Longrightarrow> keeps n a n2 c"
  by (auto simp: keeps_def intro: evolves_trans)

lemma keeps_same: "backend_inv n b \<Longrightarrow> same_tables b b' \<Longrightarrow> keeps n b n b'"
  by (simp add: keeps_def same_tables_inv same_tables_evolves)

lemma deref_cached: "k \<in> dom (map_of (cache b)) \<Longrightarrow> \<exists>c. deref b k = Inr c \<and> map_of (cache b) k = Some c"
  by (auto simp: deref_def)

section \<open>Every operation keeps the invariant\<close>

lemma resolve_symbols_spec:
  "set keys \<subseteq> dom (map_of (cache b)) \<Longrightarrow>
   \<exists>ok e b'. resolve_symbols lib keys b error = Inr (ok, e, b') \<and>
     failed_compile_cache b' = failed_compile_cache b \<and> pending_compiled b' = pending_compiled b \<and>
     next_function_id b' = next_function_id b \<and> pending_module b' = pending_module b \<and>
     dom (map_of (cache b')) = dom (map_of (cache b)) \<and>
     (\<forall>k c. map_of (cache b) k = Some c \<longrightarrow> (\<exists>c'. map_of (cache b') k = Some c' \<and> ci_name c' = ci_name c \<and>
        (k \<notin> set keys \<longrightarrow> c' = c)))"
proof (induction keys arbitrary: b)
  case (Cons key keys)
  then obtain c where c: "map_of (cache b) key = Some c" by auto
  show ?case
  proof (cases "lib_lookup lib (ci_name c) (world b)")
    case (Pair answer w)
    show ?thesis
    proof (cases answer)
      case (Inl message)
      with c Pair show ?thesis by (auto simp: deref_def intro: exI [of _ False])
    next
      case (Inr code)
      let ?b = "b\<lparr>cache := omap_put key (c\<lparr>ci_function := code\<rparr>) (cache b), world := w\<rparr>"
      have dom: "dom (map_of (cache ?b)) = dom (map_of (cache b))" using c by (auto split: if_splits)
      with Cons.prems have "set keys \<subseteq> dom (map_of (cache ?b))" by simp
      from Cons.IH [OF this] obtain ok e b' where b': "resolve_symbols lib keys ?b error = Inr (ok, e, b')"
        "failed_compile_cache b' = failed_compile_cache ?b" "pending_compiled b' = pending_compiled ?b"
        "next_function_id b' = next_function_id ?b" "pending_module b' = pending_module ?b"
        "dom (map_of (cache b')) = dom (map_of (cache ?b))"
        and kept: "\<And>k c. map_of (cache ?b) k = Some c \<Longrightarrow> \<exists>c'. map_of (cache b') k = Some c' \<and>
          ci_name c' = ci_name c \<and> (k \<notin> set keys \<longrightarrow> c' = c)"
        by blast
      have "\<exists>c'. map_of (cache b') k = Some c' \<and> ci_name c' = ci_name d \<and> (k \<notin> set (key # keys) \<longrightarrow> c' = d)"
        if "map_of (cache b) k = Some d" for k d
      proof (cases "k = key")
        case True
        with that c kept [of k "c\<lparr>ci_function := code\<rparr>"] show ?thesis by auto
      next
        case False
        with that kept [of k d] show ?thesis by simp
      qed
      with b' dom c Pair Inr show ?thesis by (simp add: deref_def)
    qed
  qed
qed (auto intro: exI [of _ True])

lemma names_ok_cong:
  assumes "names_ok n b" "next_function_id b' = next_function_id b" "dom (map_of (cache b')) = dom (map_of (cache b))"
    and "\<And>k c. map_of (cache b) k = Some c \<Longrightarrow> \<exists>c'. map_of (cache b') k = Some c' \<and> ci_name c' = ci_name c"
  shows "names_ok n b'"
proof -
  from assms(1) obtain N ids where ids: "N \<le> n" "next_function_id b = of_nat N" "inj_on ids (dom (map_of (cache b)))"
    "\<And>k c. map_of (cache b) k = Some c \<Longrightarrow>
        ids k < N \<and> (\<exists>row. DecodeKey row = k \<and> ci_name c = FunctionName (of_nat (ids k)) row)"
    unfolding names_ok_def by blast
  have "ids k < N \<and> (\<exists>row. DecodeKey row = k \<and> ci_name c' = FunctionName (of_nat (ids k)) row)"
    if "map_of (cache b') k = Some c'" for k c'
  proof -
    from that assms(3) obtain c where c: "map_of (cache b) k = Some c" by blast
    with assms(4) that have "ci_name c' = ci_name c" by fastforce
    with ids(4) [OF c] show ?thesis by simp
  qed
  with ids(1-3) assms(2,3) show ?thesis unfolding names_ok_def by metis
qed

lemma FinalizePendingModule_keeps:
  assumes "backend_inv n b"
  shows "\<exists>ok e b'. FinalizePendingModule lib b error = Inr (ok, e, b') \<and> keeps n b n b' \<and>
     pending_module b' = None \<and> dom (map_of (cache b')) = dom (map_of (cache b))"
proof (cases "pending_module b = None \<or> pending_compiled b = []")
  case True
  then show ?thesis
    using assms keeps_same [OF assms, of "b\<lparr>pending_module := None, pending_intrinsics := None\<rparr>"]
    by (cases "pending_module b") (auto simp: FinalizePendingModule_def keeps_refl)
next
  case False
  then obtain module where module: "pending_module b = Some module" by auto
  from assms have pend: "set (pending_compiled b) \<subseteq> dom (map_of (cache b))" by (simp add: backend_inv_def)
  obtain entries where entries: "res_map (\<lambda>key. res_bind (deref b key) (\<lambda>c. Inr (ir_function c))) (pending_compiled b) = Inr entries"
  proof (cases "res_map (\<lambda>key. res_bind (deref b key) (\<lambda>c. Inr (ir_function c))) (pending_compiled b)")
    case (Inl e)
    from res_map_Inl [OF this] obtain k where k: "k \<in> set (pending_compiled b)"
      "res_bind (deref b k) (\<lambda>c. Inr (ir_function c)) = Inl e" by blast
    from k(1) pend deref_cached [of k b] obtain c where "deref b k = Inr c" by blast
    with k(2) show ?thesis by simp
  qed
  let ?m = "PruneModuleForJit (lib_global_dce lib) (set entries) module"
  obtain answer w where add: "lib_add_module lib ?m (world b) = (answer, w)" by fastforce
  let ?b = "b\<lparr>pending_module := None, world := w\<rparr>"
  have same: "same_tables b ?b" by simp
  show ?thesis
  proof (cases answer)
    case (Some message)
    with False module entries add keeps_same [OF assms same] show ?thesis
      by (auto simp: FinalizePendingModule_def intro: exI [of _ False])
  next
    case None
    have "set (pending_compiled b) \<subseteq> dom (map_of (cache ?b))" using pend by simp
    from resolve_symbols_spec [OF this, of lib error] obtain ok e b' where
      b': "resolve_symbols lib (pending_compiled b) ?b error = Inr (ok, e, b')"
      "failed_compile_cache b' = failed_compile_cache b" "pending_compiled b' = pending_compiled b"
      "next_function_id b' = next_function_id b" "pending_module b' = None"
      "dom (map_of (cache b')) = dom (map_of (cache b))"
      and kept: "\<And>k c. map_of (cache b) k = Some c \<Longrightarrow> \<exists>c'. map_of (cache b') k = Some c' \<and>
          ci_name c' = ci_name c \<and> (k \<notin> set (pending_compiled b) \<longrightarrow> c' = c)"
      by auto
    define c where "c = (if ok then b'\<lparr>pending_compiled := [], pending_intrinsics := None\<rparr> else b')"
    have fin: "FinalizePendingModule lib b error = Inr (ok, e, c)"
      using False module entries add None b'(1) by (simp add: FinalizePendingModule_def c_def)
    have fields: "cache c = cache b'" "next_function_id c = next_function_id b'"
      "failed_compile_cache c = failed_compile_cache b'" "pending_module c = None"
      "set (pending_compiled c) \<subseteq> set (pending_compiled b)"
      using b'(3,5) by (auto simp: c_def)
    have names: "\<exists>d'. map_of (cache c) k = Some d' \<and> ci_name d' = ci_name d" if "map_of (cache b) k = Some d" for k d
      using kept [OF that] fields(1) by auto
    have "names_ok n b" using assms by (simp add: backend_inv_def)
    moreover have "next_function_id c = next_function_id b" "dom (map_of (cache c)) = dom (map_of (cache b))"
      unfolding fields(1,2) b'(4,6) by (rule refl)+
    ultimately have "names_ok n c" using names by (rule names_ok_cong)
    moreover have "set (pending_compiled c) \<subseteq> dom (map_of (cache c))"
      using subset_trans [OF fields(5) pend] unfolding fields(1) b'(6) .
    moreover have "dom (map_of (cache c)) \<inter> dom (map_of (failed_compile_cache c)) = {}"
      using assms unfolding fields(1,3) b'(2,6) backend_inv_def by blast
    ultimately have "backend_inv n c" by (simp only: backend_inv_def simp_thms)
    moreover have "evolves b c"
      unfolding evolves_def
    proof (intro conjI allI impI)
      show "map_of (failed_compile_cache b) \<subseteq>\<^sub>m map_of (failed_compile_cache c)"
        using fields(3) b'(2) by simp
      fix k d assume "map_of (cache b) k = Some d"
      from kept [OF this] fields(1,5)
      show "\<exists>d'. map_of (cache c) k = Some d' \<and> ci_name d' = ci_name d \<and>
          (k \<notin> set (pending_compiled b) \<longrightarrow> d' = d \<and> k \<notin> set (pending_compiled c))"
        by (metis subsetD)
    qed
    ultimately show ?thesis using fin fields b'(6) by (simp add: keeps_def)
  qed
qed

lemma keeps_failed:
  assumes "backend_inv n b" "next_function_id b' = next_function_id b \<or> next_function_id b' = next_function_id b + 1"
    and "cache b' = cache b" "pending_compiled b' = pending_compiled b" "map_of (cache b) key = None"
    and "map_of (failed_compile_cache b) key = None"
    and "failed_compile_cache b' = omap_put key message (failed_compile_cache b)"
  shows "keeps n b (Suc n) b'"
proof -
  from assms(1) obtain N ids where ids: "N \<le> n" "next_function_id b = of_nat N" "inj_on ids (dom (map_of (cache b)))"
    "\<And>k c. map_of (cache b) k = Some c \<Longrightarrow>
        ids k < N \<and> (\<exists>row. DecodeKey row = k \<and> ci_name c = FunctionName (of_nat (ids k)) row)"
    unfolding backend_inv_def names_ok_def by blast
  have "names_ok (Suc n) b'"
  proof (cases "next_function_id b' = next_function_id b")
    case True
    with ids assms(3) show ?thesis unfolding names_ok_def by (metis le_SucI)
  next
    case False
    with assms(2) ids(2) have "next_function_id b' = of_nat (Suc N)" by simp
    moreover have "\<forall>k c. map_of (cache b') k = Some c \<longrightarrow>
        ids k < Suc N \<and> (\<exists>row. DecodeKey row = k \<and> ci_name c = FunctionName (of_nat (ids k)) row)"
      using ids(4) assms(3) by (metis less_SucI)
    ultimately show ?thesis using ids(1,3) assms(3) unfolding names_ok_def
      by (intro exI [of _ "Suc N"] exI [of _ ids]) simp
  qed
  moreover have "dom (map_of (failed_compile_cache b')) = insert key (dom (map_of (failed_compile_cache b)))"
    unfolding assms(7) by (auto split: if_splits)
  then have "dom (map_of (cache b')) \<inter> dom (map_of (failed_compile_cache b')) = {}"
    using assms(1,3,5) by (auto simp: backend_inv_def)
  moreover have "evolves b b'"
    using assms(3,4,6,7) by (auto simp: evolves_def map_le_def)
  ultimately show ?thesis using assms(1,3,4) by (simp add: keeps_def backend_inv_def)
qed

lemma keeps_defined:
  assumes "backend_inv n b" "next_function_id b' = next_function_id b + 1" "DecodeKey row = key"
    and "cache b' = omap_put key \<lparr>ci_name = FunctionName (next_function_id b) row, ci_function = None,
      ir_function = p\<rparr> (cache b)"
    and "pending_compiled b' = pending_compiled b @ [key]" "map_of (cache b) key = None"
    and "map_of (failed_compile_cache b) key = None" "failed_compile_cache b' = failed_compile_cache b"
  shows "keeps n b (Suc n) b'"
proof -
  from assms(1) obtain N ids where ids: "N \<le> n" "next_function_id b = of_nat N" "inj_on ids (dom (map_of (cache b)))"
    "\<And>k c. map_of (cache b) k = Some c \<Longrightarrow>
        ids k < N \<and> (\<exists>row. DecodeKey row = k \<and> ci_name c = FunctionName (of_nat (ids k)) row)"
    unfolding backend_inv_def names_ok_def by blast
  let ?ids = "ids(key := N)"
  have "inj_on ?ids (dom (map_of (cache b')))"
    using ids(3,4) assms(6) by (fastforce simp: assms(4) inj_on_def dom_def)
  moreover have "?ids k < Suc N \<and> (\<exists>row. DecodeKey row = k \<and> ci_name c = FunctionName (of_nat (?ids k)) row)"
    if "map_of (cache b') k = Some c" for k c
  proof (cases "k = key")
    case True
    with that assms(3,4) ids(2) show ?thesis by auto
  next
    case False
    with that assms(4) have "map_of (cache b) k = Some c" by simp
    from ids(4) [OF this] False show ?thesis by auto
  qed
  ultimately have "names_ok (Suc n) b'"
    using ids(1,2) assms(2) unfolding names_ok_def by (intro exI [of _ "Suc N"] exI [of _ ?ids]) auto
  moreover have "set (pending_compiled b') \<subseteq> dom (map_of (cache b'))"
    using assms(1) unfolding assms(4,5) by (auto simp: backend_inv_def)
  moreover have "dom (map_of (cache b')) = insert key (dom (map_of (cache b)))"
    unfolding assms(4) by (auto split: if_splits)
  then have "dom (map_of (cache b')) \<inter> dom (map_of (failed_compile_cache b')) = {}"
    using assms(1,7,8) by (auto simp: backend_inv_def)
  moreover have "evolves b b'"
    using assms(4-6,8) by (auto simp: evolves_def)
  ultimately show ?thesis by (simp add: keeps_def backend_inv_def)
qed

lemma DefineInPendingModule_keeps:
  assumes "backend_inv n b" and result: "DefineInPendingModule lib b row error = Inr (c, e, b')"
  shows "keeps n b (Suc n) b'" "c = Some k \<Longrightarrow> k = DecodeKey row \<and> k \<in> dom (map_of (cache b'))"
proof -
  let ?key = "DecodeKey row"
  have "keeps n b (Suc n) b' \<and> (c = Some k \<longrightarrow> k = ?key \<and> k \<in> dom (map_of (cache b')))"
  proof (cases "map_of (cache b) ?key = None \<and> map_of (failed_compile_cache b) ?key = None")
    case False
    with result have "b' = b \<and> (c = Some k \<longrightarrow> k = ?key \<and> k \<in> dom (map_of (cache b)))"
      by (auto simp: DefineInPendingModule_def Let_def split: if_splits option.splits)
    with assms(1) show ?thesis by (simp add: keeps_def backend_inv_mono)
  next
    case True
    obtain ok e1 b1 where pending: "EnsurePendingModule lib b error = (ok, e1, b1)" by (metis prod_cases3)
    from EnsurePendingModule_tables [OF this] have same: "same_tables b b1" by blast
    note t = same [unfolded same_tables_def]
    have inv1: "backend_inv n b1" using same assms(1) by (simp add: same_tables_inv)
    have lift: "keeps n b (Suc n) b'" if "keeps n b1 (Suc n) b'"
      using keeps_trans [OF keeps_same [OF assms(1) same] that] .
    show ?thesis
    proof (cases ok)
      case not_ok: False
      with True pending result have "c = None \<and> b' = b1"
        by (simp add: DefineInPendingModule_def Let_def)
      with same assms(1) show ?thesis by (auto simp: keeps_def same_tables_evolves same_tables_inv backend_inv_mono)
    next
      case ok: True
      have none: "map_of (cache b1) ?key = None" "map_of (failed_compile_cache b1) ?key = None"
        using True t by simp_all
      from True pending ok result consider
          (failed) message where "c = None" "cache b' = cache b1" "pending_compiled b' = pending_compiled b1"
            "next_function_id b' = next_function_id b1 \<or> next_function_id b' = next_function_id b1 + 1"
            "failed_compile_cache b' = omap_put ?key message (failed_compile_cache b1)"
        | (defined) p where "c = Some ?key" "next_function_id b' = next_function_id b1 + 1"
            "cache b' = omap_put ?key \<lparr>ci_name = FunctionName (next_function_id b1) row, ci_function = None,
               ir_function = p\<rparr> (cache b1)"
            "pending_compiled b' = pending_compiled b1 @ [?key]"
            "failed_compile_cache b' = failed_compile_cache b1"
        by (auto simp: DefineInPendingModule_def Let_def fail_def res_simps
            split: if_splits option.splits prod.splits)
      then show ?thesis
      proof cases
        case failed
        from keeps_failed [OF inv1 failed(4,2,3) none failed(5)] failed(1) lift show ?thesis by simp
      next
        case defined
        from keeps_defined [OF inv1 defined(2) refl defined(3,4) none defined(5)] defined(1,3) lift
        show ?thesis by auto
      qed
    qed
  qed
  then show "keeps n b (Suc n) b'" "c = Some k \<Longrightarrow> k = ?key \<and> k \<in> dom (map_of (cache b'))" by blast+
qed

lemma DefineInPendingModule_Inl:
  assumes "DefineInPendingModule lib b row error = Inl x"
  shows "ParseHexBytes (row_opcode row) = Inl x"
proof -
  obtain ok e1 b1 where pending: "EnsurePendingModule lib b error = (ok, e1, b1)" by (metis prod_cases3)
  from EnsurePendingModule_tables [OF this] have "ok \<Longrightarrow> pending_module b1 \<noteq> None" by blast
  with assms pending show ?thesis
    by (auto simp: DefineInPendingModule_def Let_def fail_def res_simps split: if_splits option.splits prod.splits)
qed

lemma finalize_and_check_keeps:
  assumes inv: "backend_inv n b" and key: "key \<in> dom (map_of (cache b))"
  shows "\<exists>c e b'. finalize_and_check lib key b error = Inr (c, e, b') \<and> keeps n b n b' \<and>
    (c = None \<or> c = Some key \<and> (\<exists>i f. map_of (cache b') key = Some i \<and> ci_function i = Some f))"
proof -
  from FinalizePendingModule_keeps [OF inv, of lib error] obtain ok e b' where
    fin: "FinalizePendingModule lib b error = Inr (ok, e, b')" "keeps n b n b'"
    "dom (map_of (cache b')) = dom (map_of (cache b))" by blast
  from key fin(3) deref_cached [of key b'] obtain i where "deref b' key = Inr i" "map_of (cache b') key = Some i" by blast
  with fin show ?thesis by (cases ok; cases "ci_function i") (auto simp: finalize_and_check_def)
qed

lemma Compile_keeps:
  assumes inv: "backend_inv n b" and result: "Compile lib b row error = Inr (c, e, b')"
  shows "keeps n b (Suc n) b'" "c = Some k \<Longrightarrow> k = DecodeKey row \<and>
    (\<exists>i f. map_of (cache b') k = Some i \<and> ci_function i = Some f)"
proof -
  let ?key = "DecodeKey row"
  have "keeps n b (Suc n) b' \<and> (c = Some k \<longrightarrow> k = ?key \<and>
    (\<exists>i f. map_of (cache b') k = Some i \<and> ci_function i = Some f))"
  proof (cases "map_of (cache b) ?key")
    case (Some i)
    then have "?key \<in> dom (map_of (cache b))" by blast
    from finalize_and_check_keeps [OF inv this, of lib error] Some result
    show ?thesis
      using inv by (cases "ci_function i") (auto simp: Compile_def Let_def keeps_def backend_inv_mono)
  next
    case none: None
    show ?thesis
    proof (cases "map_of (failed_compile_cache b) ?key")
      case (Some message)
      with none result inv show ?thesis by (auto simp: Compile_def Let_def keeps_def backend_inv_mono)
    next
      case None
      with none result obtain d e1 b1 where d: "DefineInPendingModule lib b row error = Inr (d, e1, b1)"
        by (auto simp: Compile_def Let_def res_simps)
      show ?thesis
      proof (cases d)
        case None
        with d none \<open>map_of (failed_compile_cache b) ?key = None\<close> result DefineInPendingModule_keeps(1) [OF inv d]
        show ?thesis by (simp add: Compile_def Let_def)
      next
        case (Some key)
        note keep = DefineInPendingModule_keeps [OF inv d]
        from Some keep have key: "key = ?key" "?key \<in> dom (map_of (cache b1))" by auto
        from keep(1) have "backend_inv (Suc n) b1" by (simp add: keeps_def)
        from finalize_and_check_keeps [OF this key(2), of lib e1] Some d key(1) none
          \<open>map_of (failed_compile_cache b) ?key = None\<close> result keeps_trans [OF keep(1)]
        show ?thesis by (auto simp: Compile_def Let_def)
      qed
    qed
  qed
  then show "keeps n b (Suc n) b'" "c = Some k \<Longrightarrow> k = ?key \<and>
    (\<exists>i f. map_of (cache b') k = Some i \<and> ci_function i = Some f)" by blast+
qed

lemma Compile_Inl:
  assumes inv: "backend_inv n b" and result: "Compile lib b row error = Inl x"
  shows "ParseHexBytes (row_opcode row) = Inl x"
proof (cases "map_of (cache b) (DecodeKey row)")
  case (Some i)
  then have "DecodeKey row \<in> dom (map_of (cache b))" by blast
  from finalize_and_check_keeps [OF inv this, of lib error] Some result show ?thesis
    by (auto simp: Compile_def Let_def split: if_splits)
next
  case None
  with result have "map_of (failed_compile_cache b) (DecodeKey row) = None"
    by (auto simp: Compile_def Let_def split: option.splits)
  with None result consider "DefineInPendingModule lib b row error = Inl x"
    | key e1 b1 where "DefineInPendingModule lib b row error = Inr (Some key, e1, b1)"
        "finalize_and_check lib key b1 e1 = Inl x"
    by (auto simp: Compile_def Let_def res_simps split: option.splits)
  then show ?thesis
  proof cases
    case 1
    then show ?thesis by (rule DefineInPendingModule_Inl)
  next
    case (2 key e1 b1)
    note keep = DefineInPendingModule_keeps [OF inv 2(1)]
    from keep(1) have "backend_inv (Suc n) b1" by (simp add: keeps_def)
    from finalize_and_check_keeps [OF this, of key lib e1] keep(2) [of key] 2(2) show ?thesis by auto
  qed
qed

lemma prepare_rows_keeps:
  "backend_inv n b \<Longrightarrow> prepare_rows lib rows b error = Inr (ok, e, b') \<Longrightarrow> keeps n b (n + length rows) b'"
proof (induction lib rows b error arbitrary: n rule: prepare_rows.induct)
  case (1 lib b error)
  then show ?case by (simp add: keeps_refl)
next
  case (2 lib entry rows b error)
  show ?case
  proof (cases "entry = None \<or> \<not> SupportsCase (the entry)")
    case True
    with 2 have "keeps n b (n + length rows) b'" by (cases entry) auto
    then show ?thesis by (auto simp: keeps_def intro: backend_inv_mono)
  next
    case False
    then obtain row where row: "entry = Some row" "SupportsCase row" by auto
    with "2.prems"(2) obtain c e1 b1 where d: "DefineInPendingModule lib b row error = Inr (c, e1, b1)"
      by (auto simp: res_simps)
    from DefineInPendingModule_keeps(1) [OF "2.prems"(1) d] have keep: "keeps n b (Suc n) b1" .
    show ?thesis
    proof (cases "c = None \<and> \<not> IsUnsupportedCompileError e1")
      case True
      with row d "2.prems"(2) keep show ?thesis by (auto simp: keeps_def intro: backend_inv_mono)
    next
      case False
      with row d "2.prems"(2) have "prepare_rows lib rows b1 e1 = Inr (ok, e, b')" by auto
      moreover from keep have "backend_inv (Suc n) b1" by (simp add: keeps_def)
      ultimately have "keeps (Suc n) b1 (Suc n + length rows) b'"
        using "2.IH"(3) [OF row(1) _ d refl refl False, of "Suc n"] row(2) by simp
      from keeps_trans [OF keep this] show ?thesis by simp
    qed
  qed
qed

lemma prepare_rows_Inl:
  "prepare_rows lib rows b error = Inl x \<Longrightarrow> \<exists>row. Some row \<in> set rows \<and> ParseHexBytes (row_opcode row) = Inl x"
proof (induction lib rows b error rule: prepare_rows.induct)
  case (2 lib entry rows b error)
  show ?case
  proof (cases "entry = None \<or> \<not> SupportsCase (the entry)")
    case True
    with 2 show ?thesis by (cases entry) auto
  next
    case False
    then obtain row where row: "entry = Some row" "SupportsCase row" by auto
    show ?thesis
    proof (cases "DefineInPendingModule lib b row error")
      case (Inl y)
      with row "2.prems" DefineInPendingModule_Inl [OF this] show ?thesis by auto
    next
      case (Inr r)
      obtain c e1 b1 where r: "r = (c, e1, b1)" by (metis prod_cases3)
      note d = Inr [unfolded r]
      have ok: "\<not> (c = None \<and> \<not> IsUnsupportedCompileError e1)"
        using row d "2.prems" by (auto split: if_splits)
      with row d "2.prems" have "prepare_rows lib rows b1 e1 = Inl x" by auto
      with "2.IH"(3) [OF row(1) _ d refl refl ok] row(2) show ?thesis by auto
    qed
  qed
qed simp

lemma PrepareCases_keeps:
  assumes inv: "backend_inv n b" and result: "PrepareCases lib b rows error = Inr (ok, e, b')"
  shows "keeps n b (n + length rows) b'"
proof -
  obtain i e1 b1 where init: "EnsureInitialized lib b error = (i, e1, b1)" by (metis prod_cases3)
  from EnsureInitialized_tables [OF this] keeps_same [OF inv] have k1: "keeps n b n b1" by blast
  then have inv1: "backend_inv n b1" by (simp add: keeps_def)
  show ?thesis
  proof (cases i)
    case False
    with init result k1 show ?thesis by (auto simp: PrepareCases_def keeps_def intro: backend_inv_mono)
  next
    case True
    with init result obtain j e2 b2 where rows: "prepare_rows lib rows b1 e1 = Inr (j, e2, b2)"
      by (auto simp: PrepareCases_def res_simps)
    note k2 = keeps_trans [OF k1 prepare_rows_keeps [OF inv1 rows]]
    then have "backend_inv (n + length rows) b2" by (simp add: keeps_def)
    from FinalizePendingModule_keeps [OF this, of lib e2] True init rows result k2 keeps_trans [OF k2]
    show ?thesis by (cases j) (auto simp: PrepareCases_def)
  qed
qed

lemma PrepareCases_Inl:
  assumes inv: "backend_inv n b" and result: "PrepareCases lib b rows error = Inl x"
  shows "\<exists>row. Some row \<in> set rows \<and> ParseHexBytes (row_opcode row) = Inl x"
proof -
  obtain i e1 b1 where init: "EnsureInitialized lib b error = (i, e1, b1)" by (metis prod_cases3)
  from EnsureInitialized_tables [OF this] inv have inv1: "backend_inv n b1" using same_tables_inv by blast
  show ?thesis
  proof (cases "prepare_rows lib rows b1 e1")
    case (Inl y)
    with prepare_rows_Inl [OF Inl] init result show ?thesis by (auto simp: PrepareCases_def split: if_splits)
  next
    case (Inr r)
    obtain j e2 b2 where r: "r = (j, e2, b2)" by (metis prod_cases3)
    from prepare_rows_keeps [OF inv1 Inr [unfolded r]] have "backend_inv (n + length rows) b2"
      by (simp add: keeps_def)
    from FinalizePendingModule_keeps [OF this, of lib e2] Inr r init result show ?thesis
      by (auto simp: PrepareCases_def split: if_splits)
  qed
qed

section \<open>The memory of a row\<close>

lemma Map_total: "\<exists>ok m'. GuestMemory_Map m a n perms = Inr (ok, m')"
  using Map_result [of n a m perms] by (cases "n = 0 \<or> 2 ^ 64 < unat a + unat n")
    (auto simp: GuestMemory_Map_def no_overflow_iff not_less)

lemma Write_total: "\<exists>ok m'. GuestMemory_Write_vector m a bytes = Inr (ok, m')"
  using Write_ok [of "of_nat (length bytes)" bytes m a] Write_refused [of m a "of_nat (length bytes)" bytes]
    unat_size_le [of "length bytes"]
  unfolding GuestMemory_Write_vector_def by blast

lemma setup_cells_total: "\<exists>m'. setup_cells cells m = Inr m'"
proof (induction cells arbitrary: m)
  case (Cons cell cells)
  let ?p = "if permissions cell = 0 then PermReadWrite else permissions cell"
  obtain ok m1 where "GuestMemory_Map m (cell_address cell) (of_nat (length (cell_bytes cell))) ?p = Inr (ok, m1)"
    using Map_total by blast
  moreover obtain ok' m2 where "GuestMemory_Write_vector m1 (cell_address cell) (cell_bytes cell) = Inr (ok', m2)"
    using Write_total by blast
  ultimately show ?case using Cons.IH [of m2] by (simp add: Let_def)
qed simp

lemma setup_memory_total: "\<exists>m. setup_memory row bytes = Inr m"
proof -
  obtain ok m1 where "GuestMemory_Map new_memory (backend_PageBase (row_address row)) kPageSize
      (PermReadExecute OR PermWrite) = Inr (ok, m1)" using Map_total by blast
  moreover obtain ok' m2 where "GuestMemory_Write_vector m1 (row_address row) bytes = Inr (ok', m2)"
    using Write_total by blast
  ultimately show ?thesis using setup_cells_total [of "initial_memory row" m2] by (simp add: setup_memory_def)
qed

text \<open>The observation loop: what it reads, and that it never fails.\<close>

definition observation :: "GuestMemory \<Rightarrow> MemoryExpectation \<Rightarrow> MemoryExpectation \<Rightarrow> bool" where
  "observation m e obs \<longleftrightarrow> exp_address obs = exp_address e \<and> exp_mask obs = exp_mask e \<and>
     length (exp_bytes obs) = length (exp_bytes e) \<and>
     gm_load m (exp_address e) (length (exp_bytes e)) = Some (exp_bytes obs)"

lemma observe_memory_total: "\<exists>out' m'. observe_memory es m out = Inr (out', m') \<and>
   (last_fault m \<noteq> None \<longrightarrow> last_fault m' = last_fault m)"
proof (induction es arbitrary: m out)
  case (Cons e es)
  let ?n = "length (exp_bytes e)"
  have "unat (of_nat ?n :: u64) \<le> length (replicate ?n (0 :: u8))" using unat_size_le by simp
  then obtain ok bs m1 where "GuestMemory_Read m (exp_address e) (Some (replicate ?n 0)) (of_nat ?n) = Inr (ok, bs, m1)"
    using Read_ok [of "of_nat ?n" "replicate ?n 0" m "exp_address e"]
      Read_refused [of "of_nat ?n" "replicate ?n 0" m "exp_address e"] by blast
  with Read_frame(2) [OF this] Cons.IH [of m1] show ?case
    by (cases "last_fault m") (auto simp: Let_def, metis)
qed simp

lemma observe_memory_ok:
  "observe_memory es m out = Inr (out', m') \<Longrightarrow> last_fault m' = None \<Longrightarrow>
   m' = m \<and> (\<exists>obs. out' = out @ obs \<and> list_all2 (observation m) es obs)"
proof (induction es arbitrary: m out)
  case (Cons e es)
  let ?n = "length (exp_bytes e)"
  have len: "unat (of_nat ?n :: u64) \<le> length (replicate ?n (0 :: u8))" using unat_size_le by simp
  from Cons.prems(1) obtain ok bs m1 where read:
    "GuestMemory_Read m (exp_address e) (Some (replicate ?n 0)) (of_nat ?n) = Inr (ok, bs, m1)"
    "observe_memory es m1 (out @ [\<lparr>exp_address = exp_address e,
       exp_bytes = (case bs of Some bs \<Rightarrow> bs | None \<Rightarrow> []), exp_mask = exp_mask e\<rparr>]) = Inr (out', m')"
    by (auto simp: Let_def res_simps)
  from Cons.IH [OF read(2) Cons.prems(2)] Cons.prems(2) have "last_fault m1 = None" by auto
  with Read_refused [OF len, of m "exp_address e"] read(1) have "access_ok PermRead m (exp_address e) (of_nat ?n)"
    by auto
  from Read_ok [OF len this] read(1) have read_ok: "ok" "m1 = m"
    "bs = Some (abs_load (gm_abs m) (exp_address e) (unat (of_nat ?n :: u64)) @ drop (unat (of_nat ?n :: u64)) (replicate ?n 0))"
    by auto
  then have "observation m e \<lparr>exp_address = exp_address e, exp_bytes = (case bs of Some bs \<Rightarrow> bs | None \<Rightarrow> []),
      exp_mask = exp_mask e\<rparr>"
    using read(1) len by (simp add: observation_def gm_load_def)
  with Cons.IH [OF read(2) Cons.prems(2)] read_ok(2) show ?case by auto
qed simp

section \<open>What a run does\<close>

text \<open>
  Compiled code reaches the memory through the intrinsics only: an assumption about Remill's
  lifting, named wherever a property needs it.
\<close>

definition confined :: "LiftedFunction \<Rightarrow> bool" where
  "confined f \<longleftrightarrow> (\<forall>s a m s' m'. f s a m = Inr (s', m') \<longrightarrow> intrinsic_step\<^sup>*\<^sup>* m m')"

lemma confined_sticky:
  assumes "confined f" "f s a m = Inr (s', m')" "last_fault m = Some x"
  shows "last_fault m' = Some x"
proof -
  from assms(1,2) have "intrinsic_step\<^sup>*\<^sup>* m m'" by (auto simp: confined_def)
  then have "safe_step m m'"
    by (induction rule: rtranclp_induct) (auto dest: intrinsic_step_safe intro: safe_step_trans)
  with assms(3) show ?thesis by (simp add: safe_step_def)
qed

text \<open>The stages of an execution that reaches the compiled code.\<close>

definition started :: "nat \<Rightarrow> State \<Rightarrow> ExpectationRow \<Rightarrow> State \<Rightarrow> GuestMemory \<Rightarrow> bool" where
  "started nvec stack row s m \<longleftrightarrow> (\<exists>error s' error' bytes.
     ApplyInitialState nvec (ResetState stack) (initial_state row) (initial_bytes row) error = (True, s', error') \<and>
     s = default_rip row s' \<and> ParseHexBytes (row_opcode row) = Inr bytes \<and> setup_memory row bytes = Inr m)"

lemma execute_row_cases:
  assumes "execute_row nvec stack f row keys error result = Inr r"
  obtains (not_applied) "outcome_class r = Unsupported"
    | (faulted) s m s1 m1 m2 fault out where "started nvec stack row s m" "f s (row_address row) m = Inr (s1, m1)"
        "last_fault (m2 :: GuestMemory) = Some fault" "last_fault m1 \<noteq> None \<longrightarrow> last_fault m1 = last_fault m2"
        "r = classify_fault row (Some fault) (result\<lparr>final_memory := out\<rparr>)"
    | (normal) s m s1 m1 out where "started nvec stack row s m" "f s (row_address row) m = Inr (s1, m1)"
        "last_fault m1 = None" "list_all2 (observation m1) (expected_memory row) out"
        "r = result\<lparr>final_memory := out, outcome_class := Normal, final_state := SnapshotState s1 keys,
           final_bytes := SnapshotBytes nvec s1 (map fst (expected_final_bytes row))\<rparr>"
proof -
  obtain ok s error' where app: "ApplyInitialState nvec (ResetState stack) (initial_state row) (initial_bytes row)
      (Some error) = (ok, s, error')" by (metis prod_cases3)
  show ?thesis
  proof (cases ok)
    case False
    with assms app show ?thesis by (intro not_applied) (auto simp: execute_row_def)
  next
    case True
    with assms app obtain bytes m s1 m1 out m2 where run: "ParseHexBytes (row_opcode row) = Inr bytes"
      "setup_memory row bytes = Inr m" "f (default_rip row s) (row_address row) m = Inr (s1, m1)"
      "(if GuestMemory_ok m1 then observe_memory (expected_memory row) m1 [] else Inr ([], m1)) = Inr (out, m2)"
      "r = (if \<not> GuestMemory_ok m2 then classify_fault row (last_fault m2) (result\<lparr>final_memory := out\<rparr>)
            else result\<lparr>final_memory := out, outcome_class := Normal, final_state := SnapshotState s1 keys,
           final_bytes := SnapshotBytes nvec s1 (map fst (expected_final_bytes row))\<rparr>)"
      by (auto simp: execute_row_def Let_def res_simps)
    have start: "started nvec stack row (default_rip row s) m"
      using app True run(1,2) by (auto simp: started_def)
    show ?thesis
    proof (cases "last_fault m2")
      case None
      with run(4) have "observe_memory (expected_memory row) m1 [] = Inr (out, m2)"
        by (auto simp: GuestMemory_ok_def split: if_splits)
      from observe_memory_ok [OF this None] run(5) None start run(3) show ?thesis
        by (intro normal [of "default_rip row s" m s1 m1 out]) (auto simp: GuestMemory_ok_def)
    next
      case (Some fault)
      with run(4,5) start run(3) show ?thesis
        by (intro faulted [of "default_rip row s" m s1 m1 m2 fault out])
           (auto simp: GuestMemory_ok_def split: if_splits)
    qed
  qed
qed

lemma execute_row_Inl:
  assumes "execute_row nvec stack f row keys error result = Inl x"
  shows "ParseHexBytes (row_opcode row) = Inl x \<or> (\<exists>s m. f s (row_address row) m = Inl x)"
proof -
  have "setup_memory row bytes \<noteq> Inl x" for bytes using setup_memory_total [of row bytes] by auto
  moreover have "observe_memory es m out \<noteq> Inl x" for es m out
    using observe_memory_total [of es m out] by auto
  ultimately show ?thesis
    using assms by (auto simp: execute_row_def Let_def res_simps split: prod.splits if_splits)
qed

lemma RunCase_cases:
  assumes inv: "backend_inv n b" and result: "RunCase lib nvec stack b row keys = Inr (r, b')"
  obtains (not_compiled) "outcome_class r \<in> {Unsupported, BackendError}" "keeps n b (Suc n) b'"
    | (executed) i f error where "map_of (cache b') (DecodeKey row) = Some i" "ci_function i = Some f"
        "execute_row nvec stack f row keys error default_result = Inr r" "keeps n b (Suc n) b'"
proof (cases "SupportsCase row")
  case False
  with result inv show ?thesis
    by (intro not_compiled) (auto simp: RunCase_def Let_def keeps_def backend_inv_mono)
next
  case supported: True
  obtain ok e1 b1 where init: "EnsureInitialized lib b [] = (ok, e1, b1)" by (metis prod_cases3)
  from EnsureInitialized_tables [OF this] keeps_same [OF inv] have k1: "keeps n b n b1" by blast
  then have inv1: "backend_inv n b1" by (simp add: keeps_def)
  show ?thesis
  proof (cases ok)
    case False
    with supported init result k1 show ?thesis
      by (intro not_compiled) (auto simp: RunCase_def Let_def keeps_def backend_inv_mono)
  next
    case True
    with supported init result obtain c e2 b2 where comp: "Compile lib b1 row e1 = Inr (c, e2, b2)"
      by (auto simp: RunCase_def Let_def res_simps)
    note keep = keeps_trans [OF k1 Compile_keeps(1) [OF inv1 comp]]
    show ?thesis
    proof (cases c)
      case None
      with supported True init comp result keep show ?thesis
        by (intro not_compiled) (auto simp: RunCase_def Let_def split: if_splits)
    next
      case (Some key)
      with Compile_keeps(2) [OF inv1 comp] obtain i f where i: "key = DecodeKey row"
        "map_of (cache b2) key = Some i" "ci_function i = Some f" by blast
      with Some supported True init comp result have
        "execute_row nvec stack f row keys e2 default_result = Inr r" "b' = b2"
        by (auto simp: RunCase_def Let_def deref_def res_simps)
      with i keep show ?thesis by (intro executed [of i f e2]) simp_all
    qed
  qed
qed

lemma RunCase_Inl:
  assumes inv: "backend_inv n b" and result: "RunCase lib nvec stack b row keys = Inl x"
  shows "ParseHexBytes (row_opcode row) = Inl x \<or> (\<exists>e1 b1 e2 b2 i f s m.
    EnsureInitialized lib b [] = (True, e1, b1) \<and> Compile lib b1 row e1 = Inr (Some (DecodeKey row), e2, b2) \<and>
    map_of (cache b2) (DecodeKey row) = Some i \<and> ci_function i = Some f \<and> f s (row_address row) m = Inl x)"
proof -
  obtain ok e1 b1 where init: "EnsureInitialized lib b [] = (ok, e1, b1)" by (metis prod_cases3)
  from EnsureInitialized_tables [OF this] inv have inv1: "backend_inv n b1" using same_tables_inv by blast
  from result have supported: "SupportsCase row" by (auto simp: RunCase_def Let_def split: if_splits)
  with result init have ok by (auto simp: RunCase_def Let_def split: if_splits)
  note run = result [unfolded RunCase_def Let_def init prod.case]
  show ?thesis
  proof (cases "Compile lib b1 row e1")
    case (Inl y)
    with run supported \<open>ok\<close> have "y = x" by simp
    with Compile_Inl [OF inv1 Inl] show ?thesis by simp
  next
    case (Inr answer)
    obtain c e2 b2 where c: "answer = (c, e2, b2)" by (metis prod_cases3)
    with run supported \<open>ok\<close> Inr obtain key where key: "c = Some key" by (cases c) auto
    from Compile_keeps(2) [OF inv1 Inr [unfolded c]] key obtain i f where
      i: "key = DecodeKey row" "map_of (cache b2) key = Some i" "ci_function i = Some f" by blast
    with run supported \<open>ok\<close> Inr c key have "execute_row nvec stack f row keys e2 default_result = Inl x"
      by (simp add: deref_def res_bind_Inl)
    from execute_row_Inl [OF this] show ?thesis using i init Inr c key \<open>ok\<close> by auto
  qed
qed

section \<open>Reachable backends\<close>

text \<open>\<open>backend_runs lib b n b'\<close>: \<open>b'\<close> is what calls on at most \<open>n\<close> rows make of \<open>b\<close>.\<close>

inductive backend_runs ::
  "('b, 'i, 'w, 'x) RemillLib_scheme \<Rightarrow> ('b, 'w) RemillBackend \<Rightarrow> nat \<Rightarrow> ('b, 'w) RemillBackend \<Rightarrow> bool" for lib b where
  runs_none: "backend_runs lib b 0 b"
| runs_prepare: "backend_runs lib b n b' \<Longrightarrow> PrepareCases lib b' rows error = Inr (ok, error', b'') \<Longrightarrow>
    backend_runs lib b (n + length rows) b''"
| runs_row: "backend_runs lib b n b' \<Longrightarrow> RunCase lib nvec stack b' row keys = Inr (r, b'') \<Longrightarrow>
    backend_runs lib b (Suc n) b''"

lemma RunCase_keeps:
  assumes "backend_inv n b" "RunCase lib nvec stack b row keys = Inr (r, b')"
  shows "keeps n b (Suc n) b'"
  by (cases rule: RunCase_cases [OF assms])

lemma backend_runs_keeps:
  assumes "backend_runs lib b n b'" "backend_inv m b"
  shows "keeps m b (m + n) b'"
  using assms(1)
proof (induction rule: backend_runs.induct)
  case runs_none
  with assms(2) show ?case by (simp add: keeps_refl)
next
  case (runs_prepare n b' rows error ok error' b'')
  then have "backend_inv (m + n) b'" by (simp add: keeps_def)
  from keeps_trans [OF runs_prepare.IH PrepareCases_keeps [OF this runs_prepare.hyps(2)]]
  show ?case by (simp add: add.assoc)
next
  case (runs_row n b' nvec stack row keys r b'')
  then have "backend_inv (m + n) b'" by (simp add: keeps_def)
  from keeps_trans [OF runs_row.IH RunCase_keeps [OF this runs_row.hyps(2)]]
  show ?case by simp
qed

lemma backend_runs_inv: "backend_runs lib (new_backend w) n b \<Longrightarrow> backend_inv n b"
  using backend_runs_keeps [of lib "new_backend w" n b 0] by (simp add: keeps_def)

text \<open>
  C7. The tables of every reachable backend are consistent: a key is never both compiled and
  failed; every pointer that waits for the JIT is an object of the cache; an object belongs to
  the rows of exactly one address and opcode; and as long as no more than \<open>2 ^ 64\<close> rows were
  handled two objects never share a function name, so that a lookup in the JIT cannot return the
  code of another row.
\<close>

theorem backend_tables_consistent:
  assumes "backend_runs lib (new_backend w) n b"
  shows "dom (map_of (cache b)) \<inter> dom (map_of (failed_compile_cache b)) = {} \<and>
    set (pending_compiled b) \<subseteq> dom (map_of (cache b)) \<and>
    (DecodeKey r = DecodeKey r' \<longleftrightarrow> row_address r = row_address r' \<and> row_opcode r = row_opcode r') \<and>
    (n \<le> 2 ^ 64 \<longrightarrow> map_of (cache b) k = Some c \<longrightarrow> map_of (cache b) k' = Some c' \<longrightarrow> k \<noteq> k' \<longrightarrow>
      ci_name c \<noteq> ci_name c')"
proof -
  note inv = backend_runs_inv [OF assms, unfolded backend_inv_def names_ok_def]
  then obtain N ids where ids: "N \<le> n" "inj_on ids (dom (map_of (cache b)))"
    "\<And>k c. map_of (cache b) k = Some c \<Longrightarrow>
        ids k < N \<and> (\<exists>row. DecodeKey row = k \<and> ci_name c = FunctionName (of_nat (ids k)) row)"
    by blast
  have "ci_name c \<noteq> ci_name c'"
    if "n \<le> 2 ^ 64" "map_of (cache b) k = Some c" "map_of (cache b) k' = Some c'" "k \<noteq> k'"
  proof -
    have "ids k \<noteq> ids k'" using inj_onD [OF ids(2), of k k'] that(2-4) by blast
    moreover have "ids k < 2 ^ 64" "ids k' < 2 ^ 64" using ids(1) ids(3) [OF that(2)] ids(3) [OF that(3)] that(1) by auto
    ultimately have "(of_nat (ids k) :: u64) \<noteq> of_nat (ids k')"
      using unat_of_nat_small [where 'a = 64, of "ids k"] unat_of_nat_small [where 'a = 64, of "ids k'"] by auto
    with ids(3) [OF that(2)] ids(3) [OF that(3)] show ?thesis by (auto simp: FunctionName_inject)
  qed
  with inv show ?thesis by (simp add: DecodeKey_inject)
qed


text \<open>
  C13. Neither preparing a batch nor running a row has undefined behaviour of its own: no null or
  dangling pointer is followed, no copy leaves a page or a buffer and no loop runs forever. The
  only ways to leave other than with a result are the exception for an opcode that is not a
  hexadecimal text, and compiled code that does not return.
\<close>

theorem backend_failures:
  assumes "backend_runs lib (new_backend w) n b"
  shows "(case PrepareCases lib b rows error of Inr _ \<Rightarrow> True
      | Inl x \<Rightarrow> \<exists>row. Some row \<in> set rows \<and> ParseHexBytes (row_opcode row) = Inl x) \<and>
    (case RunCase lib nvec stack b row keys of Inr _ \<Rightarrow> True
      | Inl x \<Rightarrow> ParseHexBytes (row_opcode row) = Inl x \<or> (\<exists>e1 b1 e2 b2 i f s m.
          EnsureInitialized lib b [] = (True, e1, b1) \<and> Compile lib b1 row e1 = Inr (Some (DecodeKey row), e2, b2) \<and>
          map_of (cache b2) (DecodeKey row) = Some i \<and> ci_function i = Some f \<and> f s (row_address row) m = Inl x))"
proof -
  note inv = backend_runs_inv [OF assms]
  have "\<exists>row. Some row \<in> set rows \<and> ParseHexBytes (row_opcode row) = Inl x"
    if "PrepareCases lib b rows error = Inl x" for x
    by (rule PrepareCases_Inl [OF inv that])
  moreover note RunCase_Inl [OF inv, of lib nvec stack row keys]
  ultimately show ?thesis
    by (cases "PrepareCases lib b rows error"; cases "RunCase lib nvec stack b row keys") simp_all
qed

lemma RunCase_normal:
  assumes "backend_runs lib (new_backend w) n b"
    and "RunCase lib nvec stack b row keys = Inr (r, b')" "outcome_class r = Normal"
  shows "\<exists>i f s m s1 m1. map_of (cache b') (DecodeKey row) = Some i \<and> ci_function i = Some f \<and>
    started nvec stack row s m \<and> f s (row_address row) m = Inr (s1, m1) \<and> last_fault m1 = None \<and>
    (confined f \<longrightarrow> last_fault m = None) \<and>
    final_state r = SnapshotState s1 keys \<and>
    final_bytes r = SnapshotBytes nvec s1 (map fst (expected_final_bytes row)) \<and>
    list_all2 (observation m1) (expected_memory row) (final_memory r)"
proof (cases rule: RunCase_cases [OF backend_runs_inv [OF assms(1)] assms(2)])
  case 1
  with assms(3) show ?thesis by auto
next
  case (2 i f error)
  note executed = this
  from executed(3) show ?thesis
  proof (cases rule: execute_row_cases)
    case not_applied
    with assms(3) show ?thesis by simp
  next
    case (faulted s m s1 m1 m2 fault out)
    with assms(3) show ?thesis by (simp add: classify_fault_def Let_def split: if_splits)
  next
    case (normal s m s1 m1 out)
    have "last_fault m = None" if "confined f"
      using confined_sticky [OF that normal(2)] normal(3) by (cases "last_fault m") auto
    with executed normal show ?thesis
      by (intro exI [of _ i] exI [of _ f] exI [of _ s] exI [of _ m] exI [of _ s1] exI [of _ m1]) simp
  qed
qed

text \<open>
  C10. A normal outcome is a faultless execution, reported faithfully: the row's registers were
  accepted, its memory was set up, the code compiled for its address and opcode ran on them to
  an end without a recorded fault, the reported registers are those of the final state, and the
  reported memory is what every expected address holds in the final memory, read with
  permission. When the code is confined to the intrinsics, the setup was faultless too.
\<close>

theorem normal_run_is_faultless:
  assumes "backend_runs lib (new_backend w) n b"
    and "RunCase lib nvec stack b row keys = Inr (r, b')" "outcome_class r = Normal"
  shows "\<exists>i f s m s1 m1. map_of (cache b') (DecodeKey row) = Some i \<and> ci_function i = Some f \<and>
    started nvec stack row s m \<and> f s (row_address row) m = Inr (s1, m1) \<and> last_fault m1 = None \<and>
    (confined f \<longrightarrow> last_fault m = None) \<and>
    final_state r = SnapshotState s1 keys \<and>
    final_bytes r = SnapshotBytes nvec s1 (map fst (expected_final_bytes row)) \<and>
    list_all2 (observation m1) (expected_memory row) (final_memory r)"
  by (rule RunCase_normal [OF assms])

section \<open>The memory a row starts with\<close>

definition cell_permissions :: "MemoryCell \<Rightarrow> u8" where
  "cell_permissions cell = (if permissions cell = 0 then PermReadWrite else permissions cell)"

text \<open>A cell that its own permissions let be written, and that does not wrap.\<close>

definition writable_cell :: "MemoryCell \<Rightarrow> bool" where
  "writable_cell cell \<longleftrightarrow> cell_permissions cell AND PermWrite = PermWrite \<and>
     length (cell_bytes cell) < 2 ^ 64 \<and> unat (cell_address cell) + length (cell_bytes cell) \<le> 2 ^ 64"

text \<open>What a row means by its memory: its cells in order over its opcode in a page of its own.\<close>

definition abs_cell :: "MemoryCell \<Rightarrow> (u64 \<rightharpoonup> u8 \<times> u8) \<Rightarrow> (u64 \<rightharpoonup> u8 \<times> u8)" where
  "abs_cell cell f = (let n = length (cell_bytes cell) in
     if n = 0 then f
     else abs_store (cell_address cell) n (cell_bytes cell)
            (abs_map (cell_address cell) (of_nat n) (cell_permissions cell) f))"

definition code_page :: "u64 \<Rightarrow> (u64 \<rightharpoonup> u8 \<times> u8)" where
  "code_page address = (\<lambda>x. if PageBase x = PageBase address then Some (PermAll, 0) else None)"

lemma abs_map_accessible:
  assumes "unat a + n \<le> 2 ^ 64" "n < 2 ^ 64" "i < n" "gm_abs m' = abs_map a (of_nat n) perms f"
    "perms AND perm = perm"
  shows "accessible perm m' (a + of_nat i)"
proof -
  have i: "unat (a + of_nat i) = unat a + i"
    using assms(1-3) by (simp add: unat_word_ariths unat_of_nat)
  obtain k where k: "n = Suc k" using assms(3) by (cases n) auto
  then have "a + of_nat n - 1 = a + of_nat k" by simp
  moreover have "unat (a + of_nat k) = unat a + k"
    using assms(1,2) k by (simp add: unat_word_ariths unat_of_nat)
  ultimately have "a + of_nat i \<le> a + of_nat n - 1" "a \<le> a + of_nat i"
    using i assms(3) k by (simp_all only: word_le_nat_alt)
  note this [THEN PageBase_mono]
  with assms(4,5) show ?thesis by (simp add: accessible_abs abs_map_def)
qed

lemma map_then_write:
  assumes "length bytes < 2 ^ 64" "unat a + length bytes \<le> 2 ^ 64" "perms AND PermWrite = PermWrite"
    and "length bytes \<noteq> 0"
  shows "\<exists>m1 m2. GuestMemory_Map m a (of_nat (length bytes)) perms = Inr (True, m1) \<and>
    GuestMemory_Write_vector m1 a bytes = Inr (True, m2) \<and> last_fault m2 = last_fault m \<and>
    gm_abs m2 = abs_store a (length bytes) bytes (abs_map a (of_nat (length bytes)) perms (gm_abs m))"
proof -
  let ?n = "of_nat (length bytes) :: u64"
  have n: "unat ?n = length bytes" using assms(1) by (simp add: unat_of_nat_small)
  with assms(4) have "?n \<noteq> 0" by (metis unat_0)
  with Map_result [of ?n a m perms] assms(2) n obtain m1 where m1:
    "GuestMemory_Map m a ?n perms = Inr (True, m1)" "last_fault m1 = last_fault m"
    "gm_abs m1 = abs_map a ?n perms (gm_abs m)" by auto
  have "access_ok PermWrite m1 a ?n"
    using abs_map_accessible [OF assms(2,1) _ m1(3) assms(3)] assms(2) n by (simp add: access_ok_def)
  from Write_ok [OF _ this, of bytes] n m1 show ?thesis
    by (auto simp: GuestMemory_Write_vector_def)
qed

lemma setup_cells_spec:
  "list_all writable_cell cells \<Longrightarrow> \<exists>m'. setup_cells cells m = Inr m' \<and> last_fault m' = last_fault m \<and>
     gm_abs m' = fold abs_cell cells (gm_abs m)"
proof (induction cells arbitrary: m)
  case (Cons cell cells)
  then have cell: "writable_cell cell" "list_all writable_cell cells" by simp_all
  show ?case
  proof (cases "length (cell_bytes cell) = 0")
    case True
    then have "setup_cells (cell # cells) m = setup_cells cells m"
      by (simp add: GuestMemory_Map_def GuestMemory_Write_vector_def GuestMemory_Write_def Let_def)
    with Cons.IH [OF cell(2), of m] True show ?thesis by (simp add: abs_cell_def)
  next
    case False
    from cell(1) map_then_write [OF _ _ _ False, of "cell_address cell" "cell_permissions cell" m]
    obtain m1 m2 where "GuestMemory_Map m (cell_address cell) (of_nat (length (cell_bytes cell)))
        (cell_permissions cell) = Inr (True, m1)"
      "GuestMemory_Write_vector m1 (cell_address cell) (cell_bytes cell) = Inr (True, m2)"
      "last_fault m2 = last_fault m" "gm_abs m2 = abs_cell cell (gm_abs m)"
      using False by (auto simp: writable_cell_def abs_cell_def Let_def)
    with Cons.IH [OF cell(2), of m2] show ?thesis by (simp add: Let_def cell_permissions_def)
  qed
qed simp

lemma code_page_mapped:
  "\<exists>m1. GuestMemory_Map new_memory (backend_PageBase a) kPageSize (PermReadExecute OR PermWrite) = Inr (True, m1) \<and>
     last_fault m1 = None \<and> gm_abs m1 = code_page a"
proof -
  have base: "backend_PageBase a = PageBase a" by (simp add: backend_PageBase_def PageBase_def)
  have "4096 dvd unat (PageBase a)" using aligned_iff [of "PageBase a"] by simp
  moreover have "unat (PageBase a) < 2 ^ 64" using unsigned_less [of "PageBase a", where ?'a = nat] by simp
  ultimately have fits: "unat (PageBase a) + unat kPageSize \<le> 2 ^ 64" by (auto simp: unat_kPageSize elim!: dvdE)
  have "kPageSize \<noteq> 0" by (simp add: kPageSize_def)
  from Map_result [OF this fits, of new_memory "PermReadExecute OR PermWrite"] obtain m1 where m1:
    "GuestMemory_Map new_memory (PageBase a) kPageSize (PermReadExecute OR PermWrite) = Inr (True, m1)"
    "last_fault m1 = last_fault new_memory"
    "gm_abs m1 = abs_map (PageBase a) kPageSize (PermReadExecute OR PermWrite) (gm_abs new_memory)" by blast
  have "PageBase a + kPageSize - 1 = PageBase a + of_nat 4095" by (simp add: kPageSize_def)
  moreover have "unat (PageBase a) mod 4096 = 0" using aligned_iff [of "PageBase a"] by auto
  then have "PageBase (PageBase a + of_nat 4095) = PageBase a"
    using page_of_in_page(1) [of "PageBase a" 4095] by simp
  ultimately have "PageBase (PageBase a + kPageSize - 1) = PageBase a" by (simp only:)
  moreover have "PermReadExecute OR PermWrite = PermAll" by (simp add: perm_defs)
  moreover have "gm_abs new_memory x = None" for x by (simp add: gm_abs_def new_memory_def FindPage_def)
  ultimately have "gm_abs m1 = code_page a"
    using m1(3) by (auto simp: fun_eq_iff abs_map_def code_page_def)
  with m1(1,2) show ?thesis by (auto simp: base new_memory_def)
qed

lemma setup_memory_spec:
  assumes "unat (row_address row) mod 4096 + length bytes \<le> 4096" "list_all writable_cell (initial_memory row)"
  shows "\<exists>m. setup_memory row bytes = Inr m \<and> last_fault m = None \<and>
    gm_abs m = fold abs_cell (initial_memory row)
      (abs_store (row_address row) (length bytes) bytes (code_page (row_address row)))"
proof -
  let ?a = "row_address row" and ?n = "of_nat (length bytes) :: u64"
  obtain m1 where m1: "GuestMemory_Map new_memory (backend_PageBase ?a) kPageSize (PermReadExecute OR PermWrite) = Inr (True, m1)"
    "last_fault m1 = None" "gm_abs m1 = code_page ?a" using code_page_mapped by blast
  have n: "unat ?n = length bytes" using assms(1) by (simp add: unat_of_nat_small)
  have "PermAll AND PermWrite = PermWrite" by (simp add: perm_defs)
  then have "accessible PermWrite m1 (?a + of_nat i)" if "i < length bytes" for i
    using that assms(1) page_of_in_page(1) [of ?a i] by (simp add: accessible_abs m1(3) code_page_def)
  moreover have "unat ?a + length bytes \<le> 2 ^ 64"
  proof (cases "length bytes")
    case (Suc k)
    with assms(1) unat_in_page [of ?a k] unsigned_less [of "?a + of_nat k", where ?'a = nat] show ?thesis by simp
  qed (use unsigned_less [of ?a, where ?'a = nat] in simp)
  ultimately have "access_ok PermWrite m1 ?a ?n" using n by (simp add: access_ok_def)
  from Write_ok [OF _ this, of bytes] n obtain m2 where m2: "GuestMemory_Write_vector m1 ?a bytes = Inr (True, m2)"
    "last_fault m2 = last_fault m1" "gm_abs m2 = abs_store ?a (length bytes) bytes (gm_abs m1)"
    by (auto simp: GuestMemory_Write_vector_def)
  from setup_cells_spec [OF assms(2), of m2] m1 m2 show ?thesis
    by (auto simp: setup_memory_def)
qed

text \<open>
  C22. The memory a row starts with is the one it describes: when the opcode lies within one page
  and no cell wraps or forbids its own initialisation, the setup records no fault and leaves
  exactly a page of zeroes with the opcode in it, overlaid by the cells in their order with their
  permissions; every other address stays unmapped.
\<close>

theorem setup_memory_refines:
  assumes "unat (row_address row) mod 4096 + length bytes \<le> 4096" "list_all writable_cell (initial_memory row)"
  shows "\<exists>m. setup_memory row bytes = Inr m \<and> last_fault m = None \<and>
    gm_abs m = fold abs_cell (initial_memory row)
      (abs_store (row_address row) (length bytes) bytes (code_page (row_address row)))"
  by (rule setup_memory_spec [OF assms])

section \<open>An opcode across a page end\<close>

lemma setup_cells_sticky:
  "setup_cells cells m = Inr m' \<Longrightarrow> last_fault m = Some f \<Longrightarrow> last_fault m' = Some f"
proof (induction cells arbitrary: m)
  case (Cons cell cells)
  then show ?case
    by (auto simp: Let_def res_simps GuestMemory_Write_vector_def dest: Map_sticky Write_frame(2))
qed simp

lemma crossing_opcode_fault:
  assumes "4096 < unat (row_address row) mod 4096 + length bytes" "length bytes \<le> 4096"
    and "setup_memory row bytes = Inr m"
  shows "last_fault m \<noteq> None"
proof -
  let ?a = "row_address row" and ?n = "of_nat (length bytes) :: u64"
  obtain m1 where m1: "GuestMemory_Map new_memory (backend_PageBase ?a) kPageSize (PermReadExecute OR PermWrite) = Inr (True, m1)"
    "last_fault m1 = None" "gm_abs m1 = code_page ?a" using code_page_mapped by blast
  have n: "unat ?n = length bytes" using assms(2) by (simp add: unat_of_nat_small)
  define i where "i = 4096 - unat ?a mod 4096"
  have "unat ?a mod 4096 < 4096" by simp
  then have i: "0 < i" "unat ?a mod 4096 + i = 4096" by (simp_all add: i_def)
  with assms(1) have i_less: "i < length bytes" by linarith
  have "\<not> access_ok PermWrite m1 ?a ?n"
  proof
    assume ok: "access_ok PermWrite m1 ?a ?n"
    with n i_less have acc: "accessible PermWrite m1 (?a + of_nat i)" and
      fits: "unat ?a + length bytes \<le> 2 ^ 64" by (auto simp: access_ok_def)
    have "unat (?a + of_nat i) = unat ?a + i"
      using fits i_less by (simp add: unat_word_ariths unat_of_nat)
    moreover have "(unat ?a + i) mod 4096 = 0" using i(2) by (metis mod_add_left_eq mod_self)
    ultimately have "unat (PageBase (?a + of_nat i)) = unat ?a + i" by (simp add: unat_PageBase)
    moreover have "unat (PageBase ?a) \<le> unat ?a" by (simp add: unat_PageBase)
    ultimately have "PageBase (?a + of_nat i) \<noteq> PageBase ?a" using i(1) by auto
    with acc show False by (simp add: accessible_abs m1(3) code_page_def)
  qed
  from Write_refused [OF this, of bytes] obtain m2 f where m2: "GuestMemory_Write_vector m1 ?a bytes = Inr (False, m2)"
    "last_fault m2 = Some f" by (auto simp: GuestMemory_Write_vector_def)
  with assms(3) m1(1) setup_cells_sticky [of "initial_memory row" m2 m f] show ?thesis
    by (simp add: setup_memory_def)
qed

text \<open>
  C40. A row whose opcode crosses the end of its page cannot execute normally, whatever the
  instruction does: only the first page of the code is mapped, so copying the opcode records a
  fault that the run cannot lose.
\<close>

theorem crossing_opcode_never_normal:
  assumes "backend_runs lib (new_backend w) n b" "RunCase lib nvec stack b row keys = Inr (r, b')"
    and "ParseHexBytes (row_opcode row) = Inr bytes" "length bytes \<le> 4096"
    and "4096 < unat (row_address row) mod 4096 + length bytes"
    and "\<And>i f. map_of (cache b') (DecodeKey row) = Some i \<Longrightarrow> ci_function i = Some f \<Longrightarrow> confined f"
  shows "outcome_class r \<noteq> Normal"
proof (cases rule: RunCase_cases [OF backend_runs_inv [OF assms(1)] assms(2)])
  case 1
  then show ?thesis by auto
next
  case (2 i f error)
  from 2(3) show ?thesis
  proof (cases rule: execute_row_cases)
    case (faulted s m s1 m1 m2 fault out)
    then show ?thesis by (simp add: classify_fault_def Let_def)
  next
    case (normal s m s1 m1 out)
    from normal(1) assms(3) have "setup_memory row bytes = Inr m" by (auto simp: started_def)
    from crossing_opcode_fault [OF assms(5,4) this] obtain x where "last_fault m = Some x" by auto
    with confined_sticky [OF assms(6) [OF 2(1,2)] normal(2)] normal(3) show ?thesis by simp
  qed simp
qed

section \<open>A batch that the JIT refuses\<close>

text \<open>
  When handing over a batch fails, its rows stay in the cache without code, and nothing compiles
  them again: each is then refused with an empty message, not with the error of the JIT.
\<close>

lemma refused_batch_orphans_rows:
  assumes "backend_inv n b" "FinalizePendingModule lib b error = Inr (ok, e, b')"
    and "map_of (cache b') (DecodeKey row) = Some i" "ci_function i = None"
  shows "Compile lib b' row [] = Inr (None, [], b')"
proof -
  from FinalizePendingModule_keeps [OF assms(1), of lib error] assms(2) have "pending_module b' = None" by auto
  with assms(3,4) show ?thesis
    by (simp add: Compile_def Let_def finalize_and_check_def FinalizePendingModule_def deref_def)
qed

section \<open>Witnesses\<close>

text \<open>A library whose compiled code complements RAX, and a row of it that crosses a page end.\<close>

definition demo_code :: LiftedFunction where
  "demo_code s address m = Inr (s\<lparr>gpr := (gpr s)(RAX := NOT (gpr s RAX))\<rparr>, m)"

definition demo_lib :: "(unit, unit, nat) RemillLib" where
  "demo_lib = \<lparr>lib_process_init = id, lib_context = Pair True, lib_arch_get = Pair True, lib_detect_host = Pair None,
     lib_create_jit = Pair None, lib_mangle = (\<lambda>_. id), lib_define_symbols = (\<lambda>_. Pair None),
     lib_add_generator = Pair None,
     lib_load_semantics = (\<lambda>w. (Some \<lparr>module_functions = [], module_globals = [], module_aliases = []\<rparr>, w + 1)),
     lib_set_target = (\<lambda>_. id), lib_intrinsic_table = (\<lambda>_. Some 3), lib_arch_intrinsics = (\<lambda>_. Some (Some 3)),
     lib_kPCArgNum = 1, lib_decode_instruction = (\<lambda>w a bytes. if bytes = [0x06] then None else Some ()),
     lib_define_function = (\<lambda>name module. (length (module_functions module), module\<lparr>module_functions :=
       (length (module_functions module), \<lparr>val_name = name, val_linkage = ExternalLinkage, val_body = None\<rparr>) #
         module_functions module\<rparr>)),
     lib_lift = (\<lambda>w i p. Pair True), lib_create_ret = (\<lambda>_. id), lib_global_dce = id,
     lib_add_module = (\<lambda>_. Pair None), lib_lookup = (\<lambda>name. Pair (Inr (Some demo_code)))\<rparr>"

definition demo_backend_row :: ExpectationRow where
  "demo_backend_row = default_row\<lparr>row_address := 0x1000, row_opcode := ''48F7D0'',
     initial_state := [(''rax'', 1)],
     initial_memory := [\<lparr>cell_address = 0x2000, cell_bytes = [7, 8], permissions = 0\<rparr>],
     expected_memory := [\<lparr>exp_address = 0x2000, exp_bytes = [7, 9], exp_mask = [0xFF, 0]\<rparr>]\<rparr>"

lemma demo_confined: "confined demo_code"
  by (simp add: confined_def demo_code_def)


lemma demo_bytes: "ParseHexBytes ''48F7D0'' = Inr [0x48, 0xF7, 0xD0]"
  by code_simp

lemma demo_key: "DecodeKey demo_backend_row = ''4096#48F7D0''" "FunctionName 0 demo_backend_row = ''lifted_0_48F7D0''"
  by code_simp+

definition demo_state_in :: State where
  "demo_state_in = snd (SetScalarRegister (snd (SetScalarRegister (ResetState demo_state) ''rax'' 1)) ''rip'' 0x1000)"

lemma demo_applied:
  "\<exists>e. ApplyInitialState 32 (ResetState demo_state) [(''rax'', 1)] [] (Some error) =
     (True, snd (SetScalarRegister (ResetState demo_state) ''rax'' 1), e)"
proof -
  have "CanonicalStateKey ''rax'' = ''rax''" "IsScalarRegister ''rax''" by code_simp+
  then show ?thesis by (simp add: ApplyInitialState_def)
qed

lemma demo_rip: "default_rip demo_backend_row (snd (SetScalarRegister (ResetState demo_state) ''rax'' 1)) = demo_state_in"
proof -
  have "GetScalarRegister (snd (SetScalarRegister (ResetState demo_state) ''rax'' 1)) ''rip'' = Some 0" by code_simp
  then show ?thesis by (simp add: default_rip_def demo_state_in_def demo_backend_row_def default_row_def)
qed

lemma demo_setup:
  "\<exists>m. setup_memory demo_backend_row [0x48, 0xF7, 0xD0] = Inr m \<and> last_fault m = None \<and>
     access_ok PermRead m 0x2000 2 \<and> abs_load (gm_abs m) 0x2000 2 = [7, 8]"
proof -
  have "list_all writable_cell (initial_memory demo_backend_row)"
    by (simp add: demo_backend_row_def writable_cell_def cell_permissions_def perm_defs)
  moreover have "unat (row_address demo_backend_row) mod 4096 + length [0x48, 0xF7, 0xD0 :: u8] \<le> 4096"
    by (simp add: demo_backend_row_def)
  ultimately obtain m where m: "setup_memory demo_backend_row [0x48, 0xF7, 0xD0] = Inr m" "last_fault m = None"
    "gm_abs m = fold abs_cell (initial_memory demo_backend_row)
      (abs_store 0x1000 3 [0x48, 0xF7, 0xD0] (code_page 0x1000))"
    using setup_memory_spec [of demo_backend_row "[0x48, 0xF7, 0xD0]"]
    by (auto simp: demo_backend_row_def numeral_3_eq_3)
  have "gm_abs m 0x2000 = Some (PermReadWrite, 7)" "gm_abs m 0x2001 = Some (PermReadWrite, 8)"
    by (simp_all add: m(3) demo_backend_row_def abs_cell_def cell_permissions_def abs_store_def abs_map_def
      code_page_def PageBase_def kPageSize_def)
  then have "accessible PermRead m 0x2000" "accessible PermRead m 0x2001"
    "abs_load (gm_abs m) 0x2000 2 = [7, 8]"
    by (simp_all add: accessible_abs perm_defs abs_load_def numeral_2_eq_2)
  with m(1,2) show ?thesis by (auto simp: access_ok_def all_less_2)
qed

definition demo_ran :: "ExpectationRow \<Rightarrow> (unit, nat) RemillBackend" where
  "demo_ran row = (new_backend 1)\<lparr>initialized := True, next_function_id := 1,
     cache := [(DecodeKey row, \<lparr>ci_name = FunctionName 0 row, ci_function = Some demo_code, ir_function = 0\<rparr>)]\<rparr>"

lemma demo_compiled:
  assumes "row_opcode row = ''48F7D0''"
  shows "RunCase demo_lib 32 stack (new_backend 0) row keys =
    res_bind (execute_row 32 stack demo_code row keys [] default_result) (\<lambda>r. Inr (r, demo_ran row))"
  using assms
  by (simp add: RunCase_def SupportsCase_def EnsureInitialized_def new_backend_def demo_lib_def demo_ran_def
      acquire_arch_def define_intrinsics_def DefineRemillIntrinsicSymbols_def Compile_def
      DefineInPendingModule_def EnsurePendingModule_def demo_bytes usable_table_def Let_def
      finalize_and_check_def FinalizePendingModule_def deref_def ExternalizeSyncHyperCall_def)

lemma demo_run:
  "\<exists>r. RunCase demo_lib 32 demo_state (new_backend 0) demo_backend_row [''rax''] = Inr (r, demo_ran demo_backend_row) \<and>
     outcome_class r = Normal \<and> final_state r = [(''rax'', - 2)]"
proof -
  obtain m where m: "setup_memory demo_backend_row [0x48, 0xF7, 0xD0] = Inr m" "last_fault m = None"
     "access_ok PermRead m 0x2000 2" "abs_load (gm_abs m) 0x2000 2 = [7, 8]" using demo_setup by blast
  have read: "GuestMemory_Read m 0x2000 (Some [0, 0]) 2 = Inr (True, Some [7, 8], m)"
    using Read_ok [of 2 "[0, 0]" m "0x2000"] m(3,4) by simp
  have fields: "row_address demo_backend_row = 0x1000" "row_opcode demo_backend_row = ''48F7D0''"
    "initial_state demo_backend_row = [(''rax'', 1)]" "initial_bytes demo_backend_row = []"
    "expected_memory demo_backend_row = [\<lparr>exp_address = 0x2000, exp_bytes = [7, 9], exp_mask = [0xFF, 0]\<rparr>]"
    by (simp_all add: demo_backend_row_def default_row_def)
  let ?s = "demo_state_in\<lparr>gpr := (gpr demo_state_in)(RAX := NOT (gpr demo_state_in RAX))\<rparr>"
  have snap: "SnapshotState ?s [''rax''] = [(''rax'', - 2)]" by code_simp
  have "\<exists>r. execute_row 32 demo_state demo_code demo_backend_row [''rax''] [] default_result = Inr r \<and>
     outcome_class r = Normal \<and> final_state r = [(''rax'', - 2)]"
    using demo_applied [of "[]"] m(1,2) read snap
    by (auto simp: execute_row_def fields demo_bytes demo_code_def GuestMemory_ok_def demo_rip numeral_2_eq_2)
  then show ?thesis by (auto simp: demo_compiled fields)
qed

lemma demo_runs: "backend_runs demo_lib (new_backend 0) 1 (demo_ran demo_backend_row)"
  using demo_run runs_row [OF runs_none, of demo_lib 32 demo_state "new_backend 0" demo_backend_row "[''rax'']"] by auto

theorem backend_tables_consistent_witness:
  "backend_runs demo_lib (new_backend 0) 1 (demo_ran demo_backend_row) \<and>
   DecodeKey demo_backend_row \<noteq> DecodeKey (demo_backend_row\<lparr>row_address := 0\<rparr>)"
  using backend_tables_consistent [OF demo_runs, of demo_backend_row "demo_backend_row\<lparr>row_address := 0\<rparr>"] demo_runs
  by (simp add: demo_backend_row_def)


theorem backend_failures_witness:
  "case RunCase demo_lib 32 demo_state (new_backend 0) (demo_backend_row\<lparr>row_opcode := ''4''\<rparr>) [] of
     Inr _ \<Rightarrow> True
   | Inl x \<Rightarrow> ParseHexBytes ''4'' = Inl x \<or> (\<exists>e1 b1 e2 b2 i f s m.
       EnsureInitialized demo_lib (new_backend 0) [] = (True, e1, b1) \<and>
       Compile demo_lib b1 (demo_backend_row\<lparr>row_opcode := ''4''\<rparr>) e1 =
         Inr (Some (DecodeKey (demo_backend_row\<lparr>row_opcode := ''4''\<rparr>)), e2, b2) \<and>
       map_of (cache b2) (DecodeKey (demo_backend_row\<lparr>row_opcode := ''4''\<rparr>)) = Some i \<and> ci_function i = Some f \<and>
       f s (row_address demo_backend_row) m = Inl x)"
  using backend_failures [OF runs_none, where row = "demo_backend_row\<lparr>row_opcode := ''4''\<rparr>" and keys = "[]" and
      w = 0 and lib = demo_lib and nvec = 32 and stack = demo_state and rows = "[]" and error = "[]", THEN conjunct2]
  by (simp cong: sum.case_cong split del: if_split)

theorem normal_run_is_faultless_witness:
  "\<exists>r s m s1 m1. RunCase demo_lib 32 demo_state (new_backend 0) demo_backend_row [''rax''] =
       Inr (r, demo_ran demo_backend_row) \<and> started 32 demo_state demo_backend_row s m \<and>
     demo_code s 0x1000 m = Inr (s1, m1) \<and> last_fault m = None \<and> final_state r = SnapshotState s1 [''rax'']"
proof -
  obtain r where r: "RunCase demo_lib 32 demo_state (new_backend 0) demo_backend_row [''rax''] =
      Inr (r, demo_ran demo_backend_row)" "outcome_class r = Normal" using demo_run by blast
  have "row_address demo_backend_row = 0x1000" by (simp add: demo_backend_row_def)
  with normal_run_is_faultless [OF runs_none r] r(1) demo_confined show ?thesis
    by (auto simp: demo_ran_def)
qed

theorem setup_memory_refines_witness:
  "\<exists>m. setup_memory demo_backend_row [0x48, 0xF7, 0xD0] = Inr m \<and> last_fault m = None"
proof -
  have "list_all writable_cell (initial_memory demo_backend_row)"
    by (simp add: demo_backend_row_def writable_cell_def cell_permissions_def perm_defs)
  moreover have "unat (row_address demo_backend_row) mod 4096 + length [0x48, 0xF7, 0xD0 :: u8] \<le> 4096"
    by (simp add: demo_backend_row_def)
  ultimately show ?thesis using setup_memory_refines [of demo_backend_row "[0x48, 0xF7, 0xD0]"] by blast
qed

theorem crossing_opcode_never_normal_witness:
  "\<exists>r b. RunCase demo_lib 32 demo_state (new_backend 0) (demo_backend_row\<lparr>row_address := 0x1FFE\<rparr>) [] = Inr (r, b) \<and>
     outcome_class r \<noteq> Normal"
proof -
  let ?row = "demo_backend_row\<lparr>row_address := 0x1FFE\<rparr>"
  have opcode: "row_opcode ?row = ''48F7D0''" by (simp add: demo_backend_row_def)
  have "\<exists>r. execute_row 32 demo_state demo_code ?row [] [] default_result = Inr r"
  proof (cases "execute_row 32 demo_state demo_code ?row [] [] default_result")
    case (Inl x)
    from execute_row_Inl [OF this] opcode demo_bytes show ?thesis by (simp add: demo_code_def)
  qed simp
  then obtain r where r: "RunCase demo_lib 32 demo_state (new_backend 0) ?row [] = Inr (r, demo_ran ?row)"
    using demo_compiled [OF opcode] by auto
  have "confined f" if "map_of (cache (demo_ran ?row)) (DecodeKey ?row) = Some i" "ci_function i = Some f" for i f
    using that demo_confined by (auto simp: demo_ran_def)
  with crossing_opcode_never_normal [OF runs_none r, of "[0x48, 0xF7, 0xD0]"] opcode demo_bytes r
  show ?thesis by auto
qed

end
