(* ===== verification/Report.thy ===== *)
theory Report
  imports Skip_Rules Backend
begin

text \<open>
  The texts that \<^verbatim>\<open>src/src/tester_main.cpp\<close> writes: JSON Lines records of skips and
  mismatches, the metadata line of an instruction and the usage. A stream is the text written
  to it so far; a null stream pointer is \<open>None\<close>.
\<close>

section \<open>JSON records\<close>

definition json_char :: "char \<Rightarrow> string" where
  "json_char ch =
     (if ch = CHR 0x22 then [CHR 0x5C, CHR 0x22]
      else if ch = CHR 0x5C then [CHR 0x5C, CHR 0x5C]
      else if ch = CHR 0x0A then [CHR 0x5C, CHR ''n'']
      else if ch = CHR 0x0D then [CHR 0x5C, CHR ''r'']
      else if ch = CHR 0x09 then [CHR 0x5C, CHR ''t'']
      else if (of_char ch :: nat) < 0x20 then CHR 0x5C # ''u00'' @ show_nat True 16 (of_char ch)
      else [ch])"

definition JsonEscape :: "string \<Rightarrow> string" where
  "JsonEscape text = concat (map json_char text)"

text \<open>A text between double quotes.\<close>

definition in_quotes :: "string \<Rightarrow> string" where
  "in_quotes s = CHR 0x22 # s @ [CHR 0x22]"

definition InstructionGroupKey :: "string \<Rightarrow> ExpectationRow \<Rightarrow> string" where
  "InstructionGroupKey path row = path @ ''#'' @ to_string (row_instruction_id row)"

definition WriteSkipJson :: "string option \<Rightarrow> string \<Rightarrow> ExpectationRow \<Rightarrow> string \<Rightarrow> string \<Rightarrow> string option" where
  "WriteSkipJson out path row reason detail =
     (case out of
        None \<Rightarrow> None
      | Some text \<Rightarrow> Some (text @ ''{'' @ in_quotes ''kind'' @ '':'' @ in_quotes ''skip'' @ '','' @
          in_quotes ''file'' @ '':'' @ in_quotes (JsonEscape path) @ '','' @
          in_quotes ''test_case_id'' @ '':'' @ to_string (test_case_id row) @ '','' @
          in_quotes ''instruction_id'' @ '':'' @ to_string (row_instruction_id row) @ '','' @
          in_quotes ''state_index'' @ '':'' @ to_string (row_state_index row) @ '','' @
          in_quotes ''opcode'' @ '':'' @ in_quotes (JsonEscape (row_opcode row)) @ '','' @
          in_quotes ''instruction'' @ '':'' @ in_quotes (JsonEscape (row_instruction row)) @ '','' @
          in_quotes ''reason'' @ '':'' @ in_quotes (JsonEscape reason) @
          (if detail \<noteq> [] then '','' @ in_quotes ''detail'' @ '':'' @ in_quotes (JsonEscape detail) else []) @
          ''}'' @ [CHR 0x0A]))"

definition WriteMismatchJson :: "string option \<Rightarrow> string \<Rightarrow> ExpectationRow \<Rightarrow> FieldMismatch \<Rightarrow> string option" where
  "WriteMismatchJson out path row mismatch =
     (case out of
        None \<Rightarrow> None
      | Some text \<Rightarrow> Some (text @ ''{'' @ in_quotes ''kind'' @ '':'' @ in_quotes ''mismatch'' @ '','' @
          in_quotes ''file'' @ '':'' @ in_quotes (JsonEscape path) @ '','' @
          in_quotes ''test_case_id'' @ '':'' @ to_string (test_case_id row) @ '','' @
          in_quotes ''instruction_id'' @ '':'' @ to_string (row_instruction_id row) @ '','' @
          in_quotes ''state_index'' @ '':'' @ to_string (row_state_index row) @ '','' @
          in_quotes ''opcode'' @ '':'' @ in_quotes (JsonEscape (row_opcode row)) @ '','' @
          in_quotes ''instruction'' @ '':'' @ in_quotes (JsonEscape (row_instruction row)) @ '','' @
          in_quotes ''field'' @ '':'' @ in_quotes (JsonEscape (mm_field mismatch)) @ '','' @
          in_quotes ''expected'' @ '':'' @ to_string (mm_expected mismatch) @ '','' @
          in_quotes ''actual'' @ '':'' @ to_string (mm_actual mismatch) @ '','' @
          in_quotes ''mask'' @ '':'' @ to_string (mm_mask mismatch) @ '','' @
          in_quotes ''detail'' @ '':'' @ in_quotes (JsonEscape (mm_detail mismatch)) @ ''}'' @ [CHR 0x0A]))"

section \<open>Console output\<close>

definition PrintMetadataLine :: "ExpectationRow \<Rightarrow> XedMetadata \<Rightarrow> string" where
  "PrintMetadataLine row metadata =
     row_opcode row @ '' @0x'' @ hex_upper (row_address row) @ '' '' @ row_instruction row @ '' xed='' @
     (if \<not> xed_ok metadata then ''ERROR('' @ xed_error metadata @ '')'' @ [CHR 0x0A]
      else iclass metadata @ '' iform='' @ iform metadata @ '' category='' @ category metadata @
        '' extension='' @ extension metadata @ '' len='' @ to_string (ucast (insn_length metadata)) @
        '' flags.read='' @ FormatFlagNames (read_flags metadata) @
        '' flags.written='' @ FormatFlagNames (written_flags metadata) @
        '' flags.undefined='' @ FormatFlagNames (undefined_flags metadata) @
        '' flags.compare='' @ FormatFlagNames (comparable_written_flags metadata) @
        (if memory_operands metadata \<noteq> [] then '' memops='' @ show_nat True 10 (length (memory_operands metadata))
         else []) @ [CHR 0x0A])"

definition usage_line :: "string \<Rightarrow> string \<Rightarrow> string" where
  "usage_line option_text description =
     ''  '' @ option_text @ replicate (27 - length option_text) CHR '' '' @ description @ [CHR 0x0A]"

definition PrintUsage :: "string \<Rightarrow> string" where
  "PrintUsage argv0 =
     ''Usage: '' @ argv0 @ '' [options] --input 3975WX/xor.txt'' @ [CHR 0x0A, CHR 0x0A] @
     ''Options:'' @ [CHR 0x0A] @
     usage_line ''--input <path>'' ''Add one x86Tester file. Positional paths also work.'' @
     usage_line ''--input-dir <dir>'' ''Add all .txt files in a corpus directory, sorted.'' @
     usage_line ''--mnemonic <csv>'' ''Filter by mnemonic, e.g. xor,add,adc.'' @
     usage_line ''--opcode <csv>'' ''Filter by opcode hex, e.g. 4831D8.'' @
     usage_line ''--limit-states <n>'' ''Stop after selecting n state rows.'' @
     usage_line ''--limit-instructions <n>'' ''Stop after selecting n instruction groups.'' @
     usage_line ''--print-instructions'' ''Print one XED metadata line per selected opcode/address.'' @
     usage_line ''--report-jsonl <path>'' ''Write mismatch records as JSON Lines.'' @
     ''  --report-skips-jsonl <path>'' @ [CHR 0x0A] @
     replicate 30 CHR '' '' @ ''Write skip records as JSON Lines.'' @ [CHR 0x0A] @
     usage_line ''--execute'' ''Lift/JIT/run selected rows with Remill and compare sparse outputs.'' @
     usage_line ''--stop-on-first-fail'' ''Stop after the first execution mismatch.'' @
     usage_line ''--self-test'' ''Run parser/XED smoke tests.'' @
     usage_line ''--help'' ''Show this help.''"

section \<open>Reading a record back\<close>

text \<open>
  The text a JSON reader finds between the quotes (RFC 8259): no control character, the eight
  short escapes and \<open>u\<close> with four hexadecimal digits, of which the first two must be zero here
  since a character of the model has eight bits.
\<close>

definition short_escape :: "char \<Rightarrow> char option" where
  "short_escape c =
     (if c = CHR 0x22 \<or> c = CHR 0x5C \<or> c = CHR ''/'' then Some c
      else if c = CHR ''b'' then Some (CHR 0x08)
      else if c = CHR ''f'' then Some (CHR 0x0C)
      else if c = CHR ''n'' then Some (CHR 0x0A)
      else if c = CHR ''r'' then Some (CHR 0x0D)
      else if c = CHR ''t'' then Some (CHR 0x09)
      else None)"

fun json_read :: "string \<Rightarrow> string option" where
  "json_read [] = Some []"
| "json_read (c # cs) =
     (if c = CHR 0x22 \<or> (of_char c :: nat) < 0x20 then None
      else if c \<noteq> CHR 0x5C then map_option ((#) c) (json_read cs)
      else case cs of
        [] \<Rightarrow> None
      | e # rest \<Rightarrow>
          if e = CHR ''u'' then
            (case rest of
               z1 # z2 # h # l # rest' \<Rightarrow>
                 if z1 = CHR ''0'' \<and> z2 = CHR ''0'' \<and> is_base_digit 16 h \<and> is_base_digit 16 l
                 then map_option ((#) (char_of (digits_value 16 [h, l]))) (json_read rest')
                 else None
             | _ \<Rightarrow> None)
          else case short_escape e of
            None \<Rightarrow> None
          | Some d \<Rightarrow> map_option ((#) d) (json_read rest))"

definition json_safe :: "char \<Rightarrow> bool" where
  "json_safe c \<longleftrightarrow> 16 \<le> (of_char c :: nat) \<or> c = CHR 0x09 \<or> c = CHR 0x0A \<or> c = CHR 0x0D"

lemma show_nat_two_hex: "16 \<le> n \<Longrightarrow> n < 32 \<Longrightarrow> show_nat True 16 n = [CHR ''1'', digit_char True (n mod 16)]"
proof -
  assume "16 \<le> n" "n < 32"
  moreover from this have "n div 16 = 1" by auto
  moreover have "show_nat True 16 1 = [CHR ''1'']" by code_simp
  ultimately show ?thesis by (subst show_nat.simps) simp
qed

lemma json_read_char:
  assumes "json_safe c"
  shows "json_read (json_char c @ s) = map_option ((#) c) (json_read s)"
proof (cases "c = CHR 0x22 \<or> c = CHR 0x5C \<or> c = CHR 0x0A \<or> c = CHR 0x0D \<or> c = CHR 0x09")
  case True
  then show ?thesis by (elim disjE) (simp_all add: json_char_def short_escape_def)
next
  case False
  show ?thesis
  proof (cases "(of_char c :: nat) < 0x20")
    case True
    with False assms have n: "16 \<le> (of_char c :: nat)" "(of_char c :: nat) < 32" by (simp_all add: json_safe_def)
    have "(of_char c :: nat) mod 16 < 16" by simp
    then have digit: "is_base_digit 16 (digit_char True (of_char c mod 16))"
      "digit_value (digit_char True (of_char c mod 16)) = Some (of_char c mod 16)"
      by (simp_all add: is_base_digit_digit_char digit_value_digit_char)
    have one: "is_base_digit 16 CHR ''1''" "digit_value CHR ''1'' = Some 1" by code_simp+
    have "16 + (of_char c :: nat) mod 16 = of_char c" using n by (simp add: le_mod_geq)
    then have "char_of (digits_value 16 [CHR ''1'', digit_char True (of_char c mod 16)]) = c"
      using digit(2) one(2) by (simp add: digits_value_def)
    with False True n digit one show ?thesis
      by (simp add: json_char_def show_nat_two_hex)
  qed (use False in \<open>simp add: json_char_def\<close>)
qed

lemma json_read_escape: "list_all json_safe s \<Longrightarrow> json_read (JsonEscape s) = Some s"
  by (induction s) (simp_all add: JsonEscape_def json_read_char)

text \<open>Printable text: what a record consists of, so that it stays on one line.\<close>

definition printable :: "string \<Rightarrow> bool" where
  "printable s \<longleftrightarrow> (\<forall>c \<in> set s. 0x20 \<le> (of_char c :: nat))"

lemma printable_simps [simp]:
  "printable []" "printable (c # s) \<longleftrightarrow> 0x20 \<le> (of_char c :: nat) \<and> printable s"
  "printable (s @ t) \<longleftrightarrow> printable s \<and> printable t"
  by (auto simp: printable_def)

lemma printable_show_nat: "printable (show_nat True 16 n)" "printable (to_string v)"
proof -
  have "32 \<le> (of_char c :: nat)" if "is_base_digit b c" for b c
    using that by (auto simp: is_base_digit_def digit_value_def Let_def split: if_splits)
  then show "printable (show_nat True 16 n)" "printable (to_string v)"
    using show_nat_base_digits [of 16 _ True n] show_nat_base_digits [of 10 _ True "unat v"]
    by (auto simp: printable_def to_string_def)
qed

lemma printable_JsonEscape: "printable (JsonEscape s)"
proof (induction s)
  case (Cons c s)
  have "printable (json_char c)" by (simp add: json_char_def printable_show_nat)
  with Cons show ?case by (simp add: JsonEscape_def)
qed (simp add: JsonEscape_def)

lemma WriteSkipJson_line:
  "\<exists>line. WriteSkipJson (Some text) path row reason detail = Some (text @ line @ [CHR 0x0A]) \<and> printable line"
  by (simp add: WriteSkipJson_def in_quotes_def printable_JsonEscape printable_show_nat)

lemma WriteMismatchJson_line:
  "\<exists>line. WriteMismatchJson (Some text) path row mismatch = Some (text @ line @ [CHR 0x0A]) \<and> printable line"
  by (simp add: WriteMismatchJson_def in_quotes_def printable_JsonEscape printable_show_nat)



text \<open>
  The proviso is needed: the other control characters get three hexadecimal digits instead of
  four, which is not a JSON text or, before a digit, the text of another character.
\<close>

lemma json_escape_short_escape:
  "json_read (JsonEscape [CHR 0x01]) = None"
  "json_read (JsonEscape [CHR 0x01, CHR ''A'']) = Some [CHR 0x1A]"
  by code_simp+

end
