(* ===== verification/Parser.thy ===== *)
theory Parser
  imports Parser_Text Expectation
begin

text \<open>
  The corpus parser of \<^verbatim>\<open>src/src/x86tester_parser.cpp\<close>: instruction headers, the data pool,
  state rows, and the two loops over the lines of a file. \<open>parse_line\<close> is one iteration of
  the loop of \<open>ParseFile\<close>, \<open>ParserState\<close> its local variables.

  The file system is the parameter \<open>files\<close> (the content of a file that can be opened), and
  the allocator the parameter \<open>reserve_error\<close>: the text of the exception
  \<open>data_pool.reserve(n)\<close> throws, if it throws one.
\<close>

section \<open>The functions\<close>

record InstructionHeader =
  header_address :: u64
  header_opcode :: string
  header_instruction :: string
  header_row_count :: u64
  input_schema :: "string list"
  output_schema :: "string list"

definition default_header :: InstructionHeader where
  "default_header = \<lparr>header_address = 0, header_opcode = [], header_instruction = [],
     header_row_count = 0, input_schema = [], output_schema = []\<rparr>"

record ParsedCorpus =
  rows :: "ExpectationRow list"
  instruction_groups :: u64
  parse_warnings :: u64

record ParsedInstructionHeader =
  parsed_instruction_id :: u64
  parsed_address :: u64
  parsed_opcode :: string
  parsed_instruction :: string
  parsed_row_count :: u64

text \<open>Headers and data pool values.\<close>

definition ParseSchemaField_step :: "string \<Rightarrow> string \<Rightarrow> string list \<Rightarrow> string \<Rightarrow> string list res" where
  "ParseSchemaField_step field name schema part =
     (let key = Trim part in
      if key = [] then throw_runtime (''empty state name in '' @ name @ '' schema: '' @ field)
      else Inr (schema @ [key]))"

definition ParseSchemaField :: "string \<Rightarrow> string \<Rightarrow> string list res" where
  "ParseSchemaField field name =
     (let trimmed = Trim field; prefix = name @ ''='' in
      if \<not> starts_with trimmed prefix
      then throw_runtime (''instruction header field must start with '' @ prefix @ '': '' @ field)
      else let body = Trim (drop (length prefix) trimmed) in
        if body = [] then Inr []
        else res_fold (ParseSchemaField_step field name) [] (Split body CHR '',''))"

definition ParseHeader :: "string \<Rightarrow> InstructionHeader res" where
  "ParseHeader line =
     (if \<not> starts_with line ''instr:''
      then throw_runtime ''instruction header does not start with instr:''
      else let parts = Split (drop 6 line) CHR '';'' in
        if length parts \<noteq> 6 then throw_runtime (''instruction header must have six fields: '' @ line)
        else res_bind (ParseUnsigned (Trim (parts ! 0)) 0) (\<lambda>address.
          let opcode_field = Trim (parts ! 1) in
          if opcode_field = [] \<or> opcode_field ! 0 \<noteq> CHR ''#''
          then throw_runtime (''instruction header opcode field must start with #: '' @ line)
          else let opcode = ToUpper (drop 1 opcode_field) in
            res_bind (ParseHexBytes opcode) (\<lambda>_.
            res_bind (ParseUnsigned (Trim (parts ! 3)) 10) (\<lambda>row_count.
            res_bind (ParseSchemaField (parts ! 4) ''in'') (\<lambda>ins.
            res_bind (ParseSchemaField (parts ! 5) ''out'') (\<lambda>outs.
              Inr \<lparr>header_address = address, header_opcode = opcode,
                   header_instruction = Trim (parts ! 2), header_row_count = row_count,
                   input_schema = ins, output_schema = outs\<rparr>))))))"

definition ParseDataHeader :: "string \<Rightarrow> u64 res" where
  "ParseDataHeader line =
     (if \<not> starts_with line ''data:'' then throw_runtime ''file must start with data:<count>''
      else ParseUnsigned (Trim (drop 5 line)) 10)"

definition ParseDataPoolValue :: "string \<Rightarrow> u8 list res" where
  "ParseDataPoolValue line =
     (let trimmed = Trim line in
      if trimmed = [] \<or> trimmed ! 0 \<noteq> CHR ''#''
      then throw_runtime (''data pool value must start with #: '' @ line)
      else ParseHexBytes (drop 1 trimmed))"

text \<open>
  The containers a row is filled into: the register maps, and the two memory vectors, of
  which the caller passes at most one (the other is a null pointer).
\<close>

record Target =
  scalars :: "(string, u64) omap"
  bytes_map :: "(string, u8 list) omap"
  input_memory :: "MemoryCell list option"
  output_memory :: "MemoryExpectation list option"

definition AddStateBytes :: "string \<Rightarrow> u8 list \<Rightarrow> Target \<Rightarrow> Target res" where
  "AddStateBytes raw_key bytes t =
     (let key = CanonicalStateKey raw_key in
      res_bind (if bytes \<noteq> [] \<and> length bytes \<le> 8
                then res_bind (ReadLittleEndianScalar bytes) (\<lambda>v.
                       Inr (t\<lparr>scalars := omap_put key v (scalars t)\<rparr>))
                else Inr t) (\<lambda>t1.
      Inr (if IsByteStateKey key \<or> 8 < length bytes
           then t1\<lparr>bytes_map := omap_put key bytes (bytes_map t1)\<rparr> else t1)))"

definition AddMemoryInput :: "MemoryCell list \<Rightarrow> u64 \<Rightarrow> u8 list \<Rightarrow> MemoryCell list" where
  "AddMemoryInput memory address bytes =
     memory @ [\<lparr>cell_address = address, cell_bytes = bytes, permissions = 0\<rparr>]"

definition AddMemoryOutput :: "MemoryExpectation list \<Rightarrow> u64 \<Rightarrow> u8 list \<Rightarrow> MemoryExpectation list" where
  "AddMemoryOutput memory address bytes =
     memory @ [\<lparr>exp_address = address, exp_bytes = bytes, exp_mask = []\<rparr>]"

definition AddPooledValue :: "string \<Rightarrow> u8 list \<Rightarrow> Target \<Rightarrow> Target res" where
  "AddPooledValue raw_key bytes t =
     res_bind (ParseMemoryAddressKey raw_key) (\<lambda>memory_address.
       case memory_address of
         Some address \<Rightarrow>
           (case input_memory t of
              Some memory \<Rightarrow> Inr (t\<lparr>input_memory := Some (AddMemoryInput memory address bytes)\<rparr>)
            | None \<Rightarrow>
                (case output_memory t of
                   Some memory \<Rightarrow> Inr (t\<lparr>output_memory := Some (AddMemoryOutput memory address bytes)\<rparr>)
                 | None \<Rightarrow> throw_runtime (''memory key is not valid here: '' @ raw_key)))
       | None \<Rightarrow> AddStateBytes raw_key bytes t)"

text \<open>Rows.\<close>

definition ParseIndexList_step :: "string \<Rightarrow> nat \<Rightarrow> string \<Rightarrow> nat list \<Rightarrow> string \<Rightarrow> nat list res" where
  "ParseIndexList_step text data_pool_size kind indices part =
     (let index_text = Trim part in
      if index_text = []
      then throw_runtime (''empty '' @ kind @ '' data pool index: '' @ text)
      else res_bind (ParseUnsigned index_text 10) (\<lambda>raw_index.
        if data_pool_size \<le> unat raw_index
        then throw_runtime (kind @ '' data pool index '' @ to_string raw_index @
               '' is out of range for pool size '' @ show_nat True 10 data_pool_size)
        else if (- 1 :: u64) < raw_index
        then throw_runtime (kind @ '' data pool index is too large: '' @ index_text)
        else Inr (indices @ [unat raw_index])))"

definition ParseIndexList :: "string \<Rightarrow> nat \<Rightarrow> nat \<Rightarrow> string \<Rightarrow> nat list res" where
  "ParseIndexList text expected_count data_pool_size kind =
     (let trimmed = Trim text in
      if expected_count = 0
      then if trimmed \<noteq> [] then throw_runtime (kind @ '' row has values but schema is empty: '' @ text)
           else Inr []
      else if trimmed = [] then throw_runtime (kind @ '' row is empty but schema is not'')
      else let parts = Split trimmed CHR '','' in
        if length parts \<noteq> expected_count
        then throw_runtime (kind @ '' row has '' @ show_nat True 10 (length parts) @
               '' values but schema has '' @ show_nat True 10 expected_count @ '': '' @ text)
        else res_fold (ParseIndexList_step text data_pool_size kind) [] parts)"

text \<open>\<open>data_pool[indices[i]]\<close> is undefined behaviour outside of the pool.\<close>

definition ApplySchemaValues_step ::
  "string list \<Rightarrow> nat list \<Rightarrow> u8 list list \<Rightarrow> Target \<Rightarrow> nat \<Rightarrow> Target res" where
  "ApplySchemaValues_step schema indices data_pool t i =
     (if indices ! i < length data_pool
      then AddPooledValue (schema ! i) (data_pool ! (indices ! i)) t
      else Inl UndefinedBehaviour)"

definition ApplySchemaValues ::
  "string list \<Rightarrow> nat list \<Rightarrow> u8 list list \<Rightarrow> Target \<Rightarrow> Target res" where
  "ApplySchemaValues schema indices data_pool t =
     (if length schema \<noteq> length indices then throw_runtime ''schema/value count mismatch''
      else res_fold (ApplySchemaValues_step schema indices data_pool) t [0..<length schema])"

definition ParseStateRow ::
  "string \<Rightarrow> InstructionHeader \<Rightarrow> u64 \<Rightarrow> u64 \<Rightarrow> u64 \<Rightarrow> u8 list list \<Rightarrow> ExpectationRow res" where
  "ParseStateRow line header instruction_id next_id state_index data_pool =
     (let trimmed = Trim line in
      case str_find trimmed CHR ''|'' 0 of
        None \<Rightarrow> throw_runtime (''state row must contain |: '' @ line)
      | Some separator \<Rightarrow>
          if str_find trimmed CHR ''|'' (separator + 1) \<noteq> None
          then throw_runtime (''state row must contain exactly one |: '' @ line)
          else
            let row = default_row\<lparr>test_case_id := next_id, row_instruction_id := instruction_id,
                  row_address := header_address header, row_instruction := header_instruction header,
                  row_opcode := header_opcode header, row_state_index := state_index,
                  total_states := header_row_count header, selected_states := header_row_count header,
                  selected_state_index := state_index\<rparr>
            in res_bind (ParseIndexList (substr trimmed 0 separator) (length (input_schema header))
                           (length data_pool) ''input'') (\<lambda>input_indices.
               res_bind (ApplySchemaValues (input_schema header) input_indices data_pool
                           \<lparr>scalars = [], bytes_map = [], input_memory = Some [], output_memory = None\<rparr>) (\<lambda>ins.
               let row1 = row\<lparr>initial_state := scalars ins, initial_bytes := bytes_map ins,
                            initial_memory := the (input_memory ins)\<rparr>;
                   output_text = Trim (drop (separator + 1) trimmed)
               in if starts_with output_text ''!''
                  then let kind = Trim (drop 1 output_text) in
                    if kind = [] then throw_runtime (''exception output is missing an exception kind: '' @ line)
                    else Inr (row1\<lparr>expected_exception_kind := Some kind,
                                expected_final_state := Some [], expected_final_bytes := []\<rparr>)
                  else
                    res_bind (ParseIndexList output_text (length (output_schema header))
                                (length data_pool) ''output'') (\<lambda>output_indices.
                    res_bind (ApplySchemaValues (output_schema header) output_indices data_pool
                                \<lparr>scalars = [], bytes_map = [], input_memory = None, output_memory = Some []\<rparr>) (\<lambda>outs.
                    Inr (row1\<lparr>expected_memory := the (output_memory outs),
                           expected_final_state := Some (scalars outs),
                           expected_final_bytes := bytes_map outs\<rparr>))))))"

text \<open>The loop over the lines for the headers only.\<close>

definition located :: "string \<Rightarrow> u64 \<Rightarrow> 'a res \<Rightarrow> 'a res" where
  "located path line_number r =
     (case r of
        Inr x \<Rightarrow> Inr x
      | Inl e \<Rightarrow> if is_exception e
                then throw_runtime (quoted path @ '':'' @ to_string line_number @ '': '' @ what e)
                else Inl e)"

record HeaderScan =
  scan_line_number :: u64
  scan_instruction_id :: u64
  scan_headers :: "ParsedInstructionHeader list"

definition header_scan_line :: "string \<Rightarrow> HeaderScan \<Rightarrow> string \<Rightarrow> HeaderScan res" where
  "header_scan_line path s0 line =
     (let s = s0\<lparr>scan_line_number := scan_line_number s0 + 1\<rparr>;
          trimmed = Trim line
      in if trimmed = [] then Inr s
         else if \<not> starts_with trimmed ''instr:'' then Inr s
         else located path (scan_line_number s)
           (res_bind (ParseHeader trimmed) (\<lambda>header.
            Inr (s\<lparr>scan_instruction_id := scan_instruction_id s + 1,
                 scan_headers := scan_headers s @
                   [\<lparr>parsed_instruction_id = scan_instruction_id s + 1,
                     parsed_address = header_address header,
                     parsed_opcode = header_opcode header,
                     parsed_instruction = header_instruction header,
                     parsed_row_count = header_row_count header\<rparr>]\<rparr>))))"

definition ParseInstructionHeaders ::
  "(string \<Rightarrow> string option) \<Rightarrow> string \<Rightarrow> ParsedInstructionHeader list res" where
  "ParseInstructionHeaders files path =
     (case files path of
        None \<Rightarrow> throw_runtime (''failed to open input file: '' @ path)
      | Some content \<Rightarrow>
          res_bind (res_fold (header_scan_line path)
                      \<lparr>scan_line_number = 0, scan_instruction_id = 0, scan_headers = []\<rparr>
                      (getlines content)) (\<lambda>s. Inr (scan_headers s)))"

text \<open>The loop over the lines of a corpus.\<close>

record ParserState =
  corpus :: ParsedCorpus
  data_pool :: "u8 list list"
  line_number :: u64
  data_values_remaining :: u64
  instruction_id :: u64
  next_test_case_id :: u64
  state_index :: u64
  rows_in_group :: u64
  current_header :: InstructionHeader
  have_data_header :: bool
  have_header :: bool

definition initial_parser :: ParserState where
  "initial_parser = \<lparr>corpus = \<lparr>rows = [], instruction_groups = 0, parse_warnings = 0\<rparr>,
     data_pool = [], line_number = 0, data_values_remaining = 0, instruction_id = 0,
     next_test_case_id = 0, state_index = 0, rows_in_group = 0, current_header = default_header,
     have_data_header = False, have_header = False\<rparr>"

definition finish_group :: "ParserState \<Rightarrow> ParserState" where
  "finish_group s =
     (if have_header s \<and> rows_in_group s \<noteq> header_row_count (current_header s)
      then s\<lparr>corpus := (corpus s)\<lparr>parse_warnings := parse_warnings (corpus s) + 1\<rparr>\<rparr> else s)"

definition parse_line_body :: "(u64 \<Rightarrow> string option) \<Rightarrow> ParserState \<Rightarrow> string \<Rightarrow> ParserState res" where
  "parse_line_body reserve_error s trimmed =
     (if \<not> have_data_header s then
        res_bind (ParseDataHeader trimmed) (\<lambda>count.
          case reserve_error count of
            Some message \<Rightarrow> throw_runtime message
          | None \<Rightarrow> Inr (s\<lparr>data_values_remaining := count, have_data_header := True\<rparr>))
      else if data_values_remaining s \<noteq> 0 then
        res_bind (ParseDataPoolValue trimmed) (\<lambda>value.
          Inr (s\<lparr>data_pool := data_pool s @ [value],
               data_values_remaining := data_values_remaining s - 1\<rparr>))
      else if starts_with trimmed ''data:'' then throw_runtime ''duplicate data pool header''
      else if starts_with trimmed ''instr:'' then
        let s1 = finish_group s in
        res_bind (ParseHeader trimmed) (\<lambda>header.
          Inr (s1\<lparr>current_header := header, have_header := True, state_index := 0,
                rows_in_group := 0, instruction_id := instruction_id s1 + 1,
                corpus := (corpus s1)\<lparr>instruction_groups := instruction_groups (corpus s1) + 1\<rparr>\<rparr>))
      else if \<not> have_header s then throw_runtime ''state row appears before first header''
      else
        res_bind (ParseStateRow trimmed (current_header s) (instruction_id s) (next_test_case_id s)
                    (state_index s) (data_pool s)) (\<lambda>row.
          Inr (s\<lparr>corpus := (corpus s)\<lparr>rows := rows (corpus s) @ [row]\<rparr>,
               next_test_case_id := next_test_case_id s + 1,
               state_index := state_index s + 1, rows_in_group := rows_in_group s + 1\<rparr>)))"

definition parse_line ::
  "(u64 \<Rightarrow> string option) \<Rightarrow> string \<Rightarrow> ParserState \<Rightarrow> string \<Rightarrow> ParserState res" where
  "parse_line reserve_error path s0 line =
     (let s = s0\<lparr>line_number := line_number s0 + 1\<rparr>; trimmed = Trim line
      in if trimmed = [] then Inr s
         else located path (line_number s) (parse_line_body reserve_error s trimmed))"

definition ParseFile ::
  "(string \<Rightarrow> string option) \<Rightarrow> (u64 \<Rightarrow> string option) \<Rightarrow> string \<Rightarrow> ParsedCorpus res" where
  "ParseFile files reserve_error path =
     (case files path of
        None \<Rightarrow> throw_runtime (''failed to open input file: '' @ path)
      | Some content \<Rightarrow>
          res_bind (res_fold (parse_line reserve_error path) initial_parser (getlines content)) (\<lambda>s.
            if \<not> have_data_header s then throw_runtime (path @ '': missing data pool header'')
            else if data_values_remaining s \<noteq> 0
            then throw_runtime (quoted path @ '': expected '' @ to_string (data_values_remaining s) @
                   '' more data pool values'')
            else Inr (corpus (finish_group s))))"

section \<open>Every failure of the parser is an exception\<close>

lemmas parser_exceptions = throw_runtime_exception ParseUnsigned_Inl ParseHexBytes_Inl ParseMemoryAddressKey_Inl

lemma ParseSchemaField_Inl: "ParseSchemaField field name = Inl e \<Longrightarrow> is_exception e"
  by (auto simp: ParseSchemaField_def ParseSchemaField_step_def Let_def split: if_splits
      dest: throw_runtime_exception dest!: res_fold_Inl)

lemma ParseHeader_Inl: "ParseHeader line = Inl e \<Longrightarrow> is_exception e"
  by (auto simp: ParseHeader_def Let_def res_simps(2) split: if_splits
      dest: parser_exceptions ParseSchemaField_Inl)

lemma ParseDataHeader_Inl: "ParseDataHeader line = Inl e \<Longrightarrow> is_exception e"
  by (auto simp: ParseDataHeader_def split: if_splits dest: parser_exceptions)

lemma ParseDataPoolValue_Inl: "ParseDataPoolValue line = Inl e \<Longrightarrow> is_exception e"
  by (auto simp: ParseDataPoolValue_def Let_def split: if_splits dest: parser_exceptions)

lemma AddStateBytes_Inr: "\<exists>t'. AddStateBytes k bytes t = Inr t'"
  by (auto simp: AddStateBytes_def Let_def ReadLittleEndianScalar_total)

lemma AddPooledValue_Inl: "AddPooledValue k bytes t = Inl e \<Longrightarrow> is_exception e"
  using AddStateBytes_Inr [of k bytes t]
  by (auto simp: AddPooledValue_def res_simps(2) split: option.splits dest: parser_exceptions)

lemma ParseIndexList_Inl: "ParseIndexList s n m kind = Inl e \<Longrightarrow> is_exception e"
  by (auto simp: ParseIndexList_def ParseIndexList_step_def Let_def res_simps(2) split: if_splits
      dest!: res_fold_Inl dest: parser_exceptions)

text \<open>An index list that is accepted fits the schema and the pool.\<close>

lemma ParseIndexList_Inr:
  assumes "ParseIndexList s n m kind = Inr is"
  shows "length is = n" "list_all (\<lambda>i. i < m) is"
proof -
  have "length is = n \<and> list_all (\<lambda>i. i < m) is"
  proof (cases "n = 0")
    case True
    with assms show ?thesis by (auto simp: ParseIndexList_def Let_def res_simps split: if_splits)
  next
    case False
    let ?parts = "Split (Trim s) CHR '',''"
    from False assms have loop: "length ?parts = n"
      "res_fold (ParseIndexList_step s m kind) [] ?parts = Inr is"
      by (auto simp: ParseIndexList_def Let_def res_simps split: if_splits)
    have "\<exists>y. y < m \<and> out = s' @ [y]" if "ParseIndexList_step s m kind s' x = Inr out" for s' x out
      using that by (auto simp: ParseIndexList_step_def Let_def res_simps not_le split: if_splits)
    from res_fold_snoc [OF loop(2), where Q = "\<lambda>i. i < m", OF this] loop(1) show ?thesis by auto
  qed
  then show "length is = n" "list_all (\<lambda>i. i < m) is" by auto
qed

lemma ApplySchemaValues_Inl:
  assumes "ApplySchemaValues schema is pool t = Inl e" "list_all (\<lambda>i. i < length pool) is"
  shows "is_exception e"
proof (cases "length schema = length is")
  case True
  then have "res_fold (ApplySchemaValues_step schema is pool) t [0..<length schema] = Inl e"
    using assms(1) by (simp add: ApplySchemaValues_def)
  from res_fold_Inl [OF this] assms(2) True show ?thesis
    by (auto simp: ApplySchemaValues_step_def list_all_length split: if_splits dest: AddPooledValue_Inl)
next
  case False
  with assms(1) show ?thesis by (auto simp: ApplySchemaValues_def dest: throw_runtime_exception)
qed

lemma ParseStateRow_Inl: "ParseStateRow line header iid tid si pool = Inl e \<Longrightarrow> is_exception e"
  by (auto simp: ParseStateRow_def Let_def res_simps(2) split: option.splits if_splits
      dest: parser_exceptions ParseIndexList_Inl ApplySchemaValues_Inl ParseIndexList_Inr(2))

lemma located_Inl: "located path n r = Inl e \<Longrightarrow> (\<And>e'. r = Inl e' \<Longrightarrow> is_exception e') \<Longrightarrow> \<exists>m. e = RuntimeError m"
  by (cases r) (auto simp: located_def throw_runtime_def)

lemma located_Inr [simp]: "located path n r = Inr x \<longleftrightarrow> r = Inr x"
  by (auto simp: located_def throw_runtime_def split: sum.splits if_splits)

lemma parse_line_body_Inl: "parse_line_body reserve s line = Inl e \<Longrightarrow> is_exception e"
  by (auto simp: parse_line_body_def Let_def res_simps(2) split: option.splits if_splits
      dest: parser_exceptions ParseDataHeader_Inl ParseDataPoolValue_Inl ParseHeader_Inl ParseStateRow_Inl)

lemma parse_line_Inl: "parse_line reserve path s line = Inl e \<Longrightarrow> \<exists>m. e = RuntimeError m"
  by (auto simp: parse_line_def Let_def split: if_splits dest!: located_Inl dest: parse_line_body_Inl)

text \<open>
  C12. Whatever the bytes of the file, the parser of a corpus returns a corpus or throws
  \<open>std::runtime_error\<close>: no index leaves the data pool, no other exception passes the loop
  over the lines, and the loop ends. The exceptions of the number parser are rewritten with
  the file and the line.
\<close>

theorem parse_file_failures:
  "case ParseFile files reserve_error path of
     Inr c \<Rightarrow> True
   | Inl e \<Rightarrow> \<exists>m. e = RuntimeError m"
proof (cases "ParseFile files reserve_error path")
  case (Inl e)
  have "res_fold (parse_line reserve_error path) s ls = Inl e \<Longrightarrow> \<exists>m. e = RuntimeError m" for s ls e
    by (auto dest!: res_fold_Inl parse_line_Inl)
  with Inl show ?thesis
    by (auto simp: ParseFile_def res_simps throw_runtime_def split: option.splits if_splits)
qed simp

section \<open>The corpus a file holds\<close>

text \<open>
  The abstract content of a corpus: groups of one header and its rows. \<open>corpus_of\<close> says what
  a \<open>ParsedCorpus\<close> promises about them: the rows in order with consecutive case numbers, each
  row with the fields of its header and its position in the group, and one warning for each
  group whose header announces another number of rows.
\<close>

type_synonym row_group = "ParsedInstructionHeader \<times> ExpectationRow list"

definition row_of_group :: "ParsedInstructionHeader \<Rightarrow> nat \<Rightarrow> ExpectationRow \<Rightarrow> bool" where
  "row_of_group h j row \<longleftrightarrow>
     row_instruction_id row = parsed_instruction_id h \<and> row_address row = parsed_address h \<and>
     row_opcode row = parsed_opcode h \<and> row_instruction row = parsed_instruction h \<and>
     total_states row = parsed_row_count h \<and> selected_states row = parsed_row_count h \<and>
     row_state_index row = of_nat j \<and> selected_state_index row = of_nat j"

definition wrong_count :: "row_group \<Rightarrow> bool" where
  "wrong_count g \<longleftrightarrow> of_nat (length (snd g)) \<noteq> parsed_row_count (fst g)"

definition group_ok :: "nat \<Rightarrow> row_group \<Rightarrow> bool" where
  "group_ok i g \<longleftrightarrow> parsed_instruction_id (fst g) = of_nat (Suc i) \<and>
     (\<forall>j < length (snd g). row_of_group (fst g) j (snd g ! j))"

definition corpus_of :: "row_group list \<Rightarrow> ParsedCorpus \<Rightarrow> bool" where
  "corpus_of gs c \<longleftrightarrow>
     rows c = concat (map snd gs) \<and>
     map test_case_id (rows c) = map of_nat [0..<length (rows c)] \<and>
     instruction_groups c = of_nat (length gs) \<and>
     parse_warnings c = of_nat (length (filter wrong_count gs)) \<and>
     (\<forall>i < length gs. group_ok i (gs ! i))"

definition header_summary :: "u64 \<Rightarrow> InstructionHeader \<Rightarrow> ParsedInstructionHeader" where
  "header_summary iid h = \<lparr>parsed_instruction_id = iid, parsed_address = header_address h,
     parsed_opcode = header_opcode h, parsed_instruction = header_instruction h,
     parsed_row_count = header_row_count h\<rparr>"

text \<open>The two loops run side by side over the same lines.\<close>

definition scan_matches :: "row_group list \<Rightarrow> ParserState \<Rightarrow> HeaderScan \<Rightarrow> bool" where
  "scan_matches gs s t \<longleftrightarrow>
     scan_line_number t = line_number s \<and> scan_instruction_id t = instruction_id s \<and>
     scan_headers t = map fst gs \<and>
     instruction_id s = of_nat (length gs) \<and> instruction_groups (corpus s) = of_nat (length gs) \<and>
     rows (corpus s) = concat (map snd gs) \<and>
     map test_case_id (rows (corpus s)) = map of_nat [0..<length (rows (corpus s))] \<and>
     next_test_case_id s = of_nat (length (rows (corpus s))) \<and>
     (\<forall>i < length gs. group_ok i (gs ! i)) \<and>
     parse_warnings (corpus s) = of_nat (length (filter wrong_count (butlast gs))) \<and>
     have_header s = (gs \<noteq> []) \<and>
     (gs \<noteq> [] \<longrightarrow>
        fst (last gs) = header_summary (instruction_id s) (current_header s) \<and>
        rows_in_group s = of_nat (length (snd (last gs))) \<and>
        state_index s = rows_in_group s)"

lemma row_fields:
  assumes "ParseStateRow line header iid tid si pool = Inr row"
  shows "row_of_group (header_summary iid header) j row \<longleftrightarrow> si = of_nat j"
    and "test_case_id row = tid"
  using assms
  by (auto simp: ParseStateRow_def Let_def res_simps row_of_group_def header_summary_def default_row_def
      split: option.splits if_splits)

lemma group_ok_snoc:
  assumes "\<forall>i < length gs. group_ok i (gs ! i)" "group_ok (length gs) g"
  shows "\<forall>i < length (gs @ [g]). group_ok i ((gs @ [g]) ! i)"
  using assms by (auto simp: nth_append less_Suc_eq)

lemma filter_last: "gs \<noteq> [] \<Longrightarrow>
    length (filter P gs) = length (filter P (butlast gs)) + (if P (last gs) then 1 else 0)"
  by (induction gs rule: rev_induct) auto

lemma finish_group_warnings:
  assumes "scan_matches gs s t"
  shows "parse_warnings (corpus (finish_group s)) = of_nat (length (filter wrong_count gs))"
  using assms
  by (cases "gs = []")
     (auto simp: scan_matches_def finish_group_def wrong_count_def header_summary_def filter_last)

lemma finish_group_frame:
  "rows (corpus (finish_group s)) = rows (corpus s)"
  "instruction_groups (corpus (finish_group s)) = instruction_groups (corpus s)"
  "instruction_id (finish_group s) = instruction_id s"
  "next_test_case_id (finish_group s) = next_test_case_id s"
  "line_number (finish_group s) = line_number s"
  "have_data_header (finish_group s) = have_data_header s"
  "data_values_remaining (finish_group s) = data_values_remaining s"
  "data_pool (finish_group s) = data_pool s"
  by (auto simp: finish_group_def)

lemma starts_with_hd: "starts_with s (c # p) \<Longrightarrow> s \<noteq> [] \<and> s ! 0 = c"
  by (auto simp: starts_with_iff)

lemma ParseDataHeader_prefix: "ParseDataHeader s = Inr v \<Longrightarrow> starts_with s ''data:''"
  by (auto simp: ParseDataHeader_def res_simps split: if_splits)

lemma ParseDataPoolValue_prefix: "ParseDataPoolValue (Trim s) = Inr v \<Longrightarrow> (Trim s) ! 0 = CHR ''#''"
  by (auto simp: ParseDataPoolValue_def Let_def res_simps split: if_splits)

lemma scan_header_step:
  assumes "scan_matches gs s t" "ParseHeader line = Inr h"
  shows "\<exists>gs'. scan_matches gs'
      ((finish_group s)\<lparr>current_header := h, have_header := True, state_index := 0, rows_in_group := 0,
         instruction_id := instruction_id s + 1,
         corpus := (corpus (finish_group s))\<lparr>instruction_groups := instruction_groups (corpus s) + 1\<rparr>\<rparr>)
      (t\<lparr>scan_instruction_id := scan_instruction_id t + 1,
         scan_headers := scan_headers t @ [header_summary (scan_instruction_id t + 1) h]\<rparr>)"
proof (rule exI [of _ "gs @ [(header_summary (scan_instruction_id t + 1) h, [])]"])
  have "group_ok (length gs) (header_summary (scan_instruction_id t + 1) h, [])"
    using assms(1) by (simp add: group_ok_def header_summary_def scan_matches_def)
  then show "scan_matches (gs @ [(header_summary (scan_instruction_id t + 1) h, [])])
      ((finish_group s)\<lparr>current_header := h, have_header := True, state_index := 0, rows_in_group := 0,
         instruction_id := instruction_id s + 1,
         corpus := (corpus (finish_group s))\<lparr>instruction_groups := instruction_groups (corpus s) + 1\<rparr>\<rparr>)
      (t\<lparr>scan_instruction_id := scan_instruction_id t + 1,
         scan_headers := scan_headers t @ [header_summary (scan_instruction_id t + 1) h]\<rparr>)"
    using assms(1) finish_group_warnings [OF assms(1)] group_ok_snoc [of gs]
    by (clarsimp simp: scan_matches_def finish_group_frame)
qed

lemma scan_row_step:
  assumes m: "scan_matches gs s t" and h: "have_header s"
    and row: "ParseStateRow line (current_header s) (instruction_id s) (next_test_case_id s)
      (state_index s) pool = Inr row"
  shows "\<exists>gs'. scan_matches gs'
      (s\<lparr>corpus := (corpus s)\<lparr>rows := rows (corpus s) @ [row]\<rparr>,
         next_test_case_id := next_test_case_id s + 1,
         state_index := state_index s + 1, rows_in_group := rows_in_group s + 1\<rparr>) t"
proof -
  from m h obtain gs0 hd rs where gs: "gs = gs0 @ [(hd, rs)]"
    by (cases gs rule: rev_cases) (auto simp: scan_matches_def)
  with m have hd: "hd = header_summary (instruction_id s) (current_header s)"
    and idx: "state_index s = of_nat (length rs)" "rows_in_group s = of_nat (length rs)"
    by (auto simp: scan_matches_def)
  have ok: "\<forall>i < length gs0. group_ok i (gs0 ! i)" "group_ok (length gs0) (hd, rs)"
    using m by (auto simp: scan_matches_def gs nth_append split: if_splits dest: spec [of _ "length gs0"])
  have "row_of_group hd (length rs) row" using row_fields(1) [OF row, of "length rs"] idx hd by simp
  with ok(2) have "group_ok (length gs0) (hd, rs @ [row])"
    by (auto simp: group_ok_def nth_append less_Suc_eq)
  from group_ok_snoc [OF ok(1) this] m row_fields(2) [OF row] idx hd show ?thesis
    by (intro exI [of _ "gs0 @ [(hd, rs @ [row])]"]) (auto simp: scan_matches_def gs)
qed

lemma scan_line_matches:
  assumes m: "scan_matches gs s t" and step: "parse_line reserve_error path s line = Inr s'"
  shows "\<exists>gs' t'. header_scan_line path t line = Inr t' \<and> scan_matches gs' s' t'"
proof -
  define s1 where "s1 = s\<lparr>line_number := line_number s + 1\<rparr>"
  define t1 where "t1 = t\<lparr>scan_line_number := scan_line_number t + 1\<rparr>"
  have m1: "scan_matches gs s1 t1" using m by (auto simp: scan_matches_def s1_def t1_def)
  show ?thesis
  proof (cases "Trim line = []")
    case True
    with step m1 show ?thesis
      by (auto simp: parse_line_def header_scan_line_def Let_def s1_def t1_def)
  next
    case nonempty: False
    with step have body: "parse_line_body reserve_error s1 (Trim line) = Inr s'"
      by (simp add: parse_line_def Let_def s1_def)
    show ?thesis
    proof (cases "starts_with (Trim line) ''instr:''")
      case instr: True
      then have "\<not> starts_with (Trim line) ''data:''" "(Trim line) ! 0 \<noteq> CHR ''#''"
        by (auto simp: starts_with_iff)
      with instr body obtain h where h: "ParseHeader (Trim line) = Inr h"
        and s': "s' = (finish_group s1)\<lparr>current_header := h, have_header := True, state_index := 0,
          rows_in_group := 0, instruction_id := instruction_id s1 + 1,
          corpus := (corpus (finish_group s1))\<lparr>instruction_groups := instruction_groups (corpus s1) + 1\<rparr>\<rparr>"
        by (auto simp: parse_line_body_def Let_def res_simps finish_group_frame split: if_splits
            dest: ParseDataHeader_prefix ParseDataPoolValue_prefix)
      have "header_scan_line path t line =
          Inr (t1\<lparr>scan_instruction_id := scan_instruction_id t1 + 1,
            scan_headers := scan_headers t1 @ [header_summary (scan_instruction_id t1 + 1) h]\<rparr>)"
        using nonempty instr h by (simp add: header_scan_line_def Let_def t1_def located_def header_summary_def)
      with scan_header_step [OF m1 h] show ?thesis unfolding s' by blast
    next
      case False
      with nonempty have scan: "header_scan_line path t line = Inr t1"
        by (simp add: header_scan_line_def Let_def t1_def)
      from body False consider
          count where "s' = s1\<lparr>data_values_remaining := count, have_data_header := True\<rparr>"
        | v where "s' = s1\<lparr>data_pool := data_pool s1 @ [v], data_values_remaining := data_values_remaining s1 - 1\<rparr>"
        | row where "have_header s1"
            "ParseStateRow (Trim line) (current_header s1) (instruction_id s1) (next_test_case_id s1)
               (state_index s1) (data_pool s1) = Inr row"
            "s' = s1\<lparr>corpus := (corpus s1)\<lparr>rows := rows (corpus s1) @ [row]\<rparr>,
               next_test_case_id := next_test_case_id s1 + 1,
               state_index := state_index s1 + 1, rows_in_group := rows_in_group s1 + 1\<rparr>"
        by (auto simp: parse_line_body_def Let_def res_simps split: if_splits option.splits)
      then show ?thesis
      proof cases
        case 1
        with m1 scan show ?thesis by (intro exI [of _ gs] exI [of _ t1]) (auto simp: scan_matches_def)
      next
        case 2
        with m1 scan show ?thesis by (intro exI [of _ gs] exI [of _ t1]) (auto simp: scan_matches_def)
      next
        case 3
        with scan_row_step [OF m1 3(1,2)] scan show ?thesis by auto
      qed
    qed
  qed
qed

lemma scan_lines_match:
  assumes "scan_matches gs s t" "res_fold (parse_line reserve_error path) s ls = Inr s'"
  shows "\<exists>gs' t'. res_fold (header_scan_line path) t ls = Inr t' \<and> scan_matches gs' s' t'"
  using assms
proof (induction ls arbitrary: gs s t)
  case (Cons l ls)
  from Cons.prems(2) obtain s1 where s1: "parse_line reserve_error path s l = Inr s1"
    "res_fold (parse_line reserve_error path) s1 ls = Inr s'"
    by (auto simp: res_simps)
  from scan_line_matches [OF Cons.prems(1) s1(1)] obtain gs1 t1 where
    t1: "header_scan_line path t l = Inr t1" "scan_matches gs1 s1 t1" by blast
  from Cons.IH [OF t1(2) s1(2)] t1(1) show ?case by simp
qed auto

lemma ParseFile_groups:
  assumes "ParseFile files reserve_error path = Inr c"
  shows "\<exists>gs. corpus_of gs c \<and> ParseInstructionHeaders files path = Inr (map fst gs)"
proof -
  from assms obtain content s where content: "files path = Some content"
    and loop: "res_fold (parse_line reserve_error path) initial_parser (getlines content) = Inr s"
    and c: "c = corpus (finish_group s)"
    by (auto simp: ParseFile_def res_simps split: option.splits if_splits)
  have "scan_matches [] initial_parser \<lparr>scan_line_number = 0, scan_instruction_id = 0, scan_headers = []\<rparr>"
    by (simp add: scan_matches_def initial_parser_def)
  from scan_lines_match [OF this loop] obtain gs t where
    "res_fold (header_scan_line path) \<lparr>scan_line_number = 0, scan_instruction_id = 0, scan_headers = []\<rparr>
       (getlines content) = Inr t" and m: "scan_matches gs s t" by blast
  then have "ParseInstructionHeaders files path = Inr (map fst gs)"
    using content by (simp add: ParseInstructionHeaders_def scan_matches_def)
  moreover have "corpus_of gs c"
    using m finish_group_warnings [OF m] unfolding c
    by (clarsimp simp: corpus_of_def scan_matches_def finish_group_frame)
  ultimately show ?thesis by blast
qed


definition demo_content :: string where
  "demo_content =
     ''data:1'' @ [CHR 0x0A] @ ''#0102'' @ [CHR 0x0A] @
     ''instr:16;#90;nop;3;in=RAX,mem@8;out=cf'' @ [CHR 0x0A] @
     ''0,0|0'' @ [CHR 0x0A] @ [CHR 0x0A] @ '' 0, 0|!de'' @ [CHR 0x0A]"

definition demo_files :: "string \<Rightarrow> string option" where
  "demo_files path = (if path = ''a'' then Some demo_content else None)"

lemma demo_parse:
  "case ParseFile demo_files (\<lambda>_. None) ''a'' of Inl _ \<Rightarrow> False | Inr c \<Rightarrow>
     map initial_state (rows c) = [[(''rax'', 0x201)], [(''rax'', 0x201)]] \<and>
     map initial_memory (rows c) =
       replicate 2 [\<lparr>cell_address = 8, cell_bytes = [1, 2], permissions = 0\<rparr>] \<and>
     map expected_final_state (rows c) = [Some [(''cf'', 0x201)], Some []] \<and>
     map expected_exception_kind (rows c) = [None, Some ''de''] \<and>
     parse_warnings c = 1"
  by code_simp

lemma demo_corpus_parses:
  obtains c where "ParseFile demo_files (\<lambda>_. None) ''a'' = Inr c" "length (rows c) = 2" "parse_warnings c = 1"
proof -
  from demo_parse obtain c where "ParseFile demo_files (\<lambda>_. None) ''a'' = Inr c" "parse_warnings c = 1"
    and rows: "map expected_exception_kind (rows c) = [None, Some ''de'']"
    by (auto split: sum.splits)
  moreover from arg_cong [OF rows, of length] have "length (rows c) = 2" by simp
  ultimately show ?thesis using that by blast
qed


section \<open>What a row's values mean\<close>

text \<open>
  The reference reading of a list of schema keys with their pool values: the registers that
  get a scalar, the registers that get bytes, and the memory cells, each in order. The last
  entry of a key wins.
\<close>

definition is_memory_key :: "string \<Rightarrow> bool" where
  "is_memory_key k = (case ParseMemoryAddressKey k of Inr (Some _) \<Rightarrow> True | _ \<Rightarrow> False)"

definition memory_address :: "string \<Rightarrow> u64" where
  "memory_address k = (case ParseMemoryAddressKey k of Inr (Some a) \<Rightarrow> a | _ \<Rightarrow> 0)"

definition scalar_entries :: "(string \<times> u8 list) list \<Rightarrow> (string \<times> u64) list" where
  "scalar_entries kvs = map (\<lambda>(k, v). (CanonicalStateKey k, le_word v))
     (filter (\<lambda>(k, v). \<not> is_memory_key k \<and> v \<noteq> [] \<and> length v \<le> 8) kvs)"

definition byte_entries :: "(string \<times> u8 list) list \<Rightarrow> (string \<times> u8 list) list" where
  "byte_entries kvs = map (\<lambda>(k, v). (CanonicalStateKey k, v))
     (filter (\<lambda>(k, v). \<not> is_memory_key k \<and> (IsByteStateKey (CanonicalStateKey k) \<or> 8 < length v)) kvs)"

definition memory_entries :: "(string \<times> u8 list) list \<Rightarrow> (u64 \<times> u8 list) list" where
  "memory_entries kvs = map (\<lambda>(k, v). (memory_address k, v)) (filter (\<lambda>(k, v). is_memory_key k) kvs)"

definition put_all :: "(string \<times> 'v) list \<Rightarrow> (string, 'v) omap \<Rightarrow> (string, 'v) omap" where
  "put_all kvs m = fold (\<lambda>(k, v). omap_put k v) kvs m"

definition valid_keys :: "string list \<Rightarrow> bool" where
  "valid_keys ks \<longleftrightarrow> list_all (\<lambda>k. \<not> isl (ParseMemoryAddressKey k)) ks"

definition apply_values :: "(string \<times> u8 list) list \<Rightarrow> Target \<Rightarrow> Target" where
  "apply_values kvs t = t\<lparr>
     scalars := put_all (scalar_entries kvs) (scalars t),
     bytes_map := put_all (byte_entries kvs) (bytes_map t),
     input_memory := map_option (\<lambda>m. m @ map (\<lambda>(a, v).
        \<lparr>cell_address = a, cell_bytes = v, permissions = 0\<rparr>) (memory_entries kvs)) (input_memory t),
     output_memory := (if input_memory t = None then map_option (\<lambda>m. m @ map (\<lambda>(a, v).
        \<lparr>exp_address = a, exp_bytes = v, exp_mask = []\<rparr>) (memory_entries kvs)) (output_memory t)
        else output_memory t)\<rparr>"

lemmas entries_defs = scalar_entries_def byte_entries_def memory_entries_def put_all_def

lemma apply_values_Nil: "apply_values [] t = t"
  by (auto simp: apply_values_def entries_defs option.map_ident)

lemma AddStateBytes_eq:
  "AddStateBytes k v t = Inr (t\<lparr>
     scalars := (if v \<noteq> [] \<and> length v \<le> 8 then omap_put (CanonicalStateKey k) (le_word v) (scalars t)
                 else scalars t),
     bytes_map := (if IsByteStateKey (CanonicalStateKey k) \<or> 8 < length v
                 then omap_put (CanonicalStateKey k) v (bytes_map t) else bytes_map t)\<rparr>)"
  by (auto simp: AddStateBytes_def Let_def ReadLittleEndianScalar_total)

lemma AddPooledValue_eq:
  assumes "input_memory t \<noteq> None \<or> output_memory t \<noteq> None"
  shows "AddPooledValue k v t =
    (case ParseMemoryAddressKey k of Inl e \<Rightarrow> Inl e | Inr _ \<Rightarrow> Inr (apply_values [(k, v)] t))"
proof (cases "ParseMemoryAddressKey k")
  case (Inr m)
  then show ?thesis
    using assms
    by (cases m; cases "input_memory t"; cases "output_memory t")
       (auto simp: AddPooledValue_def AddStateBytes_eq apply_values_def entries_defs is_memory_key_def
         memory_address_def AddMemoryInput_def AddMemoryOutput_def)
qed (simp add: AddPooledValue_def)

lemma apply_values_Cons: "apply_values (kv # kvs) t = apply_values kvs (apply_values [kv] t)"
  by (cases kv; cases "input_memory t"; cases "output_memory t")
     (simp_all add: apply_values_def entries_defs)

lemma apply_values_targets:
  "input_memory (apply_values kvs t) = None \<longleftrightarrow> input_memory t = None"
  "output_memory (apply_values kvs t) = None \<longleftrightarrow> output_memory t = None"
  by (auto simp: apply_values_def)

lemma res_fold_pooled:
  assumes "input_memory t \<noteq> None \<or> output_memory t \<noteq> None" "valid_keys (map fst kvs)"
  shows "res_fold (\<lambda>t kv. AddPooledValue (fst kv) (snd kv) t) t kvs = Inr (apply_values kvs t)"
  using assms
proof (induction kvs arbitrary: t)
  case (Cons kv kvs)
  obtain m where "ParseMemoryAddressKey (fst kv) = Inr m"
    using Cons.prems(2) by (cases "ParseMemoryAddressKey (fst kv)") (auto simp: valid_keys_def)
  then have "AddPooledValue (fst kv) (snd kv) t = Inr (apply_values [kv] t)"
    using AddPooledValue_eq [OF Cons.prems(1)] by simp
  moreover have "res_fold (\<lambda>t kv. AddPooledValue (fst kv) (snd kv) t) (apply_values [kv] t) kvs =
      Inr (apply_values kvs (apply_values [kv] t))"
    using Cons.prems by (intro Cons.IH) (simp_all add: apply_values_targets valid_keys_def)
  ultimately show ?case by (simp add: apply_values_Cons [of kv kvs])
qed (simp add: apply_values_Nil)

lemma ApplySchemaValues_eq:
  assumes "length schema = length is" "list_all (\<lambda>i. i < length pool) is" "valid_keys schema"
    and "input_memory t \<noteq> None \<or> output_memory t \<noteq> None"
  shows "ApplySchemaValues schema is pool t = Inr (apply_values (zip schema (map (nth pool) is)) t)"
proof -
  let ?kvs = "zip schema (map (nth pool) is)"
  have kvs: "?kvs = map (\<lambda>i. (schema ! i, pool ! (is ! i))) [0..<length schema]"
    using assms(1) by (auto intro: nth_equalityI)
  have "res_fold (ApplySchemaValues_step schema is pool) t [0..<length schema] =
      res_fold (\<lambda>t i. AddPooledValue (schema ! i) (pool ! (is ! i)) t) t [0..<length schema]"
    using assms(1,2) by (intro res_fold_cong) (auto simp: ApplySchemaValues_step_def list_all_length)
  also have "\<dots> = res_fold (\<lambda>t kv. AddPooledValue (fst kv) (snd kv) t) t ?kvs"
    by (simp add: kvs res_fold_map)
  also have "\<dots> = Inr (apply_values ?kvs t)"
    using assms(1,3,4) by (intro res_fold_pooled) auto
  finally show ?thesis using assms(1) by (simp add: ApplySchemaValues_def)
qed

lemma put_all_find: "omap_inv m \<Longrightarrow> map_of (put_all kvs m) = map_of m ++ map_of (rev kvs)"
  unfolding put_all_def by (rule omap.find_fold)

lemma put_all_inv: "omap_inv m \<Longrightarrow> omap_inv (put_all kvs m)"
  unfolding put_all_def by (rule omap.inv_fold)

text \<open>
  C34. What a state row stores: given indices into the pool, a schema of readable keys and the
  input memory as destination, every register key ends with the value of its last entry (as
  a little-endian scalar when it has 1 to 8 bytes, as bytes when it is a vector, MMX or x87
  register or has more than 8 bytes), the memory entries are appended in order, and the
  destination of the other direction is left alone.
\<close>

theorem apply_schema_values_spec:
  assumes "length schema = length indices" "list_all (\<lambda>i. i < length pool) indices"
    and "valid_keys schema" "omap_inv (scalars t)" "omap_inv (bytes_map t)" "input_memory t = Some cells"
  shows "\<exists>t'. ApplySchemaValues schema indices pool t = Inr t' \<and>
    (let kvs = zip schema (map (nth pool) indices) in
       map_of (scalars t') = map_of (scalars t) ++ map_of (rev (scalar_entries kvs)) \<and>
       map_of (bytes_map t') = map_of (bytes_map t) ++ map_of (rev (byte_entries kvs)) \<and>
       omap_inv (scalars t') \<and> omap_inv (bytes_map t') \<and>
       map (\<lambda>c. (cell_address c, cell_bytes c)) (the (input_memory t')) =
         map (\<lambda>c. (cell_address c, cell_bytes c)) cells @ memory_entries kvs \<and>
       output_memory t' = output_memory t)"
proof -
  have "ApplySchemaValues schema indices pool t =
      Inr (apply_values (zip schema (map (nth pool) indices)) t)"
    using assms by (intro ApplySchemaValues_eq) auto
  then show ?thesis
    using assms(4-6)
    by (auto simp: apply_values_def put_all_find put_all_inv comp_def split_def)
qed

theorem apply_schema_values_spec_witness:
  "\<exists>t'. ApplySchemaValues [''RAX'', ''xmm1'', ''mem[0x10]'', ''rax''] [0, 1, 0, 2] [[1, 2], [3], [4]]
      \<lparr>scalars = [], bytes_map = [], input_memory = Some [], output_memory = None\<rparr> = Inr t' \<and>
    map_of (scalars t') ''rax'' = Some 4 \<and> output_memory t' = None"
proof -
  have e: "map_of (rev (scalar_entries (zip [''RAX'', ''xmm1'', ''mem[0x10]'', ''rax'']
      (map (nth [[1, 2], [3], [4]]) [0, 1, 0, 2])))) ''rax'' = Some 4" by code_simp
  have "valid_keys [''RAX'', ''xmm1'', ''mem[0x10]'', ''rax'']" by code_simp
  from apply_schema_values_spec [OF _ _ this, of "[0, 1, 0, 2]" "[[1, 2], [3], [4]]"
      "\<lparr>scalars = [], bytes_map = [], input_memory = Some [], output_memory = None\<rparr>" "[]"] e
  show ?thesis by (auto simp: Let_def map_add_def)
qed

end
