(* ===== verification/Options.thy ===== *)
theory Options
  imports Report Parser
begin

text \<open>
  The command line of \<^verbatim>\<open>src/src/tester_main.cpp\<close>: \<open>Options\<close>, \<open>SplitCsv\<close>, \<open>AddInputDirectory\<close>
  and \<open>ParseOptions\<close>. A \<open>std::set\<close> that is only asked for membership is a set. A directory of the
  file system is the parameter \<open>dirs\<close>: its entries, each with what \<open>std::filesystem\<close> says of it,
  or the text of the exception that iterating it throws.
\<close>

record Options =
  inputs :: "string list"
  input_dirs :: "string list"
  mnemonics :: "string set"
  opcodes :: "string set"
  limit_states :: u64
  limit_instructions :: u64
  report_jsonl :: string
  report_skips_jsonl :: string
  print_instructions :: bool
  execute :: bool
  stop_on_first_fail :: bool
  self_test :: bool
  show_help :: bool

definition default_options :: Options where
  "default_options = \<lparr>inputs = [], input_dirs = [], mnemonics = {}, opcodes = {}, limit_states = 0,
     limit_instructions = 0, report_jsonl = [], report_skips_jsonl = [], print_instructions = False,
     execute = False, stop_on_first_fail = False, self_test = False, show_help = False\<rparr>"

definition keep_part :: "string \<Rightarrow> string list \<Rightarrow> string list" where
  "keep_part part parts = (if part \<noteq> [] then parts @ [part] else parts)"

function SplitCsv_loop :: "string \<Rightarrow> nat \<Rightarrow> string list \<Rightarrow> string list" where
  "SplitCsv_loop text start parts =
     (if start \<le> length text then
        (case str_find text CHR '','' start of
           None \<Rightarrow> keep_part (Trim (drop start text)) parts
         | Some pos \<Rightarrow> SplitCsv_loop text (pos + 1) (keep_part (Trim (substr text start (pos - start))) parts))
      else parts)"
  by pat_completeness auto
termination
  by (relation "measure (\<lambda>(text, start, parts). length text + 1 - start)") (auto dest: str_find_Some(1,2))

declare SplitCsv_loop.simps [simp del]

definition SplitCsv :: "string \<Rightarrow> string list" where
  "SplitCsv text = SplitCsv_loop text 0 []"

record DirEntry =
  entry_path :: string
  entry_is_regular_file :: bool
  entry_extension :: string
  entry_stem :: string

definition AddInputDirectory :: "(string \<Rightarrow> string + DirEntry list) \<Rightarrow> Options \<Rightarrow> string \<Rightarrow> Options res" where
  "AddInputDirectory dirs options dir =
     (case dirs dir of
        Inl message \<Rightarrow> Inl (RuntimeError message)
      | Inr entries \<Rightarrow>
          let files = map entry_path (filter (\<lambda>entry.
                entry_is_regular_file entry \<and> entry_extension entry = ''.txt'' \<and>
                (mnemonics options = {} \<or> ToLower (entry_stem entry) \<in> mnemonics options)) entries)
          in Inr (options\<lparr>inputs := inputs options @ sort files\<rparr>))"

definition require_value :: "string \<Rightarrow> string list \<Rightarrow> (string \<times> string list) res" where
  "require_value name args =
     (case args of [] \<Rightarrow> throw_runtime (''missing value for '' @ name) | v # rest \<Rightarrow> Inr (v, rest))"

lemma require_value_Inr: "require_value name args = Inr (v, rest) \<Longrightarrow> length rest < length args"
  by (auto simp: require_value_def throw_runtime_def split: list.splits)

function parse_args :: "string list \<Rightarrow> Options \<Rightarrow> Options res" where
  "parse_args [] options = Inr options"
| "parse_args (arg # args) options =
     (if arg = ''--help'' \<or> arg = ''-h'' then parse_args args (options\<lparr>show_help := True\<rparr>)
      else if arg = ''--self-test'' then parse_args args (options\<lparr>self_test := True\<rparr>)
      else if arg = ''--input'' then res_bind (require_value arg args) (\<lambda>(v, rest).
        parse_args rest (options\<lparr>inputs := inputs options @ [v]\<rparr>))
      else if arg = ''--input-dir'' then res_bind (require_value arg args) (\<lambda>(v, rest).
        parse_args rest (options\<lparr>input_dirs := input_dirs options @ [v]\<rparr>))
      else if arg = ''--mnemonic'' then res_bind (require_value arg args) (\<lambda>(v, rest).
        parse_args rest (options\<lparr>mnemonics := mnemonics options \<union> set (map ToLower (SplitCsv v))\<rparr>))
      else if arg = ''--opcode'' then res_bind (require_value arg args) (\<lambda>(v, rest).
        parse_args rest (options\<lparr>opcodes := opcodes options \<union> set (map ToUpper (SplitCsv v))\<rparr>))
      else if arg = ''--limit-states'' then res_bind (require_value arg args) (\<lambda>(v, rest).
        res_bind (stoull v 10) (\<lambda>(n, _). parse_args rest (options\<lparr>limit_states := n\<rparr>)))
      else if arg = ''--limit-instructions'' then res_bind (require_value arg args) (\<lambda>(v, rest).
        res_bind (stoull v 10) (\<lambda>(n, _). parse_args rest (options\<lparr>limit_instructions := n\<rparr>)))
      else if arg = ''--report-jsonl'' then res_bind (require_value arg args) (\<lambda>(v, rest).
        parse_args rest (options\<lparr>report_jsonl := v\<rparr>))
      else if arg = ''--report-skips-jsonl'' then res_bind (require_value arg args) (\<lambda>(v, rest).
        parse_args rest (options\<lparr>report_skips_jsonl := v\<rparr>))
      else if arg = ''--print-instructions'' then parse_args args (options\<lparr>print_instructions := True\<rparr>)
      else if arg = ''--execute'' then parse_args args (options\<lparr>execute := True\<rparr>)
      else if arg = ''--stop-on-first-fail'' then parse_args args (options\<lparr>stop_on_first_fail := True\<rparr>)
      else if arg \<noteq> [] \<and> arg ! 0 = CHR ''-'' then throw_runtime (''unknown option: '' @ arg)
      else parse_args args (options\<lparr>inputs := inputs options @ [arg]\<rparr>))"
  by pat_completeness auto
termination
  by (relation "measure (\<lambda>(args, options). length args)") (auto dest: require_value_Inr)

text \<open>\<open>args\<close> are the arguments after the name of the program.\<close>

definition ParseOptions :: "(string \<Rightarrow> string + DirEntry list) \<Rightarrow> string list \<Rightarrow> Options res" where
  "ParseOptions dirs args =
     res_bind (parse_args args default_options) (\<lambda>options.
       res_fold (AddInputDirectory dirs) options (input_dirs options))"

end
