(* ===== verification/Self_Test.thy ===== *)
theory Self_Test
  imports Backend Comparator
begin

text \<open>
  \<open>RunSelfTests\<close> of \<^verbatim>\<open>src/src/tester_main.cpp\<close>, the smoke tests behind \<open>--self-test\<close>, in five
  parts: texts and masks, XED, guest memory with the intrinsics, the state bridge, and the Remill
  backend. \<open>Require\<close> throws when its condition fails. A value that a test reads from an intrinsic
  is compared as the code compares it.
\<close>

definition Require :: "bool \<Rightarrow> string \<Rightarrow> unit res" where
  "Require condition message =
     (if \<not> condition then throw_runtime (''self-test failed: '' @ message) else Inr ())"

text \<open>Statements in sequence.\<close>

fun sequence :: "unit res list \<Rightarrow> unit res" where
  "sequence [] = Inr ()"
| "sequence (r # rs) = res_bind r (\<lambda>_. sequence rs)"

definition value_or :: "'a option \<Rightarrow> 'a \<Rightarrow> 'a" where
  "value_or v d = (case v of Some x \<Rightarrow> x | None \<Rightarrow> d)"

definition test_texts :: "unit res" where
  "test_texts =
     res_bind (ParseHexBytes ''04CCCCCCCCCCCCCC'') (\<lambda>rax_bytes.
     res_bind (Require (length rax_bytes = 8) ''rax byte count'') (\<lambda>_.
     res_bind (ReadLittleEndianScalar rax_bytes) (\<lambda>rax.
     res_bind (Require (rax = 0xCCCCCCCCCCCCCC04) ''little-endian register normalization'') (\<lambda>_.
     res_bind (ParseHexBytes ''44000000'') (\<lambda>flag_bytes.
     res_bind (ReadLittleEndianScalar flag_bytes) (\<lambda>flags.
     res_bind (Require (flags = 0x44) ''little-endian flags normalization'') (\<lambda>_.
     res_bind (Require (CanonicalStateKey ''flags'' = ''flag'') ''flags key normalization'') (\<lambda>_.
     res_bind (ParseMemoryAddressKey ''mem[0x2000]'') (\<lambda>a1.
     res_bind (Require (value_or a1 0 = 0x2000) ''memory key bracket syntax'') (\<lambda>_.
     res_bind (ParseMemoryAddressKey ''mem@8192'') (\<lambda>a2.
     sequence
       [Require (value_or a2 0 = 8192) ''memory key at-sign syntax'',
        Require (kUserRFlagsMask AND kFlagDF \<noteq> 0) ''DF is part of user flag mask'',
        Require (kUserRFlagsMask AND kFlagID \<noteq> 0) ''ID is part of user flag mask'']))))))))))) "

text \<open>The XED part gives the metadata of \<open>xor rax, rbx\<close> to the last part.\<close>

definition test_xed :: "('d, 'x) XedLibrary_scheme \<Rightarrow> XedMetadata res" where
  "test_xed xed =
     res_bind (ParseHexBytes ''4831D8'') (\<lambda>xor_bytes.
       let xor_meta = Decode xed 0x1000 xor_bytes in
       res_bind (sequence
         [Require (xed_ok xor_meta) ''XED decodes xor rax, rbx'',
          Require (iclass xor_meta = ''XOR'') ''XED iclass for xor rax, rbx'',
          Require (undefined_flags xor_meta AND kFlagAF \<noteq> 0) ''XED marks AF undefined for XOR'',
          Require (comparable_written_flags xor_meta AND kFlagAF = 0)
            ''undefined AF is excluded from comparable mask'']) (\<lambda>_.
       res_bind (ParseHexBytes ''48F7D1'') (\<lambda>not_bytes.
         let not_meta = Decode xed 0x1000 not_bytes in
         res_bind (sequence
           [Require (xed_ok not_meta) ''XED decodes not rcx'',
            Require (iclass not_meta = ''NOT'') ''XED iclass for not rcx'',
            Require (written_flags not_meta = 0) ''NOT does not write user-mode RFLAGS'']) (\<lambda>_.
         Inr xor_meta))))"

definition test_memory :: "unit res" where
  "test_memory =
     res_bind (GuestMemory_Map new_memory 0x1000 (kPageSize * 2) PermReadWrite) (\<lambda>(ok, memory).
     res_bind (Require ok ''map two pages'') (\<lambda>_.
     res_bind (WriteLittleEndian memory 0x1FFE (0xAABBCCDD :: u32)) (\<lambda>(ok, memory).
     res_bind (Require ok ''cross-page little-endian write'') (\<lambda>_.
     res_bind (ReadLittleEndian memory 0x1FFE) (\<lambda>(ok, cross_page :: u32, memory).
     res_bind (Require ok ''cross-page little-endian read'') (\<lambda>_.
     res_bind (Require (cross_page = 0xAABBCCDD) ''cross-page value roundtrip'') (\<lambda>_.
     res_bind (remill_write_memory_32 (Some memory) 0x1100 0x11223344) (\<lambda>opaque.
     res_bind (remill_read_memory_32 opaque 0x1100) (\<lambda>(v, opaque).
     res_bind (Require (v = 0x11223344) ''Remill memory helpers read back written values'') (\<lambda>_.
     res_bind (remill_compare_exchange_memory opaque 0x1100 (0x11223344 :: u32) 0x55667788) (\<lambda>(expected, opaque).
     res_bind (Require (expected = 0x11223344) ''compare-exchange preserves matching expected'') (\<lambda>_.
     res_bind (remill_read_memory_32 opaque 0x1100) (\<lambda>(v, opaque).
     res_bind (Require (v = 0x55667788) ''compare-exchange writes desired value on match'') (\<lambda>_.
     res_bind (remill_fetch_and FetchAdd opaque 0x1100 (2 :: u32)) (\<lambda>(addend, opaque).
     res_bind (Require (addend = 0x55667788) ''fetch-add returns old value by reference'') (\<lambda>_.
     res_bind (remill_read_memory_32 opaque 0x1100) (\<lambda>(v, opaque).
     res_bind (Require (v = 0x5566778A) ''fetch-add stores updated value'') (\<lambda>_.
     res_bind (remill_read_memory_8 (map_option GuestMemory_ClearStatus opaque) 0x9000) (\<lambda>(_, opaque).
     case opaque of
       None \<Rightarrow> Inl UndefinedBehaviour
     | Some memory \<Rightarrow> sequence
         [Require (\<not> GuestMemory_ok memory) ''unmapped helper read records a memory fault'',
          Require (map_option fault_kind (last_fault memory) = Some FaultUnmapped)
            ''unmapped helper read records unmapped fault kind'']))))))))))))))))))) "

definition set_scalar :: "string \<Rightarrow> u64 \<Rightarrow> string \<Rightarrow> State \<Rightarrow> State res" where
  "set_scalar name v message s =
     (case SetScalarRegister s name v of (ok, s) \<Rightarrow> res_bind (Require ok message) (\<lambda>_. Inr s))"

definition set_bytes :: "nat \<Rightarrow> string \<Rightarrow> u8 list \<Rightarrow> string \<Rightarrow> State \<Rightarrow> State res" where
  "set_bytes nvec name v message s =
     (case SetByteRegister nvec s name v of (ok, s) \<Rightarrow> res_bind (Require ok message) (\<lambda>_. Inr s))"

text \<open>\<open>at\<close> throws when the key is absent.\<close>

definition at :: "(string, 'v) omap \<Rightarrow> string \<Rightarrow> 'v res" where
  "at m key = (case map_of m key of Some v \<Rightarrow> Inr v | None \<Rightarrow> Inl (OutOfRange ''map::at''))"

definition test_state :: "nat \<Rightarrow> State \<Rightarrow> unit res" where
  "test_state nvec stack =
     res_bind (set_scalar ''rax'' 0x1234 ''set rax'' (ResetState stack)) (\<lambda>s.
     res_bind (set_scalar ''r15'' 0x5678 ''set r15'' s) (\<lambda>s.
     res_bind (set_scalar ''rip'' 0x4000001 ''set rip'' s) (\<lambda>s.
     res_bind (sequence
       [Require (GetScalarRegister s ''rax'' = Some 0x1234) ''get rax'',
        Require (GetScalarRegister s ''r15'' = Some 0x5678) ''get r15'',
        Require (GetScalarRegister s ''rip'' = Some 0x4000001) ''get rip'']) (\<lambda>_.
     let user_flags = ucast (kFlagCF OR kFlagPF OR kFlagAF OR kFlagZF OR kFlagSF OR kFlagTF OR kFlagIF OR
           kFlagDF OR kFlagOF OR kFlagIOPL OR kFlagNT OR kFlagRF OR kFlagAC OR kFlagID) :: u64;
         s = SetFlags s user_flags in
     res_bind (Require (GetFlags s AND ucast kUserRFlagsMask = user_flags) ''pack/unpack all user-mode RFLAGS bits'') (\<lambda>_.
     case ApplyInitialState nvec s [(''flag'', ucast (kFlagCF OR kFlagDF)), (''rax'', 0xAAAAAAAAAAAAAAAA)] []
            (Some []) of (ok, s, _) \<Rightarrow>
     res_bind (Require ok ''apply sparse initial state'') (\<lambda>_.
     let snapshot = SnapshotState s [''rax'', ''flag''] in
     res_bind (at snapshot ''rax'') (\<lambda>rax.
     res_bind (Require (rax = 0xAAAAAAAAAAAAAAAA) ''snapshot rax'') (\<lambda>_.
     res_bind (at snapshot ''flag'') (\<lambda>flag.
     res_bind (Require (flag AND ucast (kFlagCF OR kFlagDF) = ucast (kFlagCF OR kFlagDF)) ''snapshot flags'') (\<lambda>_.
     let xmm_value = map of_nat [0..<16] in
     res_bind (set_bytes nvec ''xmm5'' xmm_value ''set xmm5 bytes'' s) (\<lambda>s.
     res_bind (Require (GetByteRegister nvec s ''xmm5'' = Some xmm_value) ''get xmm5 bytes'') (\<lambda>_.
     res_bind (at (SnapshotBytes nvec s [''xmm5'']) ''xmm5'') (\<lambda>xmm5.
     res_bind (Require (xmm5 = xmm_value) ''snapshot xmm5 bytes'') (\<lambda>_.
     let mm_value = [0x10, 0x20, 0x30, 0x40, 0x50, 0x60, 0x70, 0x80] in
     res_bind (set_bytes nvec ''mm3'' mm_value ''set mm3 bytes'' s) (\<lambda>s.
     res_bind (Require (GetByteRegister nvec s ''mm3'' = Some mm_value) ''get mm3 bytes'') (\<lambda>_.
     res_bind (at (SnapshotBytes nvec s [''mm3'']) ''mm3'') (\<lambda>mm3.
     Require (mm3 = mm_value) ''snapshot mm3 bytes'')))))))))))))))))"

definition xor_row :: ExpectationRow where
  "xor_row = default_row\<lparr>row_address := 0x4000001, row_opcode := ''4831D8'', row_instruction := ''xor rax, rbx'',
     initial_state := [(''flag'', 0), (''rax'', 0xFF), (''rbx'', 0x0F)]\<rparr>"

definition not_mem_row :: ExpectationRow where
  "not_mem_row = default_row\<lparr>row_address := 0x4001000, row_opcode := ''48F710'',
     row_instruction := ''not qword ptr [rax]'', initial_state := [(''flag'', 0), (''rax'', 0x2000)],
     initial_memory := [\<lparr>cell_address = 0x2000, cell_bytes = [0xFF, 0, 0xFF, 0, 0xFF, 0, 0xFF, 0],
       permissions = PermReadWrite\<rparr>],
     expected_memory := [\<lparr>exp_address = 0x2000, exp_bytes = [0, 0xFF, 0, 0xFF, 0, 0xFF, 0, 0xFF],
       exp_mask = []\<rparr>]\<rparr>"

definition test_backend ::
  "('d, 'x) XedLibrary_scheme \<Rightarrow> ('b, 'i, 'w, 'y) RemillLib_scheme \<Rightarrow> nat \<Rightarrow> State \<Rightarrow> XedMetadata \<Rightarrow> 'w \<Rightarrow>
   ('b, 'w) RemillBackend res" where
  "test_backend xed lib nvec stack xor_meta w =
     res_bind (RunCase lib nvec stack (new_backend w) xor_row [''rax'', ''flag'']) (\<lambda>(r, b).
     res_bind (Require (outcome_class r = Normal)
       (value_or (backend_error r) (value_or (exception_detail r) ''Remill smoke failed''))) (\<lambda>_.
     res_bind (at (final_state r) ''rax'') (\<lambda>rax.
     res_bind (Require (rax = 0xF0) ''Remill smoke computes xor rax, rbx'') (\<lambda>_.
     res_bind (at (final_state r) ''flag'') (\<lambda>flag.
     res_bind (Require (flag AND ucast (comparable_written_flags xor_meta) =
         ucast (kFlagPF AND comparable_written_flags xor_meta))
       ''Remill smoke flags match comparable XED-defined XOR flags'') (\<lambda>_.
     res_bind (ParseHexBytes ''48F710'') (\<lambda>bytes.
     let not_mem_meta = Decode xed 0x4001000 bytes in
     res_bind (sequence
       [Require (xed_ok not_mem_meta) ''XED decodes not qword ptr [rax]'',
        Require (memory_operands not_mem_meta \<noteq> []) ''XED reports memory operand for not qword ptr [rax]'']) (\<lambda>_.
     res_bind (RunCase lib nvec stack b not_mem_row []) (\<lambda>(r, b).
     let comparison = CompareExecutionResult nvec not_mem_row not_mem_meta r in
     res_bind (Require (passed comparison)
       (case mismatches comparison of
          [] \<Rightarrow> ''Remill memory smoke failed''
        | m # _ \<Rightarrow> FormatMismatch not_mem_row m)) (\<lambda>_. Inr b))))))))))"

text \<open>The printed text, and what the tests leave of LLVM's and Remill's own state.\<close>

definition RunSelfTests ::
  "('d, 'x) XedLibrary_scheme \<Rightarrow> ('b, 'i, 'w, 'y) RemillLib_scheme \<Rightarrow> nat \<Rightarrow> State \<Rightarrow> 'w \<Rightarrow> (string \<times> 'w) res" where
  "RunSelfTests xed lib nvec stack w =
     res_bind test_texts (\<lambda>_.
     res_bind (test_xed xed) (\<lambda>xor_meta.
     res_bind test_memory (\<lambda>_.
     res_bind (test_state nvec stack) (\<lambda>_.
     res_bind (test_backend xed lib nvec stack xor_meta w) (\<lambda>b.
     Inr (''self-test: ok'' @ [CHR 0x0A], world b))))))"

end
