(* ===== verification/Tester.thy ===== *)
theory Tester
  imports Options Self_Test
begin

text \<open>
  The driver of \<^verbatim>\<open>src/src/tester_main.cpp\<close>: \<open>Run\<close> with its preparation of a batch, its loop over
  files and rows, the summary it prints and the exit code. Everything outside of the program is
  the parameter \<open>env\<close>: the files, which reports can be opened, XED, Remill with LLVM, Remill's
  number of vector registers and the uninitialised \<open>State\<close> on the stack.
\<close>

section \<open>The state of a run\<close>

record Summary =
  sum_files :: u64
  sum_instruction_groups :: u64
  sum_rows :: u64
  selected_rows :: u64
  selected_instruction_groups :: u64
  sum_parse_warnings :: u64
  unique_decodes :: u64
  xed_decode_failures :: u64
  xed_length_mismatches :: u64
  memory_rows_without_oracle :: u64
  execution_passed :: u64
  execution_failed :: u64
  execution_skipped :: u64
  skip_reasons :: "(string, u64) omap"
  rows_by_mnemonic :: "(string, u64) omap"
  groups_by_mnemonic :: "(string, u64) omap"
  undefined_flag_mentions :: "(string, u64) omap"

definition default_summary :: Summary where
  "default_summary = \<lparr>sum_files = 0, sum_instruction_groups = 0, sum_rows = 0, selected_rows = 0,
     selected_instruction_groups = 0, sum_parse_warnings = 0, unique_decodes = 0, xed_decode_failures = 0,
     xed_length_mismatches = 0, memory_rows_without_oracle = 0, execution_passed = 0, execution_failed = 0,
     execution_skipped = 0, skip_reasons = [], rows_by_mnemonic = [], groups_by_mnemonic = [],
     undefined_flag_mentions = []\<rparr>"

record ('b, 'i, 'w, 'd) Environment =
  env_files :: "string \<Rightarrow> string option"
  env_reserve :: "u64 \<Rightarrow> string option"
  env_can_open :: "string \<Rightarrow> bool"
  env_xed :: "'d XedLibrary"
  env_remill :: "('b, 'i, 'w) RemillLib"
  env_num_vec :: nat
  env_stack :: State

text \<open>What a run has written: standard output, standard error and the two reports.\<close>

record Output =
  out_console :: string
  out_errors :: string
  mismatch_report :: "string option"
  skip_report :: "string option"

text \<open>The local variables of \<open>Run\<close>; a \<open>std::set\<close> that is counted is a list without repetition.\<close>

record ('b, 'w) RunState =
  remill_backend :: "('b, 'w) RemillBackend"
  summary :: Summary
  decode_cache :: "(string, XedMetadata) omap"
  selected_groups :: "string list"
  printed_decodes :: "string list"
  run_stop :: bool
  run_output :: Output

definition line :: "string \<Rightarrow> string" where
  "line text = text @ [CHR 0x0A]"

definition print :: "string \<Rightarrow> ('b, 'w) RunState \<Rightarrow> ('b, 'w) RunState" where
  "print text s = s\<lparr>run_output := (run_output s)\<lparr>out_console := out_console (run_output s) @ text\<rparr>\<rparr>"

definition on_summary :: "(Summary \<Rightarrow> Summary) \<Rightarrow> ('b, 'w) RunState \<Rightarrow> ('b, 'w) RunState" where
  "on_summary f s = s\<lparr>summary := f (summary s)\<rparr>"

definition RecordSkip :: "string \<Rightarrow> Summary \<Rightarrow> Summary" where
  "RecordSkip reason totals =
     (let totals = totals\<lparr>execution_skipped := execution_skipped totals + 1\<rparr>
      in totals\<lparr>skip_reasons := omap_incr reason (skip_reasons totals)\<rparr>)"

section \<open>Which rows are selected\<close>

definition matches_filters :: "Options \<Rightarrow> string \<Rightarrow> string \<Rightarrow> bool" where
  "matches_filters options mnemonic opcode \<longleftrightarrow>
     \<not> (mnemonics options \<noteq> {} \<and> mnemonic \<notin> mnemonics options) \<and>
     \<not> (opcodes options \<noteq> {} \<and> opcode \<notin> opcodes options)"

section \<open>Preparing the batch\<close>

record PrepareState =
  batch_rows :: "ExpectationRow list"
  batch_keys :: "string set"
  prepare_selected_groups :: u64
  prepare_selected_rows :: u64
  prepare_stop :: bool

definition header_row :: "ParsedInstructionHeader \<Rightarrow> ExpectationRow" where
  "header_row header = default_row\<lparr>row_instruction_id := parsed_instruction_id header,
     row_address := parsed_address header, row_opcode := parsed_opcode header,
     row_instruction := parsed_instruction header\<rparr>"

definition prepare_header ::
  "'d XedLibrary \<Rightarrow> Options \<Rightarrow> ParsedInstructionHeader \<Rightarrow> PrepareState \<Rightarrow> PrepareState res" where
  "prepare_header xed options header p =
     (if \<not> matches_filters options (FirstToken (parsed_instruction header)) (parsed_opcode header) then Inr p
      else if limit_states options \<noteq> 0 \<and> limit_states options \<le> prepare_selected_rows p
      then Inr (p\<lparr>prepare_stop := True\<rparr>)
      else if limit_instructions options \<noteq> 0 \<and> limit_instructions options \<le> prepare_selected_groups p
      then Inr (p\<lparr>prepare_stop := True\<rparr>)
      else
        let row = header_row header;
            remaining = (if limit_states options = 0 then parsed_row_count header
                         else min (parsed_row_count header) (limit_states options - prepare_selected_rows p));
            p = p\<lparr>prepare_selected_groups := prepare_selected_groups p + 1,
                  prepare_selected_rows := prepare_selected_rows p + remaining\<rparr>
        in res_bind (ParseHexBytes (row_opcode row)) (\<lambda>bytes.
             let metadata = Decode xed (row_address row) bytes in
             res_bind (PreExecutionSkip metadata row False) (\<lambda>skip.
               if skip \<noteq> None then Inr p
               else if iclass metadata \<in> set [''INT'', ''INT3'', ''UD2'', ''SYSCALL'', ''SYSENTER'', ''SYSEXIT'']
               then Inr p
               else if DecodeKey row \<in> batch_keys p then Inr p
               else Inr (p\<lparr>batch_keys := insert (DecodeKey row) (batch_keys p), batch_rows := batch_rows p @ [row]\<rparr>))))"

fun prepare_file ::
  "'d XedLibrary \<Rightarrow> Options \<Rightarrow> ParsedInstructionHeader list \<Rightarrow> PrepareState \<Rightarrow> PrepareState res" where
  "prepare_file xed options [] p = Inr p"
| "prepare_file xed options (header # headers) p =
     res_bind (prepare_header xed options header p) (\<lambda>p.
       if prepare_stop p then Inr p else prepare_file xed options headers p)"

fun prepare_files ::
  "(string \<Rightarrow> string option) \<Rightarrow> 'd XedLibrary \<Rightarrow> Options \<Rightarrow> string list \<Rightarrow> PrepareState \<Rightarrow> PrepareState res" where
  "prepare_files files xed options [] p = Inr p"
| "prepare_files files xed options (path # paths) p =
     (if prepare_stop p then Inr p
      else res_bind (ParseInstructionHeaders files path) (\<lambda>headers.
        res_bind (prepare_file xed options headers p) (\<lambda>p. prepare_files files xed options paths p)))"

definition prepare_batch ::
  "('b, 'i, 'w, 'd) Environment \<Rightarrow> Options \<Rightarrow> ('b, 'w) RemillBackend \<Rightarrow> ('b, 'w) RemillBackend res" where
  "prepare_batch env options b =
     res_bind (prepare_files (env_files env) (env_xed env) options (inputs options)
         \<lparr>batch_rows = [], batch_keys = {}, prepare_selected_groups = 0, prepare_selected_rows = 0,
          prepare_stop = False\<rparr>) (\<lambda>p.
       res_bind (PrepareCases (env_remill env) b (map Some (batch_rows p)) []) (\<lambda>(ok, error, b).
         if \<not> ok then throw_runtime (''failed to prepare Remill batch: '' @ error) else Inr b))"

section \<open>The loop over the rows\<close>

definition WriteSkip :: "string \<Rightarrow> ExpectationRow \<Rightarrow> string \<Rightarrow> string \<Rightarrow> ('b, 'w) RunState \<Rightarrow> ('b, 'w) RunState" where
  "WriteSkip path row reason detail s =
     s\<lparr>run_output := (run_output s)\<lparr>skip_report :=
       WriteSkipJson (skip_report (run_output s)) path row reason detail\<rparr>\<rparr>"

definition skip_row :: "string \<Rightarrow> ExpectationRow \<Rightarrow> string \<Rightarrow> string \<Rightarrow> ('b, 'w) RunState \<Rightarrow> ('b, 'w) RunState" where
  "skip_row path row reason detail s = WriteSkip path row reason detail (on_summary (RecordSkip reason) s)"

text \<open>A group is entered when its key is new; \<open>None\<close> is the break at the limit of groups.\<close>

definition enter_group ::
  "Options \<Rightarrow> string \<Rightarrow> ExpectationRow \<Rightarrow> string \<Rightarrow> ('b, 'w) RunState \<Rightarrow> ('b, 'w) RunState option" where
  "enter_group options path row mnemonic s =
     (let group_key = InstructionGroupKey path row in
      if group_key \<in> set (selected_groups s) then Some s
      else if limit_instructions options \<noteq> 0 \<and> limit_instructions options \<le> of_nat (length (selected_groups s))
      then None
      else Some (on_summary (\<lambda>totals. totals\<lparr>selected_instruction_groups := selected_instruction_groups totals + 1,
                   groups_by_mnemonic := omap_incr mnemonic (groups_by_mnemonic totals)\<rparr>)
             (s\<lparr>selected_groups := selected_groups s @ [group_key]\<rparr>)))"

definition lookup_metadata ::
  "'d XedLibrary \<Rightarrow> ExpectationRow \<Rightarrow> ('b, 'w) RunState \<Rightarrow> (XedMetadata \<times> ('b, 'w) RunState) res" where
  "lookup_metadata xed row s =
     (let key = DecodeKey row in
      case map_of (decode_cache s) key of
        Some metadata \<Rightarrow> Inr (metadata, s)
      | None \<Rightarrow>
          res_bind (ParseHexBytes (row_opcode row)) (\<lambda>bytes.
            let metadata = Decode xed (row_address row) bytes;
                s = s\<lparr>decode_cache := omap_put key metadata (decode_cache s)\<rparr>;
                s = on_summary (\<lambda>totals. totals\<lparr>unique_decodes := unique_decodes totals + 1\<rparr>) s
            in Inr (metadata,
                 if \<not> xed_ok metadata
                 then on_summary (\<lambda>totals. totals\<lparr>xed_decode_failures := xed_decode_failures totals + 1\<rparr>) s
                 else if unat (insn_length metadata) \<noteq> length bytes
                 then on_summary (\<lambda>totals. totals\<lparr>xed_length_mismatches := xed_length_mismatches totals + 1\<rparr>) s
                 else s)))"

definition memory_state_missing :: "XedMetadata \<Rightarrow> ExpectationRow \<Rightarrow> bool" where
  "memory_state_missing metadata row \<longleftrightarrow>
     xed_ok metadata \<and> RequiresMemoryOracle metadata \<and> initial_memory row = []"

definition print_once :: "Options \<Rightarrow> ExpectationRow \<Rightarrow> XedMetadata \<Rightarrow> ('b, 'w) RunState \<Rightarrow> ('b, 'w) RunState" where
  "print_once options row metadata s =
     (if print_instructions options \<and> DecodeKey row \<notin> set (printed_decodes s)
      then print (PrintMetadataLine row metadata) (s\<lparr>printed_decodes := printed_decodes s @ [DecodeKey row]\<rparr>)
      else s)"

definition count_row :: "ExpectationRow \<Rightarrow> string \<Rightarrow> XedMetadata \<Rightarrow> Summary \<Rightarrow> Summary" where
  "count_row row mnemonic metadata totals =
     (let totals = totals\<lparr>selected_rows := selected_rows totals + 1\<rparr>;
          totals = totals\<lparr>rows_by_mnemonic := omap_incr mnemonic (rows_by_mnemonic totals)\<rparr>;
          totals = totals\<lparr>undefined_flag_mentions :=
            fold omap_incr (FlagNamesFromMask (undefined_flags metadata)) (undefined_flag_mentions totals)\<rparr>
      in if memory_state_missing metadata row
         then totals\<lparr>memory_rows_without_oracle := memory_rows_without_oracle totals + 1\<rparr> else totals)"

definition report_mismatch ::
  "string \<Rightarrow> ExpectationRow \<Rightarrow> FieldMismatch \<Rightarrow> ('b, 'w) RunState \<Rightarrow> ('b, 'w) RunState" where
  "report_mismatch path row mismatch s =
     (let out = run_output s;
          out = out\<lparr>out_errors := out_errors out @ line (''mismatch: '' @ FormatMismatch row mismatch)\<rparr>;
          out = out\<lparr>mismatch_report := WriteMismatchJson (mismatch_report out) path row mismatch\<rparr>
      in s\<lparr>run_output := out\<rparr>)"

definition judge_row ::
  "nat \<Rightarrow> Options \<Rightarrow> string \<Rightarrow> ExpectationRow \<Rightarrow> XedMetadata \<Rightarrow> ExecutionResult \<Rightarrow> ('b, 'w) RunState \<Rightarrow>
   ('b, 'w) RunState" where
  "judge_row nvec options path row metadata result s =
     (if outcome_class result = Unsupported
      then skip_row path row (UnsupportedReason result) (UnsupportedDetail result) s
      else let comparison = CompareExecutionResult nvec row metadata result in
        if passed comparison
        then on_summary (\<lambda>totals. totals\<lparr>execution_passed := execution_passed totals + 1\<rparr>) s
        else
          let s = on_summary (\<lambda>totals. totals\<lparr>execution_failed := execution_failed totals + 1\<rparr>) s;
              s = fold (report_mismatch path row) (mismatches comparison) s
          in if stop_on_first_fail options then s\<lparr>run_stop := True\<rparr> else s)"

definition execute_selected ::
  "('b, 'i, 'w, 'd) Environment \<Rightarrow> Options \<Rightarrow> string \<Rightarrow> ExpectationRow \<Rightarrow> XedMetadata \<Rightarrow> ('b, 'w) RunState \<Rightarrow>
   ('b, 'w) RunState res" where
  "execute_selected env options path row metadata s =
     res_bind (PreExecutionSkip metadata row (memory_state_missing metadata row)) (\<lambda>skip.
       case skip of
         Some info \<Rightarrow> Inr (skip_row path row (skip_reason info) (skip_detail info) s)
       | None \<Rightarrow>
           let final_state_keys = (case expected_final_state row of Some state \<Rightarrow> map fst state | None \<Rightarrow> []) in
           res_bind (RunCase (env_remill env) (env_num_vec env) (env_stack env) (remill_backend s) row final_state_keys)
             (\<lambda>(result, b).
               Inr (judge_row (env_num_vec env) options path row metadata result (s\<lparr>remill_backend := b\<rparr>))))"

definition process_row ::
  "('b, 'i, 'w, 'd) Environment \<Rightarrow> Options \<Rightarrow> string \<Rightarrow> ExpectationRow \<Rightarrow> ('b, 'w) RunState \<Rightarrow> ('b, 'w) RunState res" where
  "process_row env options path row s =
     (let mnemonic = FirstToken (row_instruction row) in
      if \<not> matches_filters options mnemonic (row_opcode row) then Inr s
      else if limit_states options \<noteq> 0 \<and> limit_states options \<le> selected_rows (summary s)
      then Inr (s\<lparr>run_stop := True\<rparr>)
      else case enter_group options path row mnemonic s of
        None \<Rightarrow> Inr (s\<lparr>run_stop := True\<rparr>)
      | Some s \<Rightarrow>
          res_bind (lookup_metadata (env_xed env) row s) (\<lambda>(metadata, s).
            let s = print_once options row metadata s;
                s = on_summary (count_row row mnemonic metadata) s
            in if execute options then execute_selected env options path row metadata s else Inr s))"

fun process_rows ::
  "('b, 'i, 'w, 'd) Environment \<Rightarrow> Options \<Rightarrow> string \<Rightarrow> ExpectationRow list \<Rightarrow> ('b, 'w) RunState \<Rightarrow>
   ('b, 'w) RunState res" where
  "process_rows env options path [] s = Inr s"
| "process_rows env options path (row # rest) s =
     res_bind (process_row env options path row s) (\<lambda>s.
       if run_stop s then Inr s else process_rows env options path rest s)"

fun process_files ::
  "('b, 'i, 'w, 'd) Environment \<Rightarrow> Options \<Rightarrow> string list \<Rightarrow> ('b, 'w) RunState \<Rightarrow> ('b, 'w) RunState res" where
  "process_files env options [] s = Inr s"
| "process_files env options (path # paths) s =
     (if run_stop s then Inr s
      else res_bind (ParseFile (env_files env) (env_reserve env) path) (\<lambda>corpus.
        let s = on_summary (\<lambda>totals. totals\<lparr>sum_files := sum_files totals + 1,
              sum_instruction_groups := sum_instruction_groups totals + instruction_groups corpus,
              sum_rows := sum_rows totals + of_nat (length (rows corpus)),
              sum_parse_warnings := sum_parse_warnings totals + parse_warnings corpus\<rparr>) s
        in res_bind (process_rows env options path (rows corpus) s) (\<lambda>s. process_files env options paths s)))"

section \<open>The end of a run\<close>

definition counter_line :: "string \<Rightarrow> u64 \<Rightarrow> string" where
  "counter_line name v = line (''summary.'' @ name @ ''='' @ to_string v)"

definition counters :: "string \<Rightarrow> (string, u64) omap \<Rightarrow> string" where
  "counters name m =
     (if m = [] then [] else line (name @ concat (map (\<lambda>(k, n). '' '' @ k @ ''='' @ to_string n) m)))"

definition summary_text :: "Options \<Rightarrow> Summary \<Rightarrow> string" where
  "summary_text options totals =
     counter_line ''files'' (sum_files totals) @
     counter_line ''instruction_groups'' (sum_instruction_groups totals) @
     counter_line ''rows'' (sum_rows totals) @
     counter_line ''selected_instruction_groups'' (selected_instruction_groups totals) @
     counter_line ''selected_rows'' (selected_rows totals) @
     counter_line ''unique_decodes'' (unique_decodes totals) @
     counter_line ''xed_decode_failures'' (xed_decode_failures totals) @
     counter_line ''xed_length_mismatches'' (xed_length_mismatches totals) @
     counter_line ''memory_rows_without_oracle'' (memory_rows_without_oracle totals) @
     counter_line ''parse_warnings'' (sum_parse_warnings totals) @
     (if execute options
      then counter_line ''execution_passed'' (execution_passed totals) @
        counter_line ''execution_failed'' (execution_failed totals) @
        counter_line ''execution_skipped'' (execution_skipped totals) @
        concat (map (\<lambda>(reason, n). line (''summary.skip_reason reason='' @ in_quotes (JsonEscape reason) @
          '' count='' @ to_string n)) (skip_reasons totals))
      else []) @
     counters ''summary.rows_by_mnemonic:'' (rows_by_mnemonic totals) @
     counters ''summary.undefined_flag_mentions:'' (undefined_flag_mentions totals)"

definition exit_code :: "Summary \<Rightarrow> int" where
  "exit_code totals =
     (if xed_decode_failures totals = 0 \<and> xed_length_mismatches totals = 0 \<and> execution_failed totals = 0
      then 0 else 1)"

definition open_report :: "(string \<Rightarrow> bool) \<Rightarrow> string \<Rightarrow> string \<Rightarrow> string option res" where
  "open_report can_open name path =
     (if path = [] then Inr None
      else if \<not> can_open path then throw_runtime (''failed to open '' @ name @ '' report: '' @ path)
      else Inr (Some []))"

definition initial_run :: "'w \<Rightarrow> Output \<Rightarrow> ('b, 'w) RunState" where
  "initial_run w out = \<lparr>remill_backend = new_backend w, summary = default_summary, decode_cache = [],
     selected_groups = [], printed_decodes = [], run_stop = False, run_output = out\<rparr>"

text \<open>From the opened reports to the state after the last row.\<close>

definition run_rows ::
  "('b, 'i, 'w, 'd) Environment \<Rightarrow> Options \<Rightarrow> 'w \<Rightarrow> Output \<Rightarrow> ('b, 'w) RunState res" where
  "run_rows env options w out =
     (let s = initial_run w out in
      res_bind (if execute options then prepare_batch env options (remill_backend s) else Inr (remill_backend s)) (\<lambda>b.
        process_files env options (inputs options) (s\<lparr>remill_backend := b\<rparr>)))"

definition Run :: "('b, 'i, 'w, 'd) Environment \<Rightarrow> Options \<Rightarrow> 'w \<Rightarrow> (int \<times> Output) res" where
  "Run env options w =
     (let out = \<lparr>out_console = [], out_errors = [], mismatch_report = None, skip_report = None\<rparr> in
      if show_help options then Inr (0, out\<lparr>out_console := PrintUsage ''remill-tester''\<rparr>)
      else res_bind (if self_test options
                     then RunSelfTests (env_xed env) (env_remill env) (env_num_vec env) (env_stack env) w
                     else Inr ([], w)) (\<lambda>(text, w).
        let out = out\<lparr>out_console := text\<rparr> in
        if self_test options \<and> inputs options = [] then Inr (0, out)
        else if inputs options = [] then Inr (2, out\<lparr>out_console := text @ PrintUsage ''remill-tester''\<rparr>)
        else
          res_bind (open_report (env_can_open env) ''mismatch'' (report_jsonl options)) (\<lambda>report1.
          res_bind (open_report (env_can_open env) ''skip'' (report_skips_jsonl options)) (\<lambda>report2.
          res_bind (run_rows env options w (out\<lparr>mismatch_report := report1, skip_report := report2\<rparr>)) (\<lambda>s.
            let s = print (summary_text options (summary s)) s in
            Inr (exit_code (summary s), run_output s))))))"

text \<open>
  \<open>main\<close>: the exit code, with the output of a run that returns, or else the line that the
  handler of exceptions adds to standard error. What a run wrote before its exception stays
  written and is not part of this value.
\<close>

definition tester_main ::
  "('b, 'i, 'w, 'd) Environment \<Rightarrow> (string \<Rightarrow> string + DirEntry list) \<Rightarrow> string list \<Rightarrow> 'w \<Rightarrow>
   (int \<times> (string + Output)) res" where
  "tester_main env dirs args w =
     (case res_bind (ParseOptions dirs args) (\<lambda>options. Run env options w) of
        Inr (code, out) \<Rightarrow> Inr (code, Inr out)
      | Inl e \<Rightarrow> if is_exception e then Inr (1, Inl (line (''error: '' @ what e))) else Inl e)"

section \<open>The books of a run\<close>

text \<open>The sum of the counters of a map.\<close>

definition total :: "(string, u64) omap \<Rightarrow> u64" where
  "total m = sum_list (map snd m)"

lemma total_Nil [simp]: "total [] = 0"
  by (simp add: total_def)

lemma omap_inv_Cons: "omap_inv (e # es) \<longleftrightarrow> omap_inv es \<and> (\<forall>x \<in> set es. fst e < fst x)"
  by (auto simp: omap_inv_def)

lemma map_of_smaller: "\<forall>x \<in> set es. k < fst x \<Longrightarrow> map_of es (k :: 'a::linorder) = None"
  by (induction es) auto

lemma total_omap_put:
  "omap_inv m \<Longrightarrow> total (omap_put k v m) = total m - (case map_of m k of None \<Rightarrow> 0 | Some n \<Rightarrow> n) + v"
proof (induction k v m rule: omap_put.induct)
  case (2 k v e es)
  from "2.prems" have inv: "omap_inv es" "\<forall>x \<in> set es. fst e < fst x" by (simp_all add: omap_inv_Cons)
  consider "k < fst e" | "fst e < k" | "k = fst e" by fastforce
  then show ?case
  proof cases
    case 1
    with inv(2) have "\<forall>x \<in> set es. k < fst x" by (blast intro: less_trans)
    with 1 have "map_of (e # es) k = None" using map_of_smaller [of es k] by auto
    with 1 show ?thesis by (simp add: total_def)
  next
    case 2
    with "2.IH"(1) inv(1) show ?thesis by (auto simp: total_def split: option.splits)
  next
    case 3
    then show ?thesis by (simp add: total_def)
  qed
qed (simp add: total_def)

lemma total_omap_incr [simp]: "omap_inv m \<Longrightarrow> total (omap_incr k m) = total m + 1"
  by (simp add: omap_incr_def total_omap_put split: option.split)

lemma omap_inv_incr [simp]: "omap_inv m \<Longrightarrow> omap_inv (omap_incr k m)"
  by (simp add: omap_incr_def omap_inv_put)

lemma length_omap_put_new: "map_of m k = None \<Longrightarrow> length (omap_put k v m) = Suc (length m)"
  by (induction k v m rule: omap_put.induct) (auto split: if_splits)

lemma failed_omap_put_new:
  "map_of m k = None \<Longrightarrow> length (filter (\<lambda>e. P (snd e)) (omap_put k v m)) =
     length (filter (\<lambda>e. P (snd e)) m) + (if P v then 1 else 0)"
  by (induction k v m rule: omap_put.induct) (auto split: if_splits)

text \<open>
  \<open>run_inv\<close>: the counters agree with each other and with the tables of the run, the limits hold,
  and the backend is one that its own operations reach.
\<close>

definition books_balance :: "Options \<Rightarrow> Summary \<Rightarrow> bool" where
  "books_balance options t \<longleftrightarrow>
     total (rows_by_mnemonic t) = selected_rows t \<and>
     total (skip_reasons t) = execution_skipped t \<and>
     total (groups_by_mnemonic t) = selected_instruction_groups t \<and>
     execution_passed t + execution_failed t + execution_skipped t =
       (if execute options then selected_rows t else 0) \<and>
     (limit_states options = 0 \<or> selected_rows t \<le> limit_states options) \<and>
     (limit_instructions options = 0 \<or> selected_instruction_groups t \<le> limit_instructions options)"

definition tables_balance :: "('b, 'w) RunState \<Rightarrow> bool" where
  "tables_balance s \<longleftrightarrow>
     selected_instruction_groups (summary s) = of_nat (length (selected_groups s)) \<and> distinct (selected_groups s) \<and>
     unique_decodes (summary s) = of_nat (length (decode_cache s)) \<and>
     xed_decode_failures (summary s) = of_nat (length (filter (\<lambda>e. \<not> xed_ok (snd e)) (decode_cache s)))"

definition maps_ordered :: "Summary \<Rightarrow> bool" where
  "maps_ordered t \<longleftrightarrow> omap_inv (rows_by_mnemonic t) \<and> omap_inv (skip_reasons t) \<and> omap_inv (groups_by_mnemonic t)"

definition run_inv :: "('b, 'i, 'w, 'd) Environment \<Rightarrow> Options \<Rightarrow> 'w \<Rightarrow> ('b, 'w) RunState \<Rightarrow> bool" where
  "run_inv env options w s \<longleftrightarrow> books_balance options (summary s) \<and> tables_balance s \<and> maps_ordered (summary s) \<and>
     (\<exists>n. backend_runs (env_remill env) (new_backend w) n (remill_backend s))"

lemmas run_inv_defs = run_inv_def books_balance_def tables_balance_def maps_ordered_def

lemma run_inv_output [simp]:
  "run_inv env options w (s\<lparr>run_output := out\<rparr>) = run_inv env options w s"
  "run_inv env options w (s\<lparr>run_stop := b\<rparr>) = run_inv env options w s"
  "run_inv env options w (s\<lparr>printed_decodes := ks\<rparr>) = run_inv env options w s"
  by (simp_all add: run_inv_defs)

lemma enter_group_inv:
  assumes "run_inv env options w s" "enter_group options path row mnemonic s = Some s'"
  shows "run_inv env options w s'" "selected_rows (summary s') = selected_rows (summary s)" "run_stop s' = run_stop s"
proof -
  have le: "limit \<noteq> 0 \<longrightarrow> n < limit \<Longrightarrow> limit = 0 \<or> n + 1 \<le> limit" for n limit :: u64
    by (auto simp: inc_le)
  show "run_inv env options w s'" "selected_rows (summary s') = selected_rows (summary s)" "run_stop s' = run_stop s"
    using assms le [of "limit_instructions options" "of_nat (length (selected_groups s))"]
    by (auto simp: enter_group_def Let_def run_inv_defs on_summary_def not_le split: if_splits)
qed

lemma lookup_metadata_inv:
  assumes inv: "run_inv env options w s" and result: "lookup_metadata xed row s = Inr (metadata, s')"
  shows "run_inv env options w s'" "selected_rows (summary s') = selected_rows (summary s)" "run_stop s' = run_stop s"
proof -
  have "run_inv env options w s' \<and> selected_rows (summary s') = selected_rows (summary s) \<and> run_stop s' = run_stop s"
  proof (cases "map_of (decode_cache s) (DecodeKey row)")
    case (Some m)
    with inv result show ?thesis by (simp add: lookup_metadata_def)
  next
    case None
    note new = length_omap_put_new [OF None] failed_omap_put_new [OF None, where P = "\<lambda>m. \<not> xed_ok m"]
    from None result obtain bytes where "ParseHexBytes (row_opcode row) = Inr bytes"
      by (auto simp: lookup_metadata_def res_simps)
    with None result obtain s1 where s1: "metadata = Decode xed (row_address row) bytes"
      "s1 = on_summary (\<lambda>totals. totals\<lparr>unique_decodes := unique_decodes totals + 1\<rparr>)
          (s\<lparr>decode_cache := omap_put (DecodeKey row) metadata (decode_cache s)\<rparr>)"
      "s' = (if \<not> xed_ok metadata
           then on_summary (\<lambda>totals. totals\<lparr>xed_decode_failures := xed_decode_failures totals + 1\<rparr>) s1
           else if unat (insn_length metadata) \<noteq> length bytes
           then on_summary (\<lambda>totals. totals\<lparr>xed_length_mismatches := xed_length_mismatches totals + 1\<rparr>) s1
           else s1)"
      by (auto simp: lookup_metadata_def Let_def)
    show ?thesis
      using inv s1(2) unfolding s1(3)
      by (cases "xed_ok metadata"; cases "unat (insn_length metadata) = length bytes")
         (auto simp: run_inv_defs on_summary_def new)
  qed
  then show "run_inv env options w s'" "selected_rows (summary s') = selected_rows (summary s)" "run_stop s' = run_stop s"
    by blast+
qed

text \<open>A row that is counted must be judged when rows are executed: \<open>run_owes\<close> is the state between.\<close>

definition run_owes :: "('b, 'i, 'w, 'd) Environment \<Rightarrow> Options \<Rightarrow> 'w \<Rightarrow> ('b, 'w) RunState \<Rightarrow> bool" where
  "run_owes env options w s \<longleftrightarrow> execute options \<and>
     run_inv env options w (on_summary (\<lambda>t. t\<lparr>execution_passed := execution_passed t + 1\<rparr>) s)"

lemma skip_row_inv: "run_owes env options w s \<Longrightarrow> run_inv env options w (skip_row path row reason detail s)"
  by (auto simp: skip_row_def WriteSkip_def run_owes_def run_inv_defs on_summary_def RecordSkip_def Let_def
      ac_simps)

lemma report_mismatch_fields:
  "run_inv env options w (fold (report_mismatch path row) ms s) = run_inv env options w s"
proof (induction ms arbitrary: s)
  case (Cons m ms)
  then show ?case by (simp add: report_mismatch_def Let_def)
qed simp

lemma judge_row_inv: "run_owes env options w s \<Longrightarrow> run_inv env options w (judge_row nvec options path row metadata result s)"
proof -
  assume owes: "run_owes env options w s"
  then have "run_inv env options w (on_summary (\<lambda>t. t\<lparr>execution_failed := execution_failed t + 1\<rparr>) s)"
    by (auto simp: run_owes_def run_inv_defs on_summary_def ac_simps)
  with owes skip_row_inv [OF owes] show ?thesis
    by (simp add: judge_row_def Let_def report_mismatch_fields run_owes_def)
qed

lemma execute_selected_inv:
  assumes owes: "run_owes env options w s" and result: "execute_selected env options path row metadata s = Inr s'"
  shows "run_inv env options w s'"
proof -
  from result obtain skip where skip: "PreExecutionSkip metadata row (memory_state_missing metadata row) = Inr skip"
    by (auto simp: execute_selected_def res_simps)
  show ?thesis
  proof (cases skip)
    case (Some info)
    with result skip skip_row_inv [OF owes] show ?thesis by (auto simp: execute_selected_def)
  next
    case None
    with result skip obtain keys r b where run:
      "RunCase (env_remill env) (env_num_vec env) (env_stack env) (remill_backend s) row keys = Inr (r, b)"
      "s' = judge_row (env_num_vec env) options path row metadata r (s\<lparr>remill_backend := b\<rparr>)"
      by (auto simp: execute_selected_def Let_def res_simps)
    from owes obtain n where "backend_runs (env_remill env) (new_backend w) n (remill_backend s)"
      by (auto simp: run_owes_def run_inv_def on_summary_def)
    from runs_row [OF this run(1)] owes have "run_owes env options w (s\<lparr>remill_backend := b\<rparr>)"
      by (auto simp: run_owes_def run_inv_defs on_summary_def)
    from judge_row_inv [OF this] run(2) show ?thesis by simp
  qed
qed

lemma count_row_fields [simp]:
  "selected_rows (count_row row mnemonic metadata t) = selected_rows t + 1"
  "rows_by_mnemonic (count_row row mnemonic metadata t) = omap_incr mnemonic (rows_by_mnemonic t)"
  "skip_reasons (count_row row mnemonic metadata t) = skip_reasons t"
  "groups_by_mnemonic (count_row row mnemonic metadata t) = groups_by_mnemonic t"
  "execution_passed (count_row row mnemonic metadata t) = execution_passed t"
  "execution_failed (count_row row mnemonic metadata t) = execution_failed t"
  "execution_skipped (count_row row mnemonic metadata t) = execution_skipped t"
  "selected_instruction_groups (count_row row mnemonic metadata t) = selected_instruction_groups t"
  "unique_decodes (count_row row mnemonic metadata t) = unique_decodes t"
  "xed_decode_failures (count_row row mnemonic metadata t) = xed_decode_failures t"
  by (simp_all add: count_row_def Let_def)

lemma count_row_owes:
  assumes "run_inv env options w s" "limit_states options = 0 \<or> selected_rows (summary s) < limit_states options"
  shows "if execute options then run_owes env options w (on_summary (count_row row mnemonic metadata) s)
    else run_inv env options w (on_summary (count_row row mnemonic metadata) s)"
proof -
  have "limit_states options = 0 \<or> selected_rows (summary s) + 1 \<le> limit_states options"
    using assms(2) by (auto simp: inc_le)
  then show ?thesis
    using assms(1) by (auto simp: run_owes_def run_inv_defs on_summary_def ac_simps)
qed

lemma process_row_inv:
  assumes inv: "run_inv env options w s" and result: "process_row env options path row s = Inr s'"
  shows "run_inv env options w s'"
proof -
  define mnemonic where "mnemonic = FirstToken (row_instruction row)"
  show ?thesis
  proof (cases "\<not> matches_filters options mnemonic (row_opcode row) \<or>
      limit_states options \<noteq> 0 \<and> limit_states options \<le> selected_rows (summary s)")
    case True
    with result inv show ?thesis
      by (auto simp: process_row_def Let_def mnemonic_def split: if_splits)
  next
    case False
    then have limit: "limit_states options = 0 \<or> selected_rows (summary s) < limit_states options" by auto
    show ?thesis
    proof (cases "enter_group options path row mnemonic s")
      case None
      with False result inv show ?thesis by (auto simp: process_row_def Let_def mnemonic_def)
    next
      case (Some s1)
      with False result obtain metadata s2 where s2: "lookup_metadata (env_xed env) row s1 = Inr (metadata, s2)"
        and s': "(let s = on_summary (count_row row mnemonic metadata) (print_once options row metadata s2)
          in if execute options then execute_selected env options path row metadata s else Inr s) = Inr s'"
        by (auto simp: process_row_def Let_def mnemonic_def res_simps)
      note s1 = enter_group_inv [OF inv Some]
      note s2 = lookup_metadata_inv [OF s1(1) s2]
      have s3: "run_inv env options w (print_once options row metadata s2)"
        "selected_rows (summary (print_once options row metadata s2)) = selected_rows (summary s)"
        using s1(2) s2(1,2) by (simp_all add: print_once_def print_def)
      from count_row_owes [OF s3(1), of row mnemonic metadata] limit s3(2) s' execute_selected_inv
      show ?thesis by (auto simp: Let_def split: if_splits)
    qed
  qed
qed

lemma process_rows_inv:
  "run_inv env options w s \<Longrightarrow> process_rows env options path rs s = Inr s' \<Longrightarrow> run_inv env options w s'"
proof (induction env options path rs s rule: process_rows.induct)
  case (2 env options path row rest s)
  from "2.prems"(2) obtain s1 where s1: "process_row env options path row s = Inr s1"
    "(if run_stop s1 then Inr s1 else process_rows env options path rest s1) = Inr s'" by (auto simp: res_simps)
  from process_row_inv [OF "2.prems"(1) s1(1)] "2.IH" [OF s1(1)] s1(2) show ?case by (auto split: if_splits)
qed simp

lemma process_files_inv:
  "run_inv env options w s \<Longrightarrow> process_files env options paths s = Inr s' \<Longrightarrow> run_inv env options w s'"
proof (induction env options paths s rule: process_files.induct)
  case (2 env options path paths s)
  show ?case
  proof (cases "run_stop s")
    case True
    with 2 show ?thesis by simp
  next
    case False
    with "2.prems"(2) obtain corpus s1 where parsed: "ParseFile (env_files env) (env_reserve env) path = Inr corpus"
      and s1: "process_rows env options path (rows corpus)
        (on_summary (\<lambda>totals. totals\<lparr>sum_files := sum_files totals + 1,
              sum_instruction_groups := sum_instruction_groups totals + instruction_groups corpus,
              sum_rows := sum_rows totals + of_nat (length (rows corpus)),
              sum_parse_warnings := sum_parse_warnings totals + parse_warnings corpus\<rparr>) s) = Inr s1"
      and rest: "process_files env options paths s1 = Inr s'"
      by (auto simp: Let_def res_simps)
    have "run_inv env options w (on_summary (\<lambda>totals. totals\<lparr>sum_files := sum_files totals + 1,
              sum_instruction_groups := sum_instruction_groups totals + instruction_groups corpus,
              sum_rows := sum_rows totals + of_nat (length (rows corpus)),
              sum_parse_warnings := sum_parse_warnings totals + parse_warnings corpus\<rparr>) s)"
      using "2.prems"(1) by (auto simp: run_inv_defs on_summary_def)
    from process_rows_inv [OF this s1] "2.IH" [OF False parsed refl s1] rest show ?thesis by simp
  qed
qed simp

lemma prepare_batch_runs:
  assumes "prepare_batch env options (new_backend w) = Inr b"
  shows "\<exists>n. backend_runs (env_remill env) (new_backend w) n b"
proof -
  from assms obtain rs e where "PrepareCases (env_remill env) (new_backend w) rs [] = Inr (True, e, b)"
    by (auto simp: prepare_batch_def res_simps split: if_splits)
  from runs_prepare [OF runs_none this] show ?thesis by blast
qed

text \<open>
  C6. The books of a run balance, whatever the files, XED and Remill answer: the counts by
  mnemonic, by skip reason and by group add up to the totals that are printed; every selected row
  of an executing run is counted exactly once as passed, failed or skipped, and without execution
  none is; the limits of rows and instruction groups are never exceeded; every group and every
  decode is counted once; and a run that exits with 0 has no failed row.
\<close>

theorem run_books_balance:
  assumes "run_rows env options w out = Inr s"
  shows "total (rows_by_mnemonic (summary s)) = selected_rows (summary s) \<and>
    total (skip_reasons (summary s)) = execution_skipped (summary s) \<and>
    total (groups_by_mnemonic (summary s)) = selected_instruction_groups (summary s) \<and>
    execution_passed (summary s) + execution_failed (summary s) + execution_skipped (summary s) =
      (if execute options then selected_rows (summary s) else 0) \<and>
    (limit_states options = 0 \<or> selected_rows (summary s) \<le> limit_states options) \<and>
    (limit_instructions options = 0 \<or> selected_instruction_groups (summary s) \<le> limit_instructions options) \<and>
    selected_instruction_groups (summary s) = of_nat (length (selected_groups s)) \<and> distinct (selected_groups s) \<and>
    unique_decodes (summary s) = of_nat (length (decode_cache s)) \<and>
    (if exit_code (summary s) = 0 \<and> execute options
     then execution_passed (summary s) + execution_skipped (summary s) = selected_rows (summary s) else True)"
proof -
  from assms obtain b where b: "b = new_backend w \<or> prepare_batch env options (new_backend w) = Inr b"
    "process_files env options (inputs options) ((initial_run w out)\<lparr>remill_backend := b\<rparr>) = Inr s"
    by (auto simp: run_rows_def Let_def res_simps initial_run_def split: if_splits)
  from b(1) have "\<exists>n. backend_runs (env_remill env) (new_backend w) n b"
    using prepare_batch_runs [of env options w b] runs_none [of "env_remill env" b] by auto
  then have "run_inv env options w ((initial_run w out)\<lparr>remill_backend := b\<rparr>)"
    by (simp add: run_inv_defs initial_run_def default_summary_def)
  from process_files_inv [OF this b(2)] show ?thesis
    by (auto simp: run_inv_defs exit_code_def split: if_splits)
qed

section \<open>A run\<close>

definition demo_env :: "(unit, unit, nat, unit) Environment" where
  "demo_env = \<lparr>env_files = demo_files, env_reserve = (\<lambda>_. None), env_can_open = (\<lambda>_. True), env_xed = demo_xed,
     env_remill = demo_lib, env_num_vec = 32, env_stack = demo_state\<rparr>"

definition demo_options :: Options where
  "demo_options = default_options\<lparr>inputs := [''a''], limit_states := 1, execute := True\<rparr>"

definition no_output :: Output where
  "no_output = \<lparr>out_console = [], out_errors = [], mismatch_report = None, skip_report = Some []\<rparr>"

lemma demo_run_rows:
  "case run_rows demo_env demo_options 0 no_output of Inl _ \<Rightarrow> False
   | Inr s \<Rightarrow> selected_rows (summary s) = 1 \<and> execution_skipped (summary s) = 1"
  by code_simp

theorem run_books_balance_witness:
  "\<exists>s. run_rows demo_env demo_options 0 no_output = Inr s \<and> selected_rows (summary s) \<le> 1 \<and>
     execution_passed (summary s) + execution_failed (summary s) + 1 = selected_rows (summary s)"
proof -
  from demo_run_rows obtain s where s: "run_rows demo_env demo_options 0 no_output = Inr s"
    "execution_skipped (summary s) = 1" by (cases "run_rows demo_env demo_options 0 no_output") auto
  with run_books_balance [OF s(1)] show ?thesis by (auto simp: demo_options_def default_options_def)
qed

end
