(* ===== verification/Outcome.thy ===== *)
theory Outcome
  imports Tester
begin

text \<open>
  What a call of the program can end with. \<open>safe P r\<close> is the postcondition calculus of \<open>res\<close>: an
  exception is allowed, undefined behaviour and an endless loop are not, and a value satisfies
  \<open>P\<close>. Its rules are the collection \<open>safe_intros\<close>, and every function between \<open>main\<close> and the
  components is shown safe by them.
\<close>

section \<open>The calculus\<close>

named_theorems safe_intros

definition safe :: "('a \<Rightarrow> bool) \<Rightarrow> 'a res \<Rightarrow> bool" where
  "safe P r \<longleftrightarrow> (case r of Inl e \<Rightarrow> is_exception e | Inr x \<Rightarrow> P x)"

lemma safe_Inr [simp]: "safe P (Inr x) = P x" "safe P (Inl e) = is_exception e"
  by (simp_all add: safe_def)

lemma safe_throw [simp]: "safe P (throw_runtime m)"
  by (simp add: throw_runtime_def)

lemma safe_bind: "safe Q r \<Longrightarrow> (\<And>x. r = Inr x \<Longrightarrow> Q x \<Longrightarrow> safe P (f x)) \<Longrightarrow> safe P (res_bind r f)"
  by (cases r) simp_all

lemma safe_any: "(\<And>e. r = Inl e \<Longrightarrow> is_exception e) \<Longrightarrow> safe (\<lambda>_. True) r"
  by (cases r) simp_all

lemma safe_then [safe_intros]:
  "safe (\<lambda>_. True) r \<Longrightarrow> (\<And>x. r = Inr x \<Longrightarrow> safe P (f x)) \<Longrightarrow> safe P (res_bind r f)"
  by (cases r) simp_all

lemma safe_pair [safe_intros]: "(\<And>x y. z = (x, y) \<Longrightarrow> safe P (f x y)) \<Longrightarrow> safe P (case z of (x, y) \<Rightarrow> f x y)"
  by (cases z) simp

lemma safe_failure: "safe P r \<Longrightarrow> r = Inl e \<Longrightarrow> is_exception e"
  by simp

lemma safe_weaken: "safe Q r \<Longrightarrow> (\<And>x. Q x \<Longrightarrow> P x) \<Longrightarrow> safe P r"
  by (cases r) simp_all

lemma safe_fold:
  assumes "P s" "\<And>s x. P s \<Longrightarrow> x \<in> set xs \<Longrightarrow> safe P (f s x)"
  shows "safe P (res_fold f s xs)"
  using assms
proof (induction xs arbitrary: s)
  case (Cons x xs)
  have "safe P (f s x)" using Cons.prems by simp
  then show ?case using Cons by (cases "f s x") auto
qed simp

section \<open>Texts\<close>

lemma safe_ParseHexBytes [safe_intros]: "safe (\<lambda>_. True) (ParseHexBytes hex)"
  by (rule safe_any) (rule ParseHexBytes_Inl)

lemma safe_stoull [safe_intros]: "safe (\<lambda>_. True) (stoull text base)"
  by (rule safe_any) (rule stoull_Inl)

lemma safe_ParseMemoryAddressKey [safe_intros]: "safe (\<lambda>_. True) (ParseMemoryAddressKey key)"
  by (rule safe_any) (rule ParseMemoryAddressKey_Inl)

lemma safe_ReadLittleEndianScalar [safe_intros]: "safe (\<lambda>_. True) (ReadLittleEndianScalar bytes)"
  by (simp add: ReadLittleEndianScalar_def)

lemma safe_ParseFile: "safe (\<lambda>_. True) (ParseFile files reserve path)"
proof (rule safe_any)
  fix e assume "ParseFile files reserve path = Inl e"
  moreover have "res_fold (parse_line reserve path) s ls = Inl e \<Longrightarrow> is_exception e" for s ls e
    by (auto dest!: res_fold_Inl parse_line_Inl)
  ultimately show "is_exception e"
    by (auto simp: ParseFile_def res_simps throw_runtime_def split: option.splits if_splits)
qed

lemma header_scan_line_Inl: "header_scan_line path t l = Inl e \<Longrightarrow> is_exception e"
  by (auto simp: header_scan_line_def Let_def res_simps split: if_splits dest: ParseHeader_Inl dest!: located_Inl)

lemma safe_ParseInstructionHeaders: "safe (\<lambda>_. True) (ParseInstructionHeaders files path)"
proof (rule safe_any)
  fix e assume "ParseInstructionHeaders files path = Inl e"
  moreover have "res_fold (header_scan_line path) s ls = Inl e \<Longrightarrow> is_exception e" for s ls e
    by (auto dest!: res_fold_Inl header_scan_line_Inl)
  ultimately show "is_exception e"
    by (auto simp: ParseInstructionHeaders_def res_simps throw_runtime_def split: option.splits if_splits)
qed

lemma safe_PreExecutionSkip [safe_intros]: "safe (\<lambda>_. True) (PreExecutionSkip metadata row missing)"
proof (cases "xed_ok metadata")
  case True
  show ?thesis
    unfolding PreExecutionSkip_def if_not_P [OF not_not [THEN iffD2, OF True]]
    by (rule safe_then [OF safe_ParseHexBytes], unfold safe_Inr, rule TrueI)
next
  case False
  then show ?thesis by (simp add: PreExecutionSkip_def)
qed

section \<open>The command line\<close>

lemma safe_require_value [safe_intros]: "safe (\<lambda>_. True) (require_value name args)"
  by (simp add: require_value_def split: list.split)

lemma safe_value_option:
  assumes "\<And>v rest. require_value name args = Inr (v, rest) \<Longrightarrow> safe P (f v rest)"
  shows "safe P (res_bind (require_value name args) (\<lambda>(v, rest). f v rest))"
  by (rule safe_then [OF safe_require_value]) (auto intro: assms)

lemma safe_if [safe_intros]: "(c \<Longrightarrow> safe P r) \<Longrightarrow> (\<not> c \<Longrightarrow> safe P r') \<Longrightarrow> safe P (if c then r else r')"
  by simp

lemma safe_parse_args: "safe (\<lambda>_. True) (parse_args args options)"
proof (induction args arbitrary: options rule: measure_induct_rule [where f = length])
  case (less args)
  show ?case
  proof (cases args)
    case (Cons arg rest)
    have keep: "safe (\<lambda>_. True) (parse_args rest o1)" for o1 using less [of rest] Cons by simp
    have drop: "safe (\<lambda>_. True) (parse_args rest' o1)" if "require_value name rest = Inr (v, rest')" for name v rest' o1
      using less [of rest'] require_value_Inr [OF that] Cons by simp
    show ?thesis
      unfolding Cons parse_args.simps(2)
      by (intro safe_if safe_value_option safe_pair safe_then [OF safe_stoull] safe_throw keep; rule drop)
  qed simp
qed

lemma safe_AddInputDirectory: "safe (\<lambda>_. True) (AddInputDirectory dirs options dir)"
  by (simp add: AddInputDirectory_def Let_def split: sum.split)

lemma safe_ParseOptions: "safe (\<lambda>_. True) (ParseOptions dirs args)"
  unfolding ParseOptions_def
  by (intro safe_then [OF safe_parse_args] safe_fold TrueI safe_AddInputDirectory)

section \<open>The self tests\<close>

lemma safe_Require [safe_intros]: "safe (\<lambda>_. True) (Require c message)"
  by (simp add: Require_def)

lemma safe_sequence: "list_all (safe (\<lambda>_. True)) rs \<Longrightarrow> safe (\<lambda>_. True) (sequence rs)"
  by (induction rs rule: sequence.induct) (auto intro: safe_bind)

lemma safe_test_texts: "safe (\<lambda>_. True) test_texts"
  unfolding test_texts_def by (intro safe_intros safe_sequence) (simp add: safe_Require)

lemma safe_test_xed: "safe (\<lambda>_. True) (test_xed xed)"
  unfolding test_xed_def Let_def by (intro safe_intros safe_sequence) (simp_all add: safe_Require)

text \<open>The intrinsics on a memory that is there.\<close>

lemma safe_memory_ops:
  assumes "LENGTH('a::len) \<le> 64" "m \<noteq> None"
  shows "safe (\<lambda>(v, m'). m' \<noteq> None) (ReadMemory m a :: ('a word \<times> memory_ptr) res)"
    and "safe (\<lambda>m'. m' \<noteq> None) (WriteMemory m a (v :: 'a word))"
    and "safe (\<lambda>(v, m'). m' \<noteq> None) (CompareExchange m a (v :: 'a word) d)"
    and "safe (\<lambda>(v, m'). m' \<noteq> None) (FetchAndOp f m a (v :: 'a word))"
proof -
  from assms(2) obtain g where m: "m = Some g" by blast
  show "safe (\<lambda>(v, m'). m' \<noteq> None) (ReadMemory m a :: ('a word \<times> memory_ptr) res)"
    by (cases rule: ReadLittleEndian_cases [OF assms(1), of g a]) (simp_all add: ReadMemory_def m)
  show "safe (\<lambda>m'. m' \<noteq> None) (WriteMemory m a v)"
    by (cases rule: WriteLittleEndian_cases [OF assms(1), of g a v]) (simp_all add: WriteMemory_def m)
  show "safe (\<lambda>(v, m'). m' \<noteq> None) (CompareExchange m a v d)"
    by (cases rule: CompareExchange_cases [OF assms(1), of g a v d]) (simp_all add: m)
  show "safe (\<lambda>(v, m'). m' \<noteq> None) (FetchAndOp f m a v)"
    by (cases rule: FetchAndOp_cases [OF assms(1), of g a f v]) (simp_all add: m)
qed

lemma safe_little_endian [safe_intros]:
  "safe (\<lambda>_. True) (ReadLittleEndian m a :: (bool \<times> u32 \<times> GuestMemory) res)"
  "safe (\<lambda>_. True) (WriteLittleEndian m a (v :: u32))"
proof -
  have "LENGTH(32) \<le> 64" by simp
  from ReadLittleEndian_cases [OF this, of m a] WriteLittleEndian_cases [OF this, of m a v]
  show "safe (\<lambda>_. True) (ReadLittleEndian m a :: (bool \<times> u32 \<times> GuestMemory) res)"
    "safe (\<lambda>_. True) (WriteLittleEndian m a v)" by (metis safe_Inr(1))+
qed

lemma safe_Map [safe_intros]: "safe (\<lambda>_. True) (GuestMemory_Map m a n perms)"
  using Map_total [of m a n perms] by auto

lemma safe_memory_pair:
  "safe (\<lambda>(v, m'). m' \<noteq> None) r \<Longrightarrow> (\<And>v m'. m' \<noteq> None \<Longrightarrow> safe P (f v m')) \<Longrightarrow>
     safe P (res_bind r (\<lambda>(v, m'). f v m'))"
  by (cases r) auto

lemma safe_memory_bind:
  "safe (\<lambda>m'. m' \<noteq> None) r \<Longrightarrow> (\<And>m'. m' \<noteq> None \<Longrightarrow> safe P (f m')) \<Longrightarrow> safe P (res_bind r f)"
  by (cases r) auto

lemma safe_test_memory: "safe (\<lambda>_. True) test_memory"
proof -
  have le: "LENGTH(32) \<le> 64" "LENGTH(8) \<le> 64" by simp_all
  note ops = safe_memory_ops [OF le(1)] safe_memory_ops(1) [OF le(2)]
  show ?thesis
    unfolding test_memory_def remill_write_memory_32_def remill_read_memory_32_def remill_read_memory_8_def
      remill_compare_exchange_memory_def remill_fetch_and_def
    by (rule safe_memory_pair safe_memory_bind safe_then safe_pair safe_Require safe_little_endian safe_Map ops |
        (split option.split, safe) | (rule safe_sequence, simp add: safe_Require) | simp)+
qed

lemma safe_set [safe_intros]:
  "safe (\<lambda>_. True) (set_scalar name v message s)" "safe (\<lambda>_. True) (set_bytes nvec name bytes message s)"
  by (simp_all add: set_scalar_def set_bytes_def safe_pair safe_then [OF safe_Require])

lemma safe_at [safe_intros]: "safe (\<lambda>_. True) (at m key)"
  by (simp add: at_def split: option.split)

lemma safe_test_state: "safe (\<lambda>_. True) (test_state nvec stack)"
  unfolding test_state_def Let_def by (intro safe_intros safe_sequence) (simp_all add: safe_Require)

section \<open>The backend\<close>

text \<open>
  \<open>code_returns\<close> is what is asked of compiled code: every function that the JIT's lookup hands
  out returns. The code in the caches is such code, in every state of the backend.
\<close>

definition returns :: "LiftedFunction \<Rightarrow> bool" where
  "returns f \<longleftrightarrow> (\<forall>s a m. \<exists>answer. f s a m = Inr answer)"

definition code_returns :: "('b, 'i, 'w, 'x) RemillLib_scheme \<Rightarrow> bool" where
  "code_returns lib \<longleftrightarrow> (\<forall>name w f. fst (lib_lookup lib name w) = Inr (Some f) \<longrightarrow> returns f)"

definition cache_returns :: "('b, 'w) RemillBackend \<Rightarrow> bool" where
  "cache_returns b \<longleftrightarrow> (\<forall>k i f. map_of (cache b) k = Some i \<longrightarrow> ci_function i = Some f \<longrightarrow> returns f)"

lemma cache_returns_new [simp]: "cache_returns (new_backend w)"
  by (simp add: cache_returns_def new_backend_def)

lemma same_tables_cache: "same_tables b b' \<Longrightarrow> cache_returns b \<Longrightarrow> cache_returns b'"
  by (simp add: same_tables_def cache_returns_def)

lemma resolve_symbols_returns:
  "cache_returns b \<Longrightarrow> resolve_symbols lib keys b error = Inr (ok, error', b') \<Longrightarrow> code_returns lib \<Longrightarrow> cache_returns b'"
proof (induction lib keys b error rule: resolve_symbols.induct)
  case (2 lib key keys b error)
  from "2.prems"(2) obtain c where c: "deref b key = Inr c" by (auto simp: res_simps)
  obtain r w where look: "lib_lookup lib (ci_name c) (world b) = (r, w)" by fastforce
  show ?case
  proof (cases r)
    case (Inl message)
    with "2.prems" c look show ?thesis by (auto simp: cache_returns_def)
  next
    case (Inr code)
    have "returns f" if "code = Some f" for f
      using "2.prems"(3) look Inr that unfolding code_returns_def by (metis fst_conv)
    then have "cache_returns (b\<lparr>cache := omap_put key (c\<lparr>ci_function := code\<rparr>) (cache b), world := w\<rparr>)"
      using "2.prems"(1) by (auto simp: cache_returns_def)
    from "2.IH" [OF c look [symmetric] Inr this] "2.prems"(2,3) c look Inr show ?thesis by simp
  qed
qed simp

lemma cache_returns_update [simp]:
  "cache_returns (b\<lparr>pending_compiled := ks\<rparr>) = cache_returns b"
  "cache_returns (b\<lparr>pending_intrinsics := t\<rparr>) = cache_returns b"
  "cache_returns (b\<lparr>pending_module := md\<rparr>) = cache_returns b"
  "cache_returns (b\<lparr>world := w\<rparr>) = cache_returns b"
  "cache_returns (b\<lparr>failed_compile_cache := fc\<rparr>) = cache_returns b"
  "cache_returns (b\<lparr>next_function_id := n\<rparr>) = cache_returns b"
  by (simp_all add: cache_returns_def)

lemma Finalize_returns:
  assumes "cache_returns b" "FinalizePendingModule lib b error = Inr (ok, error', b')" "code_returns lib"
  shows "cache_returns b'"
proof (cases "pending_module b = None \<or> pending_compiled b = []")
  case True
  with assms show ?thesis by (auto simp: FinalizePendingModule_def split: option.splits)
next
  case False
  then obtain module where module: "pending_module b = Some module" "pending_compiled b \<noteq> []" by auto
  from assms(2) obtain es where es: "res_map (\<lambda>key. res_bind (deref b key) (\<lambda>c. Inr (ir_function c)))
      (pending_compiled b) = Inr es" by (auto simp: FinalizePendingModule_def module res_simps)
  obtain e w where add: "lib_add_module lib (PruneModuleForJit (lib_global_dce lib) (set es) module) (world b) = (e, w)"
    by fastforce
  note answer = assms(2) [unfolded FinalizePendingModule_def module option.case if_not_P [OF module(2)] es res_bind.simps
      Let_def add prod.case]
  show ?thesis
  proof (cases e)
    case (Some text1)
    with answer assms(1) show ?thesis by auto
  next
    case None
    with answer obtain ok1 e1 b1 where r: "resolve_symbols lib (pending_compiled b)
        (b\<lparr>pending_module := None, world := w\<rparr>) error = Inr (ok1, e1, b1)"
      "b' = b1 \<or> b' = b1\<lparr>pending_compiled := [], pending_intrinsics := None\<rparr>"
      by (auto simp: res_simps split: if_splits)
    have "cache_returns (b\<lparr>pending_module := None, world := w\<rparr>)" using assms(1) by simp
    from resolve_symbols_returns [OF this r(1) assms(3)] r(2) show ?thesis by auto
  qed
qed

lemma Define_returns:
  assumes "cache_returns b" "DefineInPendingModule lib b row error = Inr (compiled, error', b')"
  shows "cache_returns b'"
proof (cases "map_of (cache b) (DecodeKey row) = None \<and> map_of (failed_compile_cache b) (DecodeKey row) = None")
  case False
  with assms show ?thesis by (auto simp: DefineInPendingModule_def Let_def split: option.splits if_splits)
next
  case True
  obtain ok e1 b1 where pending: "EnsurePendingModule lib b error = (ok, e1, b1)" by (metis prod_cases3)
  from EnsurePendingModule_tables [OF this] assms(1) have b1: "cache_returns b1" by (blast intro: same_tables_cache)
  show ?thesis
  proof (cases ok)
    case False
    with True pending assms(2) b1 show ?thesis by (simp add: DefineInPendingModule_def Let_def)
  next
    case ok: True
    from True pending ok assms(2) consider "cache b' = cache b1"
      | nm p where "cache b' = omap_put (DecodeKey row) \<lparr>ci_name = nm, ci_function = None, ir_function = p\<rparr> (cache b1)"
      by (auto simp: DefineInPendingModule_def Let_def fail_def res_simps split: if_splits option.splits prod.splits)
    then show ?thesis using b1 by cases (auto simp: cache_returns_def)
  qed
qed

lemma finalize_and_check_returns:
  "cache_returns b \<Longrightarrow> finalize_and_check lib key b error = Inr (c, error', b') \<Longrightarrow> code_returns lib \<Longrightarrow> cache_returns b'"
  by (auto simp: finalize_and_check_def res_simps split: if_splits dest: Finalize_returns)

lemma Compile_returns:
  assumes "cache_returns b" "Compile lib b row error = Inr (c, error', b')" "code_returns lib"
  shows "cache_returns b'"
  using assms
  by (auto simp: Compile_def Let_def res_simps split: option.splits if_splits
      dest: finalize_and_check_returns Define_returns)

lemma prepare_rows_returns:
  "cache_returns b \<Longrightarrow> prepare_rows lib rs b error = Inr (ok, error', b') \<Longrightarrow> cache_returns b'"
proof (induction lib rs b error rule: prepare_rows.induct)
  case (2 lib entry rs b error)
  then show ?case by (auto simp: res_simps split: option.splits if_splits dest: Define_returns)
qed simp

lemma PrepareCases_returns:
  assumes "cache_returns b" "PrepareCases lib b rs error = Inr (ok, error', b')" "code_returns lib"
  shows "cache_returns b'"
proof -
  obtain i e1 b1 where init: "EnsureInitialized lib b error = (i, e1, b1)" by (metis prod_cases3)
  from EnsureInitialized_tables [OF this] assms(1) have "cache_returns b1" by (blast intro: same_tables_cache)
  with assms(2,3) init show ?thesis
    by (auto simp: PrepareCases_def res_simps split: if_splits dest: prepare_rows_returns Finalize_returns)
qed

lemma RunCase_returns:
  assumes "cache_returns b" "code_returns lib"
  shows "RunCase lib nvec stack b row keys = Inr (r, b') \<Longrightarrow> cache_returns b'"
    and "EnsureInitialized lib b e0 = (ok, e1, b1) \<Longrightarrow> Compile lib b1 row e1 = Inr (c, e2, b2) \<Longrightarrow> cache_returns b2"
proof -
  have init: "cache_returns b1" if "EnsureInitialized lib b error = (ok, e1, b1)" for error ok e1 b1
    using EnsureInitialized_tables [OF that] assms(1) by (blast intro: same_tables_cache)
  then show "EnsureInitialized lib b e0 = (ok, e1, b1) \<Longrightarrow> Compile lib b1 row e1 = Inr (c, e2, b2) \<Longrightarrow> cache_returns b2"
    using Compile_returns assms(2) by blast
  assume run: "RunCase lib nvec stack b row keys = Inr (r, b')"
  obtain ok e1 b1 where b1: "EnsureInitialized lib b [] = (ok, e1, b1)" by (metis prod_cases3)
  show "cache_returns b'"
  proof (cases "SupportsCase row \<and> ok")
    case False
    with run b1 assms(1) init [OF b1] show ?thesis by (auto simp: RunCase_def Let_def split: if_splits)
  next
    case True
    with run b1 obtain c e2 b2 where comp: "Compile lib b1 row e1 = Inr (c, e2, b2)"
      by (auto simp: RunCase_def Let_def res_simps)
    with True run b1 have "b' = b2"
      by (cases c) (auto simp: RunCase_def Let_def res_simps split: option.splits)
    with Compile_returns [OF init [OF b1] comp assms(2)] show ?thesis by simp
  qed
qed

text \<open>A backend in use: reachable, and with code that returns.\<close>

definition usable :: "('b, 'i, 'w, 'x) RemillLib_scheme \<Rightarrow> ('b, 'w) RemillBackend \<Rightarrow> bool" where
  "usable lib b \<longleftrightarrow> (\<exists>n. backend_inv n b) \<and> cache_returns b"

lemma usable_new [simp]: "usable lib (new_backend w)"
  by (simp add: usable_def)

lemma safe_RunCase:
  assumes "usable lib b" "code_returns lib"
  shows "safe (\<lambda>(r, b'). usable lib b') (RunCase lib nvec stack b row keys)"
proof -
  from assms(1) obtain n where inv: "backend_inv n b" and code: "cache_returns b" by (auto simp: usable_def)
  show ?thesis
  proof (cases "RunCase lib nvec stack b row keys")
    case (Inl x)
    have "returns f" if "EnsureInitialized lib b e0 = (ok, e1, b1)" "Compile lib b1 row e1 = Inr (c, e2, b2)"
      "map_of (cache b2) k = Some i" "ci_function i = Some f" for e0 ok e1 b1 c e2 b2 k i f
      using RunCase_returns(2) [OF code assms(2) that(1,2)] that(3,4) by (auto simp: cache_returns_def)
    then have "f s a m \<noteq> Inl x" if "EnsureInitialized lib b e0 = (ok, e1, b1)"
      "Compile lib b1 row e1 = Inr (c, e2, b2)" "map_of (cache b2) k = Some i" "ci_function i = Some f"
      for e0 ok e1 b1 c e2 b2 k i f s a m
      using that unfolding returns_def by (metis Inr_Inl_False)
    with RunCase_Inl [OF inv Inl] have "ParseHexBytes (row_opcode row) = Inl x" by blast
    with Inl show ?thesis by (simp add: ParseHexBytes_Inl)
  next
    case (Inr answer)
    then show ?thesis
      using RunCase_keeps [OF inv] RunCase_returns(1) [OF code assms(2)]
      by (cases answer) (fastforce simp: usable_def keeps_def)
  qed
qed

lemma safe_PrepareCases:
  assumes "usable lib b" "code_returns lib"
  shows "safe (\<lambda>(ok, error, b'). usable lib b') (PrepareCases lib b rs error)"
proof -
  from assms(1) obtain n where inv: "backend_inv n b" and code: "cache_returns b" by (auto simp: usable_def)
  show ?thesis
  proof (cases "PrepareCases lib b rs error")
    case (Inl x)
    with PrepareCases_Inl [OF inv Inl] show ?thesis by (auto dest: ParseHexBytes_Inl)
  next
    case (Inr answer)
    then show ?thesis
      using PrepareCases_keeps [OF inv] PrepareCases_returns [OF code _ assms(2)]
      by (cases answer) (fastforce simp: usable_def keeps_def)
  qed
qed

lemma safe_test_backend:
  assumes "code_returns lib"
  shows "safe (\<lambda>_. True) (test_backend xed lib nvec stack xor_meta w)"
proof -
  have run: "safe P (res_bind (RunCase lib nvec stack b row keys) (\<lambda>(r, b'). k r b'))"
    if "usable lib b" "\<And>r b'. usable lib b' \<Longrightarrow> safe P (k r b')" for P b row keys k
    by (rule safe_bind [OF safe_RunCase [OF that(1) assms]]) (auto intro: that(2))
  show ?thesis
    unfolding test_backend_def Let_def
    by (intro run safe_then [OF safe_Require] safe_then [OF safe_at] safe_then [OF safe_ParseHexBytes]
        safe_then [OF safe_sequence]) (simp_all add: safe_Require)
qed

lemma safe_RunSelfTests: "code_returns lib \<Longrightarrow> safe (\<lambda>_. True) (RunSelfTests xed lib nvec stack w)"
  unfolding RunSelfTests_def
  by (intro safe_then [OF safe_test_texts] safe_then [OF safe_test_xed] safe_then [OF safe_test_memory]
      safe_then [OF safe_test_state] safe_then [OF safe_test_backend]) simp_all

section \<open>The driver\<close>

lemma safe_prepare_header: "safe (\<lambda>_. True) (prepare_header xed options header p)"
  unfolding prepare_header_def Let_def
  by (intro safe_if safe_then [OF safe_ParseHexBytes] safe_then [OF safe_PreExecutionSkip]) simp_all

lemma safe_prepare_file: "safe (\<lambda>_. True) (prepare_file xed options headers p)"
  by (induction xed options headers p rule: prepare_file.induct)
     (auto intro!: safe_then [OF safe_prepare_header])

lemma safe_prepare_files: "safe (\<lambda>_. True) (prepare_files files xed options paths p)"
  by (induction files xed options paths p rule: prepare_files.induct)
     (auto intro!: safe_then [OF safe_ParseInstructionHeaders] safe_then [OF safe_prepare_file])

lemma safe_prepare_batch:
  assumes "usable (env_remill env) b" "code_returns (env_remill env)"
  shows "safe (usable (env_remill env)) (prepare_batch env options b)"
  unfolding prepare_batch_def
  by (rule safe_then [OF safe_prepare_files], rule safe_bind [OF safe_PrepareCases [OF assms]]) (auto simp: safe_if)

lemma backend_kept [simp]:
  "remill_backend (on_summary f s) = remill_backend s"
  "remill_backend (print text1 s) = remill_backend s"
  "remill_backend (print_once options row metadata s) = remill_backend s"
  "remill_backend (skip_row path row reason detail s) = remill_backend s"
  by (simp_all add: on_summary_def print_def print_once_def skip_row_def WriteSkip_def)

lemma backend_kept_reports [simp]:
  "remill_backend (fold (report_mismatch path row) ms s) = remill_backend s"
  by (induction ms arbitrary: s) (simp_all add: report_mismatch_def Let_def)

lemma backend_kept_judge [simp]:
  "remill_backend (judge_row nvec options path row metadata result s) = remill_backend s"
  by (simp add: judge_row_def Let_def)

lemma backend_kept_enter: "enter_group options path row mnemonic s = Some s' \<Longrightarrow> remill_backend s' = remill_backend s"
  by (auto simp: enter_group_def Let_def on_summary_def split: if_splits)

lemma safe_lookup_metadata:
  "safe (\<lambda>(metadata, s'). remill_backend s' = remill_backend s) (lookup_metadata xed row s)"
  unfolding lookup_metadata_def Let_def
  by (auto split: option.split intro!: safe_then [OF safe_ParseHexBytes])

definition run_usable :: "('b, 'i, 'w, 'd) Environment \<Rightarrow> ('b, 'w) RunState \<Rightarrow> bool" where
  "run_usable env s \<longleftrightarrow> usable (env_remill env) (remill_backend s)"

lemma run_usable_same: "remill_backend s' = remill_backend s \<Longrightarrow> run_usable env s' = run_usable env s"
  by (simp add: run_usable_def)

lemma run_usable_kept [simp]:
  "run_usable env (on_summary f s) = run_usable env s"
  "run_usable env (print_once options row metadata s) = run_usable env s"
  "run_usable env (skip_row path row reason detail s) = run_usable env s"
  "run_usable env (s\<lparr>run_stop := c\<rparr>) = run_usable env s"
  by (rule run_usable_same; simp)+

lemma safe_execute_selected:
  assumes "run_usable env s" "code_returns (env_remill env)"
  shows "safe (run_usable env) (execute_selected env options path row metadata s)"
proof -
  have run: "safe (run_usable env) (res_bind
      (RunCase (env_remill env) (env_num_vec env) (env_stack env) (remill_backend s) row keys)
      (\<lambda>(result, b). Inr (judge_row (env_num_vec env) options path row metadata result (s\<lparr>remill_backend := b\<rparr>))))" for keys
    by (rule safe_bind [OF safe_RunCase [OF assms [unfolded run_usable_def]]]) (auto simp: run_usable_def)
  show ?thesis
    unfolding execute_selected_def Let_def
    using assms(1) by (auto split: option.split intro!: safe_then [OF safe_PreExecutionSkip] run)
qed

lemma safe_process_row:
  fixes env :: "('b, 'i, 'w, 'd) Environment"
  assumes "run_usable env s" "code_returns (env_remill env)"
  shows "safe (run_usable env) (process_row env options path row s)"
proof -
  have after: "safe (run_usable env) (res_bind (lookup_metadata (env_xed env) row s1) (\<lambda>(metadata, s).
      let s = print_once options row metadata s; s = on_summary (count_row row mnemonic metadata) s
      in if execute options then execute_selected env options path row metadata s else Inr s))"
    if "run_usable env s1" for s1 mnemonic
  proof (rule safe_bind [OF safe_lookup_metadata])
    fix answer :: "XedMetadata \<times> ('b, 'w) RunState"
    obtain metadata s2 where answer: "answer = (metadata, s2)" by fastforce
    assume "case answer of (metadata, s') \<Rightarrow> remill_backend s' = remill_backend s1"
    then have "run_usable env s2" using that run_usable_same [of s2 s1 env] by (simp add: answer)
    then show "safe (run_usable env) (case answer of (metadata, s) \<Rightarrow>
        let s = print_once options row metadata s; s = on_summary (count_row row mnemonic metadata) s
        in if execute options then execute_selected env options path row metadata s else Inr s)"
      using assms(2) by (simp add: answer Let_def safe_execute_selected)
  qed
  show ?thesis
  proof (cases "enter_group options path row (FirstToken (row_instruction row)) s")
    case None
    with assms(1) show ?thesis by (simp add: process_row_def Let_def)
  next
    case (Some s1)
    from run_usable_same [OF backend_kept_enter [OF this]] assms(1) have "run_usable env s1" by blast
    from after [OF this] assms(1) Some show ?thesis by (simp add: process_row_def Let_def)
  qed
qed

lemma safe_process_rows:
  "run_usable env s \<Longrightarrow> code_returns (env_remill env) \<Longrightarrow> safe (run_usable env) (process_rows env options path rs s)"
proof (induction env options path rs s rule: process_rows.induct)
  case (2 env options path row rest s)
  show ?case by (auto intro!: safe_bind [OF safe_process_row [OF "2.prems"]] "2.IH" "2.prems")
qed simp

lemma safe_process_files:
  "run_usable env s \<Longrightarrow> code_returns (env_remill env) \<Longrightarrow> safe (run_usable env) (process_files env options paths s)"
proof (induction env options paths s rule: process_files.induct)
  case (2 env options path paths s)
  show ?case
    using 2 by (auto simp: Let_def intro!: safe_then [OF safe_ParseFile]
        safe_bind [OF safe_process_rows] "2.IH")
qed simp

lemma safe_run_rows: "code_returns (env_remill env) \<Longrightarrow> safe (\<lambda>_. True) (run_rows env options w out)"
proof -
  assume code: "code_returns (env_remill env)"
  have start: "safe (usable (env_remill env)) (if execute options then prepare_batch env options (new_backend w) else Inr (new_backend w))"
    using safe_prepare_batch [OF usable_new code] by simp
  have new: "remill_backend (initial_run w out) = new_backend w" by (simp add: initial_run_def)
  show ?thesis
    unfolding run_rows_def Let_def new
    by (rule safe_bind [OF start])
       (rule safe_weaken [OF safe_process_files [OF _ code]]; simp add: run_usable_def)
qed

lemma safe_open_report: "safe (\<lambda>_. True) (open_report can_open name path)"
  by (simp add: open_report_def)

lemma safe_Run:
  assumes "code_returns (env_remill env)"
  shows "safe (\<lambda>(code, out). code \<in> {0, 1, 2} \<and> (code = 2 \<longleftrightarrow> inputs options = [] \<and> \<not> show_help options \<and> \<not> self_test options))
    (Run env options w)"
proof -
  let ?P = "\<lambda>(code, out). code \<in> {0, 1, 2} \<and> (code = (2 :: int) \<longleftrightarrow> inputs options = [] \<and> \<not> show_help options \<and> \<not> self_test options)"
  have tests: "safe (\<lambda>_. True) (if self_test options
      then RunSelfTests (env_xed env) (env_remill env) (env_num_vec env) (env_stack env) w else Inr ([], w))"
    by (simp add: safe_RunSelfTests [OF assms])
  have code: "exit_code t \<in> {0, 1}" for t by (simp add: exit_code_def)
  show ?thesis
    unfolding Run_def Let_def
    by (rule safe_if, simp, rule safe_then [OF tests], rule safe_pair, intro safe_if
        safe_then [OF safe_open_report] safe_then [OF safe_run_rows [OF assms]])
       (use code in \<open>auto simp: exit_code_def\<close>)
qed



end
