(* ===== verification/Remill_Helpers.thy ===== *)
theory Remill_Helpers
  imports Intrinsics
begin

text \<open>
  \<^verbatim>\<open>src/helpers\<close>: the bodies of Remill's intrinsics that are compiled to bitcode and linked with
  lifted code, for \<open>x86_64\<close>, \<open>x86_32\<close> and \<open>aarch64\<close>, and the \<open>CPUID\<close> semantics of the hotpatch.

  The memory of linked code is the external array \<open>RAM\<close>, a function from addresses to bytes; a
  copy that would leave the address space is undefined behaviour. The opaque \<open>Memory *\<close> is
  passed through. Functions that exist once for each width are polymorphic in it. All three
  targets are little-endian. The equivalence at the end relates the memory functions to the
  checked ones of \<^verbatim>\<open>Intrinsics\<close>.
\<close>

section \<open>The external RAM\<close>

type_synonym 'a ram = "'a word \<Rightarrow> u8"

definition memcpy_from_ram :: "'a::len ram \<Rightarrow> 'a word \<Rightarrow> nat \<Rightarrow> u8 list res" where
  "memcpy_from_ram ram a n =
     (if unat a + n \<le> 2 ^ LENGTH('a) then Inr (map (\<lambda>i. ram (a + of_nat i)) [0..<n])
      else Inl UndefinedBehaviour)"

definition memcpy_to_ram :: "'a::len ram \<Rightarrow> 'a word \<Rightarrow> u8 list \<Rightarrow> 'a ram res" where
  "memcpy_to_ram ram a bytes =
     (if unat a + length bytes \<le> 2 ^ LENGTH('a)
      then Inr (\<lambda>x. if unat (x - a) < length bytes then bytes ! unat (x - a) else ram x)
      else Inl UndefinedBehaviour)"

text \<open>The body that all functions of a family share.\<close>

definition read_ram :: "'a::len ram \<Rightarrow> 'a word \<Rightarrow> 'v::len word res" where
  "read_ram ram a = res_bind (memcpy_from_ram ram a (LENGTH('v) div 8)) (\<lambda>bytes. Inr (le_word bytes))"

definition write_ram :: "'a::len ram \<Rightarrow> 'm \<Rightarrow> 'a word \<Rightarrow> 'v::len word \<Rightarrow> ('m \<times> 'a ram) res" where
  "write_ram ram m a v = res_bind (memcpy_to_ram ram a (le_bytes v)) (\<lambda>ram. Inr (m, ram))"

section \<open>The x86-64 helpers\<close>

definition x86_64_read_memory :: "64 ram \<Rightarrow> 'm \<Rightarrow> u64 \<Rightarrow> 'v::len word res" where
  "x86_64_read_memory ram m a = read_ram ram a"

definition x86_64_write_memory :: "64 ram \<Rightarrow> 'm \<Rightarrow> u64 \<Rightarrow> 'v::len word \<Rightarrow> ('m \<times> 64 ram) res" where
  "x86_64_write_memory ram m a v = write_ram ram m a v"

definition x86_64_read_memory_f :: "64 ram \<Rightarrow> 'm \<Rightarrow> u64 \<Rightarrow> 'v::len word res" where
  "x86_64_read_memory_f ram m a = read_ram ram a"

definition x86_64_write_memory_f :: "64 ram \<Rightarrow> 'm \<Rightarrow> u64 \<Rightarrow> 'v::len word \<Rightarrow> ('m \<times> 64 ram) res" where
  "x86_64_write_memory_f ram m a v = write_ram ram m a v"

definition x86_64_flag_computation :: "FlagComputation \<Rightarrow> bool \<Rightarrow> bool" where
  "x86_64_flag_computation f result = result"

definition x86_64_compare :: "Comparison \<Rightarrow> bool \<Rightarrow> bool" where
  "x86_64_compare c result = result"

definition x86_64_undefined :: "'v::len word" where
  "x86_64_undefined = 0"

definition x86_64_error :: "State \<Rightarrow> u64 \<Rightarrow> 'm \<Rightarrow> 'm res" where
  "x86_64_error s a m = Inl UndefinedBehaviour"

definition x86_64_function_return :: "State \<Rightarrow> u64 \<Rightarrow> 'm \<Rightarrow> 'm" where
  "x86_64_function_return s a m = m"

text \<open>
  The hotpatch. The external \<open>__remill_cpuid\<close> gets the memory, the uninitialised result on the
  stack and the two selectors, and leaves a memory and a result.
\<close>

record CPUIDResult =
  cpuid_eax :: u32
  cpuid_ebx :: u32
  cpuid_ecx :: u32
  cpuid_edx :: u32

definition CPUID ::
  "('m \<Rightarrow> CPUIDResult \<Rightarrow> u32 \<Rightarrow> u32 \<Rightarrow> 'm \<times> CPUIDResult) \<Rightarrow> CPUIDResult \<Rightarrow> 'm \<Rightarrow> State \<Rightarrow> 'm \<times> State" where
  "CPUID remill_cpuid stack memory s =
     (case remill_cpuid memory stack (ucast (gpr s RAX)) (ucast (gpr s RCX)) of
        (memory, result) \<Rightarrow>
          (memory, s\<lparr>gpr := (gpr s)(RAX := ucast (cpuid_eax result), RBX := ucast (cpuid_ebx result),
             RCX := ucast (cpuid_ecx result), RDX := ucast (cpuid_edx result))\<rparr>))"

section \<open>The x86-32 helpers\<close>

definition x86_32_symbolic_base :: u32 where
  "x86_32_symbolic_base = 0"

definition x86_32_read_memory :: "32 ram \<Rightarrow> 'm \<Rightarrow> u32 \<Rightarrow> 'v::len word res" where
  "x86_32_read_memory ram m a = read_ram ram a"

definition x86_32_write_memory :: "32 ram \<Rightarrow> 'm \<Rightarrow> u32 \<Rightarrow> 'v::len word \<Rightarrow> ('m \<times> 32 ram) res" where
  "x86_32_write_memory ram m a v = write_ram ram m a v"

definition x86_32_read_memory_f :: "32 ram \<Rightarrow> 'm \<Rightarrow> u32 \<Rightarrow> 'v::len word res" where
  "x86_32_read_memory_f ram m a = read_ram ram a"

definition x86_32_write_memory_f :: "32 ram \<Rightarrow> 'm \<Rightarrow> u32 \<Rightarrow> 'v::len word \<Rightarrow> ('m \<times> 32 ram) res" where
  "x86_32_write_memory_f ram m a v = write_ram ram m a v"

definition x86_32_flag_computation :: "FlagComputation \<Rightarrow> bool \<Rightarrow> bool" where
  "x86_32_flag_computation f result = result"

definition x86_32_compare :: "Comparison \<Rightarrow> bool \<Rightarrow> bool" where
  "x86_32_compare c result = result"

definition x86_32_undefined :: "'v::len word" where
  "x86_32_undefined = 0"

definition x86_32_error :: "State \<Rightarrow> u32 \<Rightarrow> 'm \<Rightarrow> 'm res" where
  "x86_32_error s a m = Inl UndefinedBehaviour"

definition x86_32_function_return :: "State \<Rightarrow> u32 \<Rightarrow> 'm \<Rightarrow> 'm" where
  "x86_32_function_return s a m = m"

section \<open>The aarch64 helpers\<close>

definition aarch64_read_memory :: "64 ram \<Rightarrow> 'm \<Rightarrow> u64 \<Rightarrow> 'v::len word res" where
  "aarch64_read_memory ram m a = read_ram ram a"

definition aarch64_write_memory :: "64 ram \<Rightarrow> 'm \<Rightarrow> u64 \<Rightarrow> 'v::len word \<Rightarrow> ('m \<times> 64 ram) res" where
  "aarch64_write_memory ram m a v = write_ram ram m a v"

definition aarch64_flag_computation :: "FlagComputation \<Rightarrow> bool \<Rightarrow> bool" where
  "aarch64_flag_computation f result = result"

definition aarch64_compare :: "Comparison \<Rightarrow> bool \<Rightarrow> bool" where
  "aarch64_compare c result = result"

definition aarch64_function_return :: "'s \<Rightarrow> u64 \<Rightarrow> 'm \<Rightarrow> 'm" where
  "aarch64_function_return s a m = m"

section \<open>The RAM as a byte memory\<close>

definition ram_load :: "64 ram \<Rightarrow> u64 \<Rightarrow> nat \<Rightarrow> u8 list option" where
  "ram_load ram a n = (case memcpy_from_ram ram a n of Inr bytes \<Rightarrow> Some bytes | Inl _ \<Rightarrow> None)"

definition ram_store :: "64 ram \<Rightarrow> u64 \<Rightarrow> u8 list \<Rightarrow> 64 ram option" where
  "ram_store ram a bytes = (case memcpy_to_ram ram a bytes of Inr ram' \<Rightarrow> Some ram' | Inl _ \<Rightarrow> None)"

lemmas ram_defs = ram_load_def ram_store_def memcpy_from_ram_def memcpy_to_ram_def

interpretation ram: byte_memory ram_load ram_store
proof
  fix m m' :: "64 ram" and a b :: u64 and bs cs :: "u8 list" and n :: nat
  show "ram_load m a n = Some bs \<Longrightarrow> n < 2 ^ 64 \<Longrightarrow> length bs = n"
    by (auto simp: ram_defs split: if_splits)
  show "length cs = length bs \<Longrightarrow> length bs < 2 ^ 64 \<Longrightarrow> (ram_store m a cs = None) = (ram_store m a bs = None)"
    by (simp add: ram_defs)
  assume st: "ram_store m a bs = Some m'" and len: "length bs < 2 ^ 64"
  then have m': "m' = (\<lambda>x. if unat (x - a) < length bs then bs ! unat (x - a) else m x)"
    by (simp add: ram_defs split: if_splits)
  show "ram_load m a (length bs) \<noteq> None \<Longrightarrow> ram_load m' a (length bs) = Some bs"
    using len by (auto simp: m' ram_defs unat_of_nat_small intro!: nth_equalityI split: if_splits)
  show "(ram_load m' b n = None) = (ram_load m b n = None)" "(ram_store m' b cs = None) = (ram_store m b cs = None)"
    by (simp_all add: ram_defs)
  assume apart: "disjoint_ranges a (length bs) b n"
  have "m' (b + of_nat i) = m (b + of_nat i)" if "i < n" for i
  proof -
    have "\<not> unat (b + of_nat i - a) < length bs"
    proof
      assume "unat (b + of_nat i - a) < length bs"
      moreover have "a + of_nat (unat (b + of_nat i - a)) = b + of_nat i" by simp
      ultimately show False using apart that unfolding disjoint_ranges_def by blast
    qed
    then show ?thesis by (simp add: m')
  qed
  then show "ram_load m' b n = ram_load m b n" by (simp add: ram_defs)
qed

lemma read_ram_load: "read_ram ram a = Inr v \<longleftrightarrow> load_word ram_load ram a = Some v"
  by (cases "memcpy_from_ram ram a (LENGTH('a) div 8)")
     (auto simp: read_ram_def load_word_def ram_load_def)

lemma write_ram_store: "write_ram ram m a (v :: 'a::len word) = Inr (m', ram') \<longleftrightarrow>
    m' = m \<and> store_word ram_store ram a v = Some ram'"
  by (cases "memcpy_to_ram ram a (le_bytes v)") (auto simp: write_ram_def store_word_def ram_store_def)

section \<open>Linked code against the checked intrinsics\<close>

text \<open>
  A program is what lifted code does with memory: accesses whose addresses and values may
  depend on everything read so far. It runs on the checked guest memory of the tester, or
  linked with the helpers on the flat RAM.
\<close>

datatype program =
    Finish u64
  | Read8 u64 "u8 \<Rightarrow> program" | Read16 u64 "u16 \<Rightarrow> program"
  | Read32 u64 "u32 \<Rightarrow> program" | Read64 u64 "u64 \<Rightarrow> program"
  | Write8 u64 u8 program | Write16 u64 u16 program
  | Write32 u64 u32 program | Write64 u64 u64 program

primrec run_checked :: "program \<Rightarrow> memory_ptr \<Rightarrow> (u64 \<times> memory_ptr) res" where
  "run_checked (Finish v) m = Inr (v, m)"
| "run_checked (Read8 a k) m = res_bind (remill_read_memory_8 m a) (\<lambda>(v, m). run_checked (k v) m)"
| "run_checked (Read16 a k) m = res_bind (remill_read_memory_16 m a) (\<lambda>(v, m). run_checked (k v) m)"
| "run_checked (Read32 a k) m = res_bind (remill_read_memory_32 m a) (\<lambda>(v, m). run_checked (k v) m)"
| "run_checked (Read64 a k) m = res_bind (remill_read_memory_64 m a) (\<lambda>(v, m). run_checked (k v) m)"
| "run_checked (Write8 a v p) m = res_bind (remill_write_memory_8 m a v) (\<lambda>m. run_checked p m)"
| "run_checked (Write16 a v p) m = res_bind (remill_write_memory_16 m a v) (\<lambda>m. run_checked p m)"
| "run_checked (Write32 a v p) m = res_bind (remill_write_memory_32 m a v) (\<lambda>m. run_checked p m)"
| "run_checked (Write64 a v p) m = res_bind (remill_write_memory_64 m a v) (\<lambda>m. run_checked p m)"

primrec run_linked :: "program \<Rightarrow> 64 ram \<Rightarrow> (u64 \<times> 64 ram) res" where
  "run_linked (Finish v) r = Inr (v, r)"
| "run_linked (Read8 a k) r = res_bind (x86_64_read_memory r () a) (\<lambda>v. run_linked (k v) r)"
| "run_linked (Read16 a k) r = res_bind (x86_64_read_memory r () a) (\<lambda>v. run_linked (k v) r)"
| "run_linked (Read32 a k) r = res_bind (x86_64_read_memory r () a) (\<lambda>v. run_linked (k v) r)"
| "run_linked (Read64 a k) r = res_bind (x86_64_read_memory r () a) (\<lambda>v. run_linked (k v) r)"
| "run_linked (Write8 a v p) r = res_bind (x86_64_write_memory r () a v) (\<lambda>(_, r). run_linked p r)"
| "run_linked (Write16 a v p) r = res_bind (x86_64_write_memory r () a v) (\<lambda>(_, r). run_linked p r)"
| "run_linked (Write32 a v p) r = res_bind (x86_64_write_memory r () a v) (\<lambda>(_, r). run_linked p r)"
| "run_linked (Write64 a v p) r = res_bind (x86_64_write_memory r () a v) (\<lambda>(_, r). run_linked p r)"

definition mirrors :: "GuestMemory \<Rightarrow> 64 ram \<Rightarrow> bool" where
  "mirrors m ram \<longleftrightarrow> (\<forall>a p b. gm_abs m a = Some (p, b) \<longrightarrow> ram a = b)"

lemma mirrors_load:
  assumes "mirrors m ram" "load_word gm_load m a = Some (v :: 'a::len word)" "LENGTH('a) \<le> 64"
  shows "load_word ram_load ram a = Some v"
proof -
  let ?n = "LENGTH('a) div 8"
  have n: "?n < 2 ^ 64" "unat (of_nat ?n :: u64) = ?n"
    using assms(3) by (simp, intro unat_of_nat_small, simp)
  from assms(2) have ok: "access_ok PermRead m a (of_nat ?n)" and v: "v = le_word (abs_load (gm_abs m) a ?n)"
    by (auto simp: load_word_def gm_load_eq [OF n(1)] split: if_splits)
  have "unat a < 2 ^ LENGTH(64)" by (rule unsigned_less)
  with ok n(2) have "unat a + ?n \<le> 2 ^ 64" by (cases "?n = 0") (auto simp: access_ok_def)
  moreover have "abs_load (gm_abs m) a ?n = map (\<lambda>i. ram (a + of_nat i)) [0..<?n]"
    using access_ok_abs [OF ok] n(2) assms(1)
    by (fastforce simp: abs_load_def mirrors_def split: option.splits)
  ultimately show ?thesis by (simp add: load_word_def ram_defs v)
qed

lemma mirrors_store:
  assumes "mirrors m ram" "store_word gm_store m a (v :: 'a::len word) = Some m'" "LENGTH('a) \<le> 64"
  shows "\<exists>ram'. store_word ram_store ram a v = Some ram' \<and> mirrors m' ram'"
proof -
  let ?n = "LENGTH('a) div 8"
  have n: "length (le_bytes v) < 2 ^ 64" "unat (of_nat ?n :: u64) = ?n"
    using assms(3) by (simp, intro unat_of_nat_small, simp)
  from assms(2) have ok: "access_ok PermWrite m a (of_nat ?n)"
    and abs: "gm_abs m' = abs_store a ?n (le_bytes v) (gm_abs m)"
    using gm_store_eq [OF n(1), of m a] by (auto simp: store_word_def)
  have "unat a < 2 ^ LENGTH(64)" by (rule unsigned_less)
  with ok n(2) have "unat a + ?n \<le> 2 ^ 64" by (cases "?n = 0") (auto simp: access_ok_def)
  moreover have "mirrors m' (\<lambda>x. if unat (x - a) < ?n then le_bytes v ! unat (x - a) else ram x)"
    using assms(1) by (auto simp: mirrors_def abs abs_store_def)
  ultimately show ?thesis by (simp add: store_word_def ram_defs)
qed

text \<open>One access on both sides: a fault, or the same answer and memories that still agree.\<close>

lemma read_agrees:
  assumes "LENGTH('a) \<le> 64" "mirrors m ram"
  obtains m' where "ReadMemory (Some m) a = Inr (0 :: 'a::len word, Some m')" "last_fault m' \<noteq> None"
  | v where "ReadMemory (Some m) a = Inr (v :: 'a word, Some m)" "x86_64_read_memory ram () a = Inr v"
proof (cases rule: ReadLittleEndian_cases [OF assms(1), of m a])
  case (1 v)
  from mirrors_load [OF assms(2) 1(1) assms(1)] have "read_ram ram a = Inr v" by (simp add: read_ram_load)
  with 1 show thesis by (intro that(2)) (simp_all add: ReadMemory_def x86_64_read_memory_def)
next
  case (2 m')
  then show thesis by (intro that(1)) (simp_all add: ReadMemory_def)
qed

lemma write_agrees:
  fixes v :: "'a::len word"
  assumes "LENGTH('a) \<le> 64" "mirrors m ram"
  obtains m' where "WriteMemory (Some m) a v = Inr (Some m')" "last_fault m' \<noteq> None"
  | m' ram' where "WriteMemory (Some m) a v = Inr (Some m')" "last_fault m' = last_fault m" "mirrors m' ram'"
      "x86_64_write_memory ram () a v = Inr ((), ram')"
proof (cases rule: WriteLittleEndian_cases [OF assms(1), of m a v])
  case (1 m')
  from mirrors_store [OF assms(2) 1(1) assms(1)] obtain ram' where
    "store_word ram_store ram a v = Some ram'" "mirrors m' ram'" by blast
  with 1 show thesis
    by (intro that(2) [of m' ram']) (simp_all add: WriteMemory_def x86_64_write_memory_def write_ram_store)
next
  case (2 m')
  then show thesis by (intro that(1) [of m']) (simp_all add: WriteMemory_def)
qed

lemmas access_defs = remill_read_memory_8_def remill_read_memory_16_def remill_read_memory_32_def
  remill_read_memory_64_def remill_write_memory_8_def remill_write_memory_16_def
  remill_write_memory_32_def remill_write_memory_64_def

lemma faulty_read:
  assumes "LENGTH('a) \<le> 64" "last_fault m \<noteq> None"
  obtains v m' where "ReadMemory (Some m) a = Inr (v :: 'a::len word, Some m')" "last_fault m' \<noteq> None"
  using assms(2) by (cases rule: ReadLittleEndian_cases [OF assms(1), of m a]) (auto simp: ReadMemory_def intro: that)

lemma faulty_write:
  fixes v :: "'a::len word"
  assumes "LENGTH('a) \<le> 64" "last_fault m \<noteq> None"
  obtains m' where "WriteMemory (Some m) a v = Inr (Some m')" "last_fault m' \<noteq> None"
  using assms(2) by (cases rule: WriteLittleEndian_cases [OF assms(1), of m a v]) (auto simp: WriteMemory_def intro: that)

lemma faulty_run:
  "last_fault m \<noteq> None \<Longrightarrow> \<exists>v m'. run_checked p (Some m) = Inr (v, Some m') \<and> last_fault m' \<noteq> None"
proof (induction p arbitrary: m)
  case (Read8 a k)
  then show ?case by (rule_tac faulty_read [where 'a = 8, of m a]) (auto simp: access_defs)
next
  case (Read16 a k)
  then show ?case by (rule_tac faulty_read [where 'a = 16, of m a]) (auto simp: access_defs)
next
  case (Read32 a k)
  then show ?case by (rule_tac faulty_read [where 'a = 32, of m a]) (auto simp: access_defs)
next
  case (Read64 a k)
  then show ?case by (rule_tac faulty_read [where 'a = 64, of m a]) (auto simp: access_defs)
next
  case (Write8 a v p)
  then show ?case by (rule_tac faulty_write [of m a v]) (auto simp: access_defs)
next
  case (Write16 a v p)
  then show ?case by (rule_tac faulty_write [of m a v]) (auto simp: access_defs)
next
  case (Write32 a v p)
  then show ?case by (rule_tac faulty_write [of m a v]) (auto simp: access_defs)
next
  case (Write64 a v p)
  then show ?case by (rule_tac faulty_write [of m a v]) (auto simp: access_defs)
qed simp

text \<open>What is to be shown of a run and its linked counterpart, and one access in front of both.\<close>

definition agrees :: "(u64 \<times> memory_ptr) res \<Rightarrow> (u64 \<times> 64 ram) res \<Rightarrow> bool" where
  "agrees checked linked \<longleftrightarrow> (\<exists>v m'. checked = Inr (v, Some m') \<and>
     (last_fault m' = None \<longrightarrow> (\<exists>ram'. linked = Inr (v, ram') \<and> mirrors m' ram')))"

lemma faulty_run_agrees: "last_fault m \<noteq> None \<Longrightarrow> agrees (run_checked p (Some m)) r"
  using faulty_run [of m p] by (auto simp: agrees_def)

lemma read_step:
  assumes "LENGTH('a) \<le> 64" "mirrors m ram" "\<And>v. agrees (run_checked (k v) (Some m)) (run_linked (k v) ram)"
  shows "agrees (res_bind (ReadMemory (Some m) a) (\<lambda>(v :: 'a::len word, m). run_checked (k v) m))
    (res_bind (x86_64_read_memory ram () a) (\<lambda>v. run_linked (k v) ram))"
  by (rule read_agrees [OF assms(1,2), of a]) (simp_all add: faulty_run_agrees assms(3))

lemma write_step:
  fixes v :: "'a::len word"
  assumes "LENGTH('a) \<le> 64" "mirrors m ram"
    and "\<And>m ram. mirrors m ram \<Longrightarrow> agrees (run_checked p (Some m)) (run_linked p ram)"
  shows "agrees (res_bind (WriteMemory (Some m) a v) (\<lambda>m. run_checked p m))
    (res_bind (x86_64_write_memory ram () a v) (\<lambda>(_, ram). run_linked p ram))"
  by (rule write_agrees [OF assms(1,2), of a v]) (simp_all add: faulty_run_agrees assms(3))

lemma linked_run: "mirrors m ram \<Longrightarrow> agrees (run_checked p (Some m)) (run_linked p ram)"
  by (induction p arbitrary: m ram) (auto simp: access_defs agrees_def [of "Inr _"] intro!: read_step write_step)

text \<open>
  C9. Linking with the helpers does not change what lifted code computes: a program that ends
  without a fault on the tester's checked memory returns the same answer when it runs on a RAM
  with the same bytes, leaves the same bytes, and has no undefined behaviour there. On the
  checked memory every program returns.
\<close>

theorem linked_code_agrees:
  assumes "mirrors m ram"
  shows "\<exists>v m'. run_checked p (Some m) = Inr (v, Some m') \<and>
    (last_fault m' = None \<longrightarrow>
      (\<exists>ram'. run_linked p ram = Inr (v, ram') \<and> (\<forall>a q b. gm_abs m' a = Some (q, b) \<longrightarrow> ram' a = b)))"
  using linked_run [OF assms, of p] by (simp add: agrees_def mirrors_def)

definition demo_program :: program where
  "demo_program = Write32 0x1FFE 0x11223344 (Read16 0x2000 (\<lambda>v. Finish (ucast v)))"

lemma demo_mirrors: "mirrors demo_memory (\<lambda>_. 0)"
  by (simp add: mirrors_def demo_abs)

lemma demo_program_checked:
  "\<exists>v m'. run_checked demo_program (Some demo_memory) = Inr (v, Some m') \<and> last_fault m' = None"
proof -
  have sizes: "LENGTH(32) \<le> 64" "LENGTH(16) \<le> 64" by simp_all
  have w: "access_ok PermWrite demo_memory 0x1FFE 4" using access_ok_weaken(2) [OF demo_access] .
  then have "store_word gm_store demo_memory 0x1FFE (0x11223344 :: u32) \<noteq> None"
    by (simp add: store_word_def gm_store_eq(1))
  then obtain m1 where m1: "WriteLittleEndian demo_memory 0x1FFE (0x11223344 :: u32) = Inr (True, m1)"
    "last_fault m1 = None" "store_word gm_store demo_memory 0x1FFE (0x11223344 :: u32) = Some m1"
    by (cases rule: WriteLittleEndian_cases [OF sizes(1), of demo_memory "0x1FFE" "0x11223344"])
       (auto simp: demo_memory_def)
  have "access_ok PermRead demo_memory 0x2000 2"
    by (simp add: access_ok_def accessible_abs demo_abs all_less_2 PageBase_def kPageSize_def perm_defs)
  then have "(load_word gm_load demo_memory 0x2000 :: u16 option) \<noteq> None"
    by (simp add: load_word_def gm_load_eq)
  then have "(load_word gm_load m1 0x2000 :: u16 option) \<noteq> None"
    using gm.loadable_kept [OF m1(3) [unfolded store_word_def], of 2 "0x2000"] by (simp add: load_word_def)
  then obtain v where "ReadLittleEndian m1 0x2000 = Inr (True, v :: u16, m1)"
    by (cases rule: ReadLittleEndian_cases [OF sizes(2), of m1 "0x2000"]) auto
  with m1 show ?thesis
    by (simp add: demo_program_def access_defs ReadMemory_def WriteMemory_def)
qed

theorem linked_code_agrees_witness:
  "\<exists>v m' ram'. run_checked demo_program (Some demo_memory) = Inr (v, Some m') \<and> last_fault m' = None \<and>
     run_linked demo_program (\<lambda>_. 0) = Inr (v, ram')"
  using linked_code_agrees [OF demo_mirrors, of demo_program] demo_program_checked by fastforce

end
