(* ===== verification/Spec2Isabelle.thy ===== *)
theory Spec2Isabelle
  imports Outcome Parser Comparator Ordered_Map Remill_Helpers
begin

text \<open>
  Verification development of remill-tester.

  remill-tester reads corpora of x86 instructions with the effects a real processor had on
  registers, flags and memory, lifts each instruction with Remill, compiles the lifted LLVM
  module with a JIT, runs it on a copy of the recorded machine and compares what it leaves
  with what was recorded. The theories follow the program's parts, bottom up.

  \<^item> \<^verbatim>\<open>Prelude\<close>, \<^verbatim>\<open>Cpp_Std\<close>: results with the exceptions, undefined behaviours and endless loops
    of C++ as errors (\<open>res\<close>, \<open>res_bind\<close>); checked indexing; the parts of the standard library the
    sources use (\<open>std::stoull\<close>, \<open>from_chars\<close>, \<open>getline\<close>, searching, number output).
    \<^verbatim>\<open>Byte_Memory\<close>, \<^verbatim>\<open>Ordered_Map\<close>: the two interfaces as locales, a memory of bytes and a
    \<open>std::map\<close>, interpreted on the guest memory and on the maps of the program.
  \<^item> \<^verbatim>\<open>Guest_Memory\<close>: \<^verbatim>\<open>guest_memory.hpp/.cpp\<close>. Pages by base address with permissions, the sticky
    fault record, mapping, reading, writing and the little-endian word accesses. The page and
    chunk loops end by a measure, except \<open>Map\<close>, which the source writes with an end address
    that could wrap: it is a \<open>partial_function\<close>, and is proved to return always.
  \<^item> \<^verbatim>\<open>Flag_Masks\<close>: \<^verbatim>\<open>flag_masks.hpp/.cpp\<close>. \<^verbatim>\<open>Expectation\<close>: \<^verbatim>\<open>expectation.hpp\<close>.
  \<^item> \<^verbatim>\<open>Parser_Text\<close>, \<^verbatim>\<open>Parser\<close>: \<^verbatim>\<open>x86tester_parser.cpp\<close>. Fields, numbers, hex bytes, schemas,
    value pools, state rows, the line loop with its locals as a record, and the header scan.
  \<^item> \<^verbatim>\<open>State_Bridge\<close>: \<^verbatim>\<open>remill_state_bridge.cpp\<close>. Named scalar and byte registers of Remill's
    \<open>State\<close>, flags, the x87 status word, applying a row's state and taking snapshots.
  \<^item> \<^verbatim>\<open>Intrinsics\<close>: \<^verbatim>\<open>remill_intrinsics.cpp\<close>. The functions lifted code calls and the symbol
    tables of the JIT. \<^verbatim>\<open>Remill_Helpers\<close>: \<^verbatim>\<open>src/helpers\<close>, the same intrinsics over a flat
    RAM, for lifted code that is linked and optimised instead of run by the tester.
  \<^item> \<^verbatim>\<open>Xed_Metadata\<close>: \<^verbatim>\<open>xed_metadata.cpp\<close>. \<^verbatim>\<open>Comparator\<close>: \<^verbatim>\<open>comparator.cpp\<close>, the flag care mask
    with the dynamic rules for shifts and rotates, and the comparison with its mismatches.
  \<^item> \<^verbatim>\<open>Backend\<close>: \<^verbatim>\<open>remill_backend.cpp\<close>. The object with its caches, the pending module and
    its finalization, preparing batches, the setup of memory and state, and one run.
  \<^item> \<^verbatim>\<open>Skip_Rules\<close>, \<^verbatim>\<open>Report\<close>, \<^verbatim>\<open>Options\<close>, \<^verbatim>\<open>Self_Test\<close>, \<^verbatim>\<open>Tester\<close>: \<^verbatim>\<open>tester_main.cpp\<close>. The rules that
    skip a row, the JSON lines, the command line, the self tests, and \<open>Run\<close> with its batches,
    groups, counters and exit code.
  \<^item> \<^verbatim>\<open>Outcome\<close>: a postcondition calculus for \<open>res\<close> (\<open>safe\<close>), applied to every function between
    \<open>main\<close> and the components: the program always ends with an exit code.
  \<^item> This theory: the property that spans the parts, what a passed row says of the machine.

  \<^bold>\<open>Correspondence.\<close> A definition has the name of the function it translates; the body of a
  loop or a lambda that has no name gets one. A struct is a record, an enum a datatype, a
  \<open>uintN_t\<close> a word, \<open>std::string\<close> a character list, \<open>std::map\<close> an ordered association list, an
  out parameter a component of the result. An exception is \<open>Inl\<close> with its kind and text, and so
  is undefined behaviour (an index or iterator out of range, a null dereference) and a loop
  that does not end; that they do not occur is a theorem where a property says so. Objects that
  are mutated in place are passed and returned. The catch blocks of \<open>ParseFile\<close> and \<open>main\<close> are
  branches on the kind of exception.

  \<^bold>\<open>What is proved.\<close> Memory: mapping, reads and writes refine a map from addresses to
  permission and byte, word accesses round-trip, faults name the first bad address and stay.
  Parser: each reader of text against its grammar; a corpus is either returned or refused with
  a runtime error, and it consists of the rows of the file. State: what is applied is what is
  observed. Intrinsics: functional behaviour, confinement of lifted code to the permissions.
  Metadata and comparison: consistency for every answer of XED; a row passes exactly when a
  declarative expectation is met, and the mismatches name exactly what is not. Backend: its
  tables in every reachable state, the errors that can and cannot occur, what a normal outcome
  means. Driver: which rows run, that the counters add up to the rows seen, that the lines of
  the report read back, that \<open>main\<close> always returns 0, 1 or 2. Helpers: code that does not fault
  on the checked memory computes the same when it is linked and runs on a flat RAM.

  \<^bold>\<open>Parameters.\<close> Code outside the repository is an argument: XED's decoded instruction
  (\<open>Xed_Metadata\<close>), the layout of Remill's \<open>State\<close> with arbitrary vector registers and
  the stack's previous contents, Remill's lifter, LLVM's JIT and the address translations as the
  record \<open>RemillLib\<close>, whose calls may answer anything; lifted code is any function on state
  and memory, and is asked to be \<^verbatim>\<open>confined\<close> (to what the intrinsics can do, which
  \<^verbatim>\<open>lifted_code_is_confined\<close> shows of them) only where a property needs it. The file system and
  the streams are the \<open>Environment\<close> record and the lists of lines of \<open>Output\<close>.

  \<^bold>\<open>Bounds and fuel.\<close> There is no fuel: loops over lists are structural recursion, the chunk
  loops have a measure, the page loop of \<open>Map\<close> is partial with its termination proved, and
  endless execution of compiled code is a value the code may return. The counters
  of the summary and the numbers of functions are 64-bit words and wrap as the source's do; lengths of
  texts and lists are naturals.

  \<^bold>\<open>Not modelled.\<close> \<^verbatim>\<open>exepath.hpp\<close>, which only asks the operating system for the path of the
  executable; the build system and the scripts around it; memory exhaustion; glog's
  initialisation apart from its call; the layout of objects in memory (\<open>opaque()\<close> and
  \<open>FromOpaque\<close> are pointer casts); the code Remill and LLVM generate.
\<close>

section \<open>What a pass says about the machine\<close>

text \<open>The keys that \<open>Run\<close> asks the backend to report.\<close>

definition reported_keys :: "ExpectationRow \<Rightarrow> string list" where
  "reported_keys row = (case expected_final_state row of Some state \<Rightarrow> map fst state | None \<Rightarrow> [])"

lemma reported_keys_scalars: "reported_keys row = map fst (expected_scalars row)"
  by (simp add: reported_keys_def expected_scalars_def split: option.split)

definition scalar_holds :: "nat \<Rightarrow> ExpectationRow \<Rightarrow> XedMetadata \<Rightarrow> State \<Rightarrow> string \<times> u64 \<Rightarrow> bool" where
  "scalar_holds nvec row metadata s entry \<longleftrightarrow>
     (let key = CanonicalStateKey (fst entry) in
      IsByteRegister nvec key \<or>
      (if key = ''flag'' then (snd entry XOR GetFlags s) AND care_mask row metadata = 0
       else state_value s key = Some (snd entry)))"

definition bytes_hold :: "nat \<Rightarrow> State \<Rightarrow> string \<times> u8 list \<Rightarrow> bool" where
  "bytes_hold nvec s entry \<longleftrightarrow>
     (let key = CanonicalStateKey (fst entry) in
      IsByteRegister nvec key \<longrightarrow> GetByteRegister nvec s key = Some (snd entry))"

definition memory_holds :: "GuestMemory \<Rightarrow> MemoryExpectation \<Rightarrow> bool" where
  "memory_holds m e \<longleftrightarrow>
     (\<exists>bytes. gm_load m (exp_address e) (length (exp_bytes e)) = Some bytes \<and>
        length bytes = length (exp_bytes e) \<and>
        (\<forall>i < length (exp_bytes e). (exp_bytes e ! i XOR bytes ! i) AND
           (if i < length (exp_mask e) then exp_mask e ! i else - 1) = 0))"

lemma scalar_met_holds:
  assumes "final_state r = SnapshotState s (reported_keys row)" "entry \<in> set (expected_scalars row)"
    and "scalar_met nvec row metadata r entry"
  shows "scalar_holds nvec row metadata s entry"
proof -
  have "CanonicalStateKey (fst entry) \<in> CanonicalStateKey ` set (reported_keys row)"
    using assms(2) by (simp add: reported_keys_scalars)
  then have found: "map_of (final_state r) (CanonicalStateKey (fst entry)) = state_value s (CanonicalStateKey (fst entry))"
    by (simp add: assms(1) SnapshotState_find)
  show ?thesis
    using assms(3) found by (auto simp: scalar_met_def scalar_holds_def Let_def state_value_def split: if_splits)
qed

lemma bytes_met_holds:
  assumes "final_bytes r = SnapshotBytes nvec s (map fst (expected_final_bytes row))"
    and "entry \<in> set (expected_final_bytes row)" "bytes_met nvec r entry"
  shows "bytes_hold nvec s entry"
proof -
  have "CanonicalStateKey (fst entry) \<in> CanonicalStateKey ` set (map fst (expected_final_bytes row))"
    using assms(2) by simp
  with assms(3) show ?thesis
    by (simp add: assms(1) SnapshotBytes_find bytes_met_def bytes_hold_def Let_def)
qed

lemma memory_met_holds:
  assumes "list_all2 (observation m) (expected_memory row) (final_memory r)" "i < length (expected_memory row)"
    and "memory_met row r i"
  shows "memory_holds m (expected_memory row ! i)"
  using list_all2_nthD [OF assms(1,2)] assms(3)
  by (auto simp: memory_met_def memory_agrees_def observation_def memory_holds_def)

text \<open>
  C1. A pass is a statement about the machine: when the comparison accepts what the backend
  reports for a row that expects no exception, the row's code ran on the row's registers and
  memory to an end without a fault, and in the state it left every expected register has its
  value, the flags agree on all bits that are compared, every expected byte register has its
  bytes, and every expected memory block can be read and agrees in all its compared bits.
\<close>

theorem pass_describes_machine:
  assumes "backend_runs lib (new_backend w) n b" "expected_exception_kind row = None"
    and "RunCase lib nvec stack b row (reported_keys row) = Inr (r, b')"
    and "passed (CompareExecutionResult nvec row metadata r)"
  shows "\<exists>i f s m s1 m1. map_of (cache b') (DecodeKey row) = Some i \<and> ci_function i = Some f \<and>
    started nvec stack row s m \<and> f s (row_address row) m = Inr (s1, m1) \<and> last_fault m1 = None \<and>
    list_all (scalar_holds nvec row metadata s1) (expected_scalars row) \<and>
    list_all (bytes_hold nvec s1) (expected_final_bytes row) \<and>
    list_all (memory_holds m1) (expected_memory row)"
proof -
  from assms(2,4) have met: "outcome_class r = Normal"
    "list_all (scalar_met nvec row metadata r) (expected_scalars row)"
    "list_all (bytes_met nvec r) (expected_final_bytes row)"
    "list_all (memory_met row r) [0..<length (expected_memory row)]"
    by (simp_all add: passed_iff_meets meets_expectation_def)
  from RunCase_normal [OF assms(1,3) met(1)] obtain i f s m s1 m1 where run:
    "map_of (cache b') (DecodeKey row) = Some i" "ci_function i = Some f" "started nvec stack row s m"
    "f s (row_address row) m = Inr (s1, m1)" "last_fault m1 = None"
    "final_state r = SnapshotState s1 (reported_keys row)"
    "final_bytes r = SnapshotBytes nvec s1 (map fst (expected_final_bytes row))"
    "list_all2 (observation m1) (expected_memory row) (final_memory r)" by blast
  have "list_all (memory_holds m1) (expected_memory row)"
    using met(4) memory_met_holds [OF run(8)] by (auto simp: list_all_iff in_set_conv_nth)
  moreover have "list_all (scalar_holds nvec row metadata s1) (expected_scalars row)"
    using met(2) scalar_met_holds [OF run(6)] by (simp add: list_all_iff)
  moreover have "list_all (bytes_hold nvec s1) (expected_final_bytes row)"
    using met(3) bytes_met_holds [OF run(7)] by (simp add: list_all_iff)
  ultimately show ?thesis using run by blast
qed

lemma demo_pass:
  "\<exists>r. RunCase demo_lib 32 demo_state (new_backend 0) demo_backend_row (reported_keys demo_backend_row) =
       Inr (r, demo_ran demo_backend_row) \<and>
     outcome_class r = Normal \<and>
     final_memory r = [\<lparr>exp_address = 0x2000, exp_bytes = [7, 8], exp_mask = [0xFF, 0]\<rparr>]"
proof -
  obtain m where m: "setup_memory demo_backend_row [0x48, 0xF7, 0xD0] = Inr m" "last_fault m = None"
     "access_ok PermRead m 0x2000 2" "abs_load (gm_abs m) 0x2000 2 = [7, 8]" using demo_setup by blast
  have read: "GuestMemory_Read m 0x2000 (Some [0, 0]) 2 = Inr (True, Some [7, 8], m)"
    using Read_ok [of 2 "[0, 0]" m "0x2000"] m(3,4) by simp
  have fields: "row_address demo_backend_row = 0x1000" "row_opcode demo_backend_row = ''48F7D0''"
    "initial_state demo_backend_row = [(''rax'', 1)]" "initial_bytes demo_backend_row = []"
    "expected_memory demo_backend_row = [\<lparr>exp_address = 0x2000, exp_bytes = [7, 9], exp_mask = [0xFF, 0]\<rparr>]"
    by (simp_all add: demo_backend_row_def default_row_def)
  have "\<exists>r. execute_row 32 demo_state demo_code demo_backend_row keys [] default_result = Inr r \<and>
     outcome_class r = Normal \<and>
     final_memory r = [\<lparr>exp_address = 0x2000, exp_bytes = [7, 8], exp_mask = [0xFF, 0]\<rparr>]" 
    if "keys = reported_keys demo_backend_row" for keys
    using demo_applied [of "[]"] m(1,2) read
    by (auto simp: execute_row_def fields demo_bytes demo_code_def GuestMemory_ok_def demo_rip numeral_2_eq_2)
  from this [OF refl] show ?thesis by (auto simp: demo_compiled fields)
qed

lemma demo_expectation: "expected_exception_kind demo_backend_row = None" "expected_scalars demo_backend_row = []"
  "expected_final_bytes demo_backend_row = []"
  "expected_memory demo_backend_row = [\<lparr>exp_address = 0x2000, exp_bytes = [7, 9], exp_mask = [0xFF, 0]\<rparr>]"
  by (simp_all add: demo_backend_row_def default_row_def expected_scalars_def)

theorem pass_describes_machine_witness:
  "\<exists>s m s1 m1. started 32 demo_state demo_backend_row s m \<and> demo_code s 0x1000 m = Inr (s1, m1) \<and>
     last_fault (m1 :: GuestMemory) = None \<and>
     memory_holds m1 \<lparr>exp_address = 0x2000, exp_bytes = [7, 9], exp_mask = [0xFF, 0]\<rparr>"
proof -
  obtain r where r: "RunCase demo_lib 32 demo_state (new_backend 0) demo_backend_row (reported_keys demo_backend_row) =
      Inr (r, demo_ran demo_backend_row)" "outcome_class r = Normal"
    "final_memory r = [\<lparr>exp_address = 0x2000, exp_bytes = [7, 8], exp_mask = [0xFF, 0]\<rparr>]"
    using demo_pass by blast
  have "passed (CompareExecutionResult 32 demo_backend_row default_metadata r)"
    by (simp add: passed_iff_meets meets_expectation_def demo_expectation r memory_met_def memory_agrees_def
        less_Suc_eq all_less_2)
  moreover have "row_address demo_backend_row = 0x1000" by (simp add: demo_backend_row_def)
  ultimately show ?thesis
    using pass_describes_machine [OF runs_none demo_expectation(1) r(1)]
    by (auto simp: demo_ran_def demo_expectation)
qed

end
